(* ===== verification/Codaze_Base.thy ===== *)
theory Codaze_Base
  imports Main "HOL-Library.Word" "HOL-Library.AList" "HOL-Library.Char_ord"
    "HOL-Library.List_Lexorder" "HOL-Library.Sublist" "HOL-Library.Option_ord"
begin

text \<open>
  The prelude of the development: Rust strings as byte lists with the operations of the standard
  library that the gateway uses on them, saturating arithmetic at the width of the code's integers,
  instants and durations, three-way comparisons, and the generic facts on association lists and
  minimal elements that the components share.
\<close>

section \<open>Collections of facts\<close>

named_theorems rust_str \<open>unfolding of the Rust string operations\<close>
named_theorems sat_simps \<open>saturating arithmetic read as natural numbers\<close>

section \<open>Strings\<close>

text \<open>
  A \<open>str\<close> is the list of its UTF-8 bytes. Comparison of strings in Rust is bytewise and
  lexicographic, which is the order of lists of characters here.
\<close>

definition ascii_lower_char :: "char \<Rightarrow> char" where
  "ascii_lower_char c =
     (let n = of_char c :: nat in if 65 \<le> n \<and> n \<le> 90 then char_of (n + 32) else c)"

definition to_ascii_lowercase :: "string \<Rightarrow> string" where
  "to_ascii_lowercase s = map ascii_lower_char s"

fun starts_with :: "'a list \<Rightarrow> 'a list \<Rightarrow> bool" where
  "starts_with s [] = True"
| "starts_with [] (p # ps) = False"
| "starts_with (c # s) (p # ps) = (c = p \<and> starts_with s ps)"

definition ends_with :: "'a list \<Rightarrow> 'a list \<Rightarrow> bool" where
  "ends_with s p = starts_with (rev s) (rev p)"

text \<open>\<open>str::find\<close> with a string pattern: the byte offset of the first occurrence.\<close>

fun str_find :: "string \<Rightarrow> string \<Rightarrow> nat option" where
  "str_find [] p = (if p = [] then Some 0 else None)"
| "str_find (c # s) p =
     (if starts_with (c # s) p then Some 0 else map_option Suc (str_find s p))"

definition str_contains :: "string \<Rightarrow> string \<Rightarrow> bool" where
  "str_contains s p = (str_find s p \<noteq> None)"

definition strip_prefix :: "string \<Rightarrow> string \<Rightarrow> string option" where
  "strip_prefix p s = (if starts_with s p then Some (drop (length p) s) else None)"

text \<open>
  \<open>str::trim\<close> removes the characters with the Unicode property \<open>White_Space\<close>; these are their
  encodings.
\<close>

definition white_space :: "string list" where
  "white_space =
     map (map char_of)
      ([[9], [10], [11], [12], [13], [32], [194, 133], [194, 160], [225, 154, 128],
        [226, 128, 128], [226, 128, 129], [226, 128, 130], [226, 128, 131], [226, 128, 132],
        [226, 128, 133], [226, 128, 134], [226, 128, 135], [226, 128, 136], [226, 128, 137],
        [226, 128, 138], [226, 128, 168], [226, 128, 169], [226, 128, 175], [226, 129, 159],
        [227, 128, 128]] :: nat list list)"

fun trim_with :: "string list \<Rightarrow> string \<Rightarrow> string" where
  "trim_with ws [] = []"
| "trim_with ws (c # s) =
     (case find (\<lambda>w. w \<noteq> [] \<and> starts_with (c # s) w) ws of
        None \<Rightarrow> c # s
      | Some w \<Rightarrow> trim_with ws (drop (length w - 1) s))"

definition trim_start :: "string \<Rightarrow> string" where
  "trim_start s = trim_with white_space s"

definition trim_end :: "string \<Rightarrow> string" where
  "trim_end s = rev (trim_with (map rev white_space) (rev s))"

definition str_trim :: "string \<Rightarrow> string" where
  "str_trim s = trim_end (trim_start s)"

definition is_ascii_digit :: "char \<Rightarrow> bool" where
  "is_ascii_digit c = (let n = of_char c :: nat in 48 \<le> n \<and> n \<le> 57)"

definition digit_value :: "char \<Rightarrow> nat" where
  "digit_value c = (of_char c :: nat) - 48"

definition parse_digits :: "string \<Rightarrow> nat option" where
  "parse_digits s =
     (if s \<noteq> [] \<and> list_all is_ascii_digit s
      then Some (foldl (\<lambda>n c. 10 * n + digit_value c) 0 s) else None)"

text \<open>\<open>str::parse::<u64>\<close>: an optional plus sign, at least one digit, no overflow.\<close>

definition parse_u64 :: "string \<Rightarrow> nat option" where
  "parse_u64 s =
     (let ds = (case s of c # cs \<Rightarrow> if c = CHR ''+'' then cs else s | [] \<Rightarrow> s)
      in case parse_digits ds of
           Some n \<Rightarrow> if n < 2 ^ 64 then Some n else None
         | None \<Rightarrow> None)"

text \<open>Decimal rendering of a natural number, as \<open>Display\<close> for the unsigned integers does.\<close>

definition digit_char :: "nat \<Rightarrow> char" where
  "digit_char d = char_of (48 + d)"

fun show_nat :: "nat \<Rightarrow> string" where
  "show_nat n = (if n < 10 then [digit_char n] else show_nat (n div 10) @ [digit_char (n mod 10)])"

declare show_nat.simps [simp del]

definition show_int :: "int \<Rightarrow> string" where
  "show_int i = (if i < 0 then CHR ''-'' # show_nat (nat (- i)) else show_nat (nat i))"

fun join_with :: "string \<Rightarrow> string list \<Rightarrow> string" where
  "join_with sep [] = []"
| "join_with sep [x] = x"
| "join_with sep (x # y # xs) = x @ sep @ join_with sep (y # xs)"

subsection \<open>Decimal numbers read back\<close>

lemma digit_char_digit [simp]:
  "d < 10 \<Longrightarrow> is_ascii_digit (digit_char d)" "d < 10 \<Longrightarrow> digit_value (digit_char d) = d"
  by (simp_all add: is_ascii_digit_def digit_value_def digit_char_def Let_def)

lemma show_nat_digits: "list_all is_ascii_digit (show_nat n)"
  by (induction n rule: show_nat.induct) (subst show_nat.simps, simp)

lemma show_nat_nonempty [simp]: "show_nat n \<noteq> []"
  by (subst show_nat.simps) simp

lemma foldl_show_nat: "foldl (\<lambda>n c. 10 * n + digit_value c) 0 (show_nat n) = n"
  by (induction n rule: show_nat.induct) (subst show_nat.simps, simp)

lemma parse_digits_show_nat [simp]: "parse_digits (show_nat n) = Some n"
  by (simp add: parse_digits_def show_nat_digits foldl_show_nat)

lemma show_nat_inj: "show_nat m = show_nat n \<longleftrightarrow> m = n"
  by (metis option.inject parse_digits_show_nat)

lemma parse_u64_show_nat:
  assumes "n < 2 ^ 64"
  shows "parse_u64 (show_nat n) = Some n"
proof -
  obtain c cs where s: "show_nat n = c # cs"
    using show_nat_nonempty [of n] by (cases "show_nat n") auto
  with show_nat_digits [of n] have "is_ascii_digit c" by simp
  then have "c \<noteq> CHR ''+''" by (auto simp: is_ascii_digit_def)
  with s assms parse_digits_show_nat [of n] show ?thesis
    by (simp add: parse_u64_def)
qed

lemma starts_with_iff: "starts_with s p \<longleftrightarrow> prefix p s"
  by (induction s p rule: starts_with.induct) auto

lemma starts_withE:
  assumes "starts_with s p"
  obtains r where "s = p @ r"
  using assms unfolding starts_with_iff prefix_def by blast

lemma starts_with_self_append [simp]: "starts_with (p @ s) p"
  by (simp add: starts_with_iff)

lemma starts_with_append: "starts_with s w \<Longrightarrow> starts_with (s @ t) w"
  by (simp add: starts_with_iff)

lemma str_find_some:
  "str_find s p = Some i \<Longrightarrow> i + length p \<le> length s \<and> starts_with (drop i s) p"
proof (induction s p arbitrary: i rule: str_find.induct)
  case (1 p)
  then show ?case by (simp split: if_splits)
next
  case (2 c s p)
  then show ?case
    by (auto simp: starts_with_iff split: if_splits dest: prefix_length_le)
qed

lemma str_contains_iff: "str_contains s p \<longleftrightarrow> (\<exists>u v. s = u @ p @ v)"
proof (induction s)
  case Nil
  then show ?case by (simp add: str_contains_def)
next
  case (Cons c s)
  have "str_contains (c # s) p \<longleftrightarrow> starts_with (c # s) p \<or> str_contains s p"
    by (simp add: str_contains_def)
  also have "\<dots> \<longleftrightarrow> (\<exists>v. c # s = p @ v) \<or> (\<exists>u v. s = u @ p @ v)"
    by (simp add: Cons.IH starts_with_iff prefix_def)
  also have "\<dots> \<longleftrightarrow> (\<exists>u v. c # s = u @ p @ v)"
    by (metis append_Cons append_Nil list.exhaust_sel list.sel(3))
  finally show ?case .
qed

lemma length_trim_with: "length (trim_with ws s) \<le> length s"
proof (induction ws s rule: trim_with.induct)
  case (2 ws c s)
  show ?case
  proof (cases "find (\<lambda>w. w \<noteq> [] \<and> starts_with (c # s) w) ws")
    case (Some w)
    with 2 have "length (trim_with ws (drop (length w - 1) s)) \<le> length (drop (length w - 1) s)"
      by simp
    with Some show ?thesis by simp
  qed simp
qed simp

lemma trim_with_no_leading:
  "w \<in> set ws \<Longrightarrow> w \<noteq> [] \<Longrightarrow> \<not> starts_with (trim_with ws s) w"
proof (induction ws s rule: trim_with.induct)
  case (1 ws)
  then show ?case by (auto simp: neq_Nil_conv)
next
  case (2 ws c s)
  show ?case
  proof (cases "find (\<lambda>w. w \<noteq> [] \<and> starts_with (c # s) w) ws")
    case None
    then have "\<not> starts_with (c # s) w"
      using 2(2,3) by (auto simp: find_None_iff)
    with None show ?thesis by simp
  next
    case (Some v)
    with 2 show ?thesis by simp
  qed
qed

lemma trim_with_idem: "trim_with ws (trim_with ws s) = trim_with ws s"
proof -
  have none: "find (\<lambda>w. w \<noteq> [] \<and> starts_with (trim_with ws s) w) ws = None"
    by (auto simp: find_None_iff dest: trim_with_no_leading)
  then show ?thesis
    by (cases "trim_with ws s") simp_all
qed

text \<open>A string that begins and ends with a visible ASCII character is not changed by trimming.\<close>

definition is_graphic :: "char \<Rightarrow> bool" where
  "is_graphic c = (let n = of_char c :: nat in 33 \<le> n \<and> n \<le> 126)"

lemma white_space_not_graphic:
  "w \<in> set white_space \<Longrightarrow> w \<noteq> [] \<and> \<not> is_graphic (hd w) \<and> \<not> is_graphic (last w)"
proof -
  have "\<forall>w \<in> set white_space. w \<noteq> [] \<and> \<not> is_graphic (hd w) \<and> \<not> is_graphic (last w)"
    unfolding white_space_def is_graphic_def Let_def by simp
  then show "w \<in> set white_space \<Longrightarrow> w \<noteq> [] \<and> \<not> is_graphic (hd w) \<and> \<not> is_graphic (last w)"
    by blast
qed

lemma starts_with_hd: "starts_with s w \<Longrightarrow> w \<noteq> [] \<Longrightarrow> s \<noteq> [] \<and> hd s = hd w"
  by (cases s; cases w) auto

lemma trim_with_graphic:
  assumes "\<And>w. w \<in> set ws \<Longrightarrow> \<not> is_graphic (hd w)" "s = [] \<or> is_graphic (hd s)"
  shows "trim_with ws s = s"
proof (cases s)
  case (Cons c cs)
  have "\<not> (w \<noteq> [] \<and> starts_with (c # cs) w)" if "w \<in> set ws" for w
    using assms(1) [OF that] assms(2) Cons starts_with_hd [of "c # cs" w] by auto
  then have "find (\<lambda>w. w \<noteq> [] \<and> starts_with (c # cs) w) ws = None"
    by (auto simp: find_None_iff)
  with Cons show ?thesis by simp
qed simp

lemma str_trim_graphic:
  assumes "s = [] \<or> is_graphic (hd s) \<and> is_graphic (last s)"
  shows "str_trim s = s"
proof -
  have "trim_start s = s"
    unfolding trim_start_def using assms white_space_not_graphic
    by (intro trim_with_graphic) auto
  moreover have "trim_end s = s"
    unfolding trim_end_def using assms white_space_not_graphic
    by (subst trim_with_graphic) (auto simp: hd_rev)
  ultimately show ?thesis by (simp add: str_trim_def)
qed

section \<open>Saturating arithmetic\<close>

definition sat_add :: "'a::len word \<Rightarrow> 'a word \<Rightarrow> 'a word" where
  "sat_add a b = (if unat a + unat b < 2 ^ LENGTH('a) then a + b else - 1)"

definition sat_sub :: "'a::len word \<Rightarrow> 'a word \<Rightarrow> 'a word" where
  "sat_sub a b = (if b \<le> a then a - b else 0)"

definition sat_mul :: "'a::len word \<Rightarrow> 'a word \<Rightarrow> 'a word" where
  "sat_mul a b = (if unat a * unat b < 2 ^ LENGTH('a) then a * b else - 1)"

lemma unat_minus_one_word_len: "unat (- 1 :: 'a::len word) = 2 ^ LENGTH('a) - 1"
  by (simp add: unsigned_minus_1_eq_mask mask_eq_exp_minus_1)

lemma unat_sat_add [sat_simps]:
  "unat (sat_add a b) = min (unat a + unat b) (2 ^ LENGTH('a) - 1)" for a b :: "'a::len word"
  by (auto simp: sat_add_def unat_minus_one_word_len unat_word_ariths)

lemma unat_sat_sub [sat_simps]: "unat (sat_sub a b) = unat a - unat b" for a b :: "'a::len word"
  by (auto simp: sat_sub_def unat_sub word_le_nat_alt)

lemma unat_sat_mul [sat_simps]:
  "unat (sat_mul a b) = min (unat a * unat b) (2 ^ LENGTH('a) - 1)" for a b :: "'a::len word"
  by (auto simp: sat_mul_def unat_minus_one_word_len unat_word_ariths)

section \<open>Instants and durations\<close>

text \<open>
  An instant (\<open>DateTime<Utc>\<close>) is a number of nanoseconds since the Unix epoch, a standard
  \<open>Duration\<close> a number of nanoseconds.
\<close>

type_synonym time = int
type_synonym duration = nat

definition from_secs :: "nat \<Rightarrow> duration" where
  "from_secs n = n * 1000000000"

definition time_secs :: "time \<Rightarrow> int" where
  "time_secs t = t div 1000000000"

lemma from_secs_mono: "a \<le> b \<Longrightarrow> from_secs a \<le> from_secs b"
  by (simp add: from_secs_def)

section \<open>Three-way comparison\<close>

datatype ordering = Less | Equal | Greater

definition cmp :: "'a::linorder \<Rightarrow> 'a \<Rightarrow> ordering" where
  "cmp a b = (if a < b then Less else if a = b then Equal else Greater)"

fun then_with :: "ordering \<Rightarrow> ordering \<Rightarrow> ordering" where
  "then_with Equal o2 = o2"
| "then_with o1 o2 = o1"

text \<open>\<open>Iterator::min_by\<close> keeps the first of equal elements, \<open>max_by\<close> the last.\<close>

fun min_by :: "('a \<Rightarrow> 'a \<Rightarrow> ordering) \<Rightarrow> 'a list \<Rightarrow> 'a option" where
  "min_by c [] = None"
| "min_by c (x # xs) =
     Some (foldl (\<lambda>best y. if c best y = Greater then y else best) x xs)"

fun max_by :: "('a \<Rightarrow> 'a \<Rightarrow> ordering) \<Rightarrow> 'a list \<Rightarrow> 'a option" where
  "max_by c [] = None"
| "max_by c (x # xs) =
     Some (foldl (\<lambda>best y. if c best y = Greater then best else y) x xs)"

lemma cmp_simps [simp]:
  "cmp a b = Less \<longleftrightarrow> a < b" "cmp a b = Equal \<longleftrightarrow> a = b" "cmp a b = Greater \<longleftrightarrow> b < a"
  by (auto simp: cmp_def)

lemma then_with_simps [simp]:
  "then_with o1 o2 = Less \<longleftrightarrow> o1 = Less \<or> o1 = Equal \<and> o2 = Less"
  "then_with o1 o2 = Equal \<longleftrightarrow> o1 = Equal \<and> o2 = Equal"
  "then_with o1 o2 = Greater \<longleftrightarrow> o1 = Greater \<or> o1 = Equal \<and> o2 = Greater"
  by (cases o1; simp)+

end
