(* ===== verification/Json_Values.thy ===== *)
theory Json_Values
  imports Codaze_Base
begin

text \<open>
  The values the gateway exchanges with code outside \<open>src/\<close>: \<open>serde_json::Value\<close> with the
  accessors the sources call, HTTP header maps and status codes, the transport error enum, and the
  record of the external functions, which every definition that needs one takes as an argument.
\<close>

section \<open>JSON values\<close>

text \<open>
  A number is an integer in the range of \<open>i64\<close> and \<open>u64\<close> or a float, kept as its text. Objects keep
  insertion order (\<open>Cargo.lock\<close> builds serde\_json with \<open>preserve_order\<close>): an insertion replaces in
  place or appends, a removal moves the last entry into the gap.
\<close>

datatype jnum = JInt int | JFloat string

datatype json =
  JNull | JBool bool | JNumber jnum | JString string | JArray "json list"
| JObject "(string \<times> json) list"

type_synonym json_object = "(string \<times> json) list"

fun as_object :: "json \<Rightarrow> json_object option" where
  "as_object (JObject m) = Some m"
| "as_object _ = None"

fun as_str :: "json \<Rightarrow> string option" where
  "as_str (JString s) = Some s"
| "as_str _ = None"

fun as_array :: "json \<Rightarrow> json list option" where
  "as_array (JArray xs) = Some xs"
| "as_array _ = None"

fun as_i64 :: "json \<Rightarrow> int option" where
  "as_i64 (JNumber (JInt i)) = (if - (2 ^ 63) \<le> i \<and> i < 2 ^ 63 then Some i else None)"
| "as_i64 _ = None"

fun as_u64 :: "json \<Rightarrow> nat option" where
  "as_u64 (JNumber (JInt i)) = (if 0 \<le> i \<and> i < 2 ^ 64 then Some (nat i) else None)"
| "as_u64 _ = None"

definition is_null :: "json \<Rightarrow> bool" where
  "is_null v = (v = JNull)"

definition jget :: "json \<Rightarrow> string \<Rightarrow> json option" where
  "jget v k = (case v of JObject m \<Rightarrow> map_of m k | _ \<Rightarrow> None)"

definition jget_str :: "json \<Rightarrow> string \<Rightarrow> string option" where
  "jget_str v k = Option.bind (jget v k) as_str"

definition jget_i64 :: "json \<Rightarrow> string \<Rightarrow> int option" where
  "jget_i64 v k = Option.bind (jget v k) as_i64"

definition obj_insert :: "string \<Rightarrow> json \<Rightarrow> json_object \<Rightarrow> json_object" where
  "obj_insert k v m = AList.update k v m"

fun obj_remove :: "string \<Rightarrow> json_object \<Rightarrow> json_object" where
  "obj_remove k [] = []"
| "obj_remove k (p # ps) =
     (if fst p = k then (if ps = [] then [] else last ps # butlast ps)
      else p # obj_remove k ps)"

definition obj_or_insert :: "string \<Rightarrow> json \<Rightarrow> json_object \<Rightarrow> json_object" where
  "obj_or_insert k v m = (if map_of m k = None then obj_insert k v m else m)"

lemma map_of_obj_insert [simp]: "map_of (obj_insert k v m) = (map_of m)(k \<mapsto> v)"
  by (simp add: obj_insert_def AList.update_conv')

lemma obj_remove_perm:
  "distinct (map fst m) \<Longrightarrow> set (obj_remove k m) = {p \<in> set m. fst p \<noteq> k}"
proof (induction m)
  case (Cons p ps)
  show ?case
  proof (cases "fst p = k")
    case True
    have "set (if ps = [] then [] else last ps # butlast ps) = set ps"
      by (cases ps rule: rev_cases) auto
    moreover have "\<forall>q \<in> set ps. fst q \<noteq> k"
      using Cons.prems True by (auto simp: image_iff)
    ultimately show ?thesis using True by auto
  next
    case False
    with Cons show ?thesis by auto
  qed
qed simp

lemma distinct_obj_insert [simp]:
  "distinct (map fst m) \<Longrightarrow> distinct (map fst (obj_insert k v m))"
  unfolding obj_insert_def by (rule AList.distinct_update)

lemma distinct_obj_remove:
  "distinct (map fst m) \<Longrightarrow> distinct (map fst (obj_remove k m))"
proof (induction m)
  case (Cons p ps)
  show ?case
  proof (cases "fst p = k")
    case True
    with Cons.prems show ?thesis
      by (cases ps rule: rev_cases) auto
  next
    case False
    have "fst ` set (obj_remove k ps) \<subseteq> fst ` set ps"
      using Cons.prems obj_remove_perm [of ps k] by auto
    with False Cons show ?thesis by auto
  qed
qed simp

lemma map_of_obj_remove:
  assumes "distinct (map fst m)"
  shows "map_of (obj_remove k m) = (map_of m)(k := None)"
proof
  fix x
  have d: "distinct (map fst (obj_remove k m))" by (rule distinct_obj_remove [OF assms])
  show "map_of (obj_remove k m) x = ((map_of m)(k := None)) x"
  proof (cases "map_of (obj_remove k m) x")
    case None
    then have "x \<notin> fst ` set (obj_remove k m)" by (simp add: map_of_eq_None_iff)
    then have "x = k \<or> map_of m x = None"
      unfolding obj_remove_perm [OF assms] map_of_eq_None_iff by auto
    with None show ?thesis by auto
  next
    case (Some v)
    then have "(x, v) \<in> set (obj_remove k m)" by (rule map_of_SomeD)
    then have "(x, v) \<in> set m" "x \<noteq> k" unfolding obj_remove_perm [OF assms] by auto
    with assms Some show ?thesis by (simp add: map_of_is_SomeI)
  qed
qed

section \<open>HTTP\<close>

type_synonym status = nat

definition status_from_u16 :: "nat \<Rightarrow> status option" where
  "status_from_u16 n = (if 100 \<le> n \<and> n < 1000 then Some n else None)"

definition is_server_error :: "status \<Rightarrow> bool" where
  "is_server_error s = (500 \<le> s \<and> s < 600)"

definition is_success :: "status \<Rightarrow> bool" where
  "is_success s = (200 \<le> s \<and> s < 300)"

text \<open>
  A header map is the list of its entries in insertion order, names in lower case, values as bytes.
  \<open>get\<close> returns the first value of a name; \<open>to_str\<close> succeeds on visible ASCII and tabs only.
\<close>

type_synonym header_map = "(string \<times> string) list"

definition hv_valid :: "string \<Rightarrow> bool" where
  "hv_valid v = list_all (\<lambda>c. let n = of_char c :: nat in (32 \<le> n \<and> n \<noteq> 127) \<or> n = 9) v"

definition hv_to_str :: "string \<Rightarrow> string option" where
  "hv_to_str v =
     (if list_all (\<lambda>c. let n = of_char c :: nat in (32 \<le> n \<and> n < 127) \<or> n = 9) v
      then Some v else None)"

definition hdr_get :: "header_map \<Rightarrow> string \<Rightarrow> string option" where
  "hdr_get h name = map_of h name"

definition hdr_get_str :: "header_map \<Rightarrow> string \<Rightarrow> string option" where
  "hdr_get_str h name = Option.bind (hdr_get h name) hv_to_str"

datatype transport_error =
  Http status "string option" "header_map option" "string option"
| RetryLimit
| Timeout
| Network string
| Build string

section \<open>External functions\<close>

text \<open>
  \<^item> \<open>parse_json\<close>, \<open>print_json\<close>: \<open>serde_json::from_str\<close> and \<open>to_string\<close>;
  \<^item> \<open>json_stream\<close>: the document as serde's streaming deserializer of a struct meets it, objects with
    every member in order, repeated ones included; \<open>print_json_pretty\<close>: \<open>to_vec_pretty\<close>;
  \<^item> \<open>rfc2822\<close>: \<open>DateTime::parse_from_rfc2822\<close>, as an instant;
  \<^item> \<open>secs_f64\<close>: parse a decimal as \<open>f64\<close>, multiply, \<open>Duration::try_from_secs_f64\<close>;
  \<^item> \<open>min_utc\<close>, \<open>max_utc\<close>, \<open>max_delta\<close>: the first and last instant and the largest \<open>TimeDelta\<close>
    that chrono represents; adding beyond the instants panics, and so does building a \<open>TimeDelta\<close>
    beyond the last with \<open>Duration::seconds\<close>;
  \<^item> \<open>canonical_reason\<close>: the reason phrase of a status;
  \<^item> \<open>transport_display\<close>: the \<open>Display\<close> text of a transport error;
  \<^item> \<open>show_secs\<close>: \<open>Duration::as_secs_f64\<close> as \<open>Display\<close> prints it;
  \<^item> \<open>sha256\<close>: the digest, 32 bytes.
\<close>

datatype multiplier = Mul_0_001 | Mul_60 | Mul_3600 | Mul_1

record externals =
  parse_json :: "string \<Rightarrow> json option"
  print_json :: "json \<Rightarrow> string"
  json_stream :: "string \<Rightarrow> json option"
  print_json_pretty :: "json \<Rightarrow> string"
  rfc2822 :: "string \<Rightarrow> time option"
  secs_f64 :: "string \<Rightarrow> multiplier \<Rightarrow> duration option"
  min_utc :: time
  max_utc :: time
  max_delta :: duration
  canonical_reason :: "status \<Rightarrow> string option"
  transport_display :: "transport_error \<Rightarrow> string"
  show_secs :: "duration \<Rightarrow> string"
  sha256 :: "string \<Rightarrow> 8 word list"

text \<open>
  A concrete instance for the closed examples: chrono's documented bounds, a decimal parser for whole
  seconds, a JSON parser that reads nothing, and a reader of objects of strings.
\<close>

text \<open>
  A readable encoding of objects of strings, for the instance: every string is preceded by its length
  in unary.
\<close>

definition enc_str :: "string \<Rightarrow> string" where
  "enc_str s = replicate (length s) CHR ''x'' @ '':'' @ s"

definition dec_str :: "string \<Rightarrow> (string \<times> string) option" where
  "dec_str s =
     (let n = length (takeWhile (\<lambda>c. c = CHR ''x'') s); r = drop (Suc n) s
      in if n < length s \<and> n \<le> length r then Some (take n r, drop n r) else None)"

definition sample_print :: "json \<Rightarrow> string" where
  "sample_print v =
     (case v of
        JObject m \<Rightarrow> concat (map (\<lambda>(k, x). enc_str k @ enc_str (case as_str x of Some s \<Rightarrow> s | None \<Rightarrow> [])) m)
      | _ \<Rightarrow> [])"

fun dec_members :: "nat \<Rightarrow> string \<Rightarrow> json_object option" where
  "dec_members fuel [] = Some []"
| "dec_members 0 s = None"
| "dec_members (Suc fuel) s =
     (case dec_str s of
        None \<Rightarrow> None
      | Some (k, s1) \<Rightarrow>
          (case dec_str s1 of
             None \<Rightarrow> None
           | Some (v, s2) \<Rightarrow> map_option (\<lambda>m. (k, JString v) # m) (dec_members fuel s2)))"

definition sample_stream :: "string \<Rightarrow> json option" where
  "sample_stream s = map_option JObject (dec_members (length s) s)"

lemma dec_enc_str [simp]: "dec_str (enc_str s @ t) = Some (s, t)"
proof -
  have "takeWhile (\<lambda>c. c = CHR ''x'') (replicate n CHR ''x'' @ CHR '':'' # u) = replicate n CHR ''x''" for n u
    by (induction n) simp_all
  then show ?thesis by (simp add: dec_str_def enc_str_def)
qed

lemma enc_str_Cons: "\<exists>c cs. enc_str s = c # cs"
  by (cases s) (simp_all add: enc_str_def)

lemma dec_members_enc:
  "length m \<le> fuel \<Longrightarrow>
   dec_members fuel (concat (map (\<lambda>(k, v). enc_str k @ enc_str v) m))
     = Some (map (\<lambda>(k, v). (k, JString v)) m)"
proof (induction m arbitrary: fuel)
  case (Cons p m)
  obtain k v where p: "p = (k, v)" by fastforce
  from Cons.prems obtain n where n: "fuel = Suc n" "length m \<le> n" by (cases fuel) auto
  let ?rest = "concat (map (\<lambda>(k, v). enc_str k @ enc_str v) m)"
  obtain c cs where c: "enc_str k @ enc_str v @ ?rest = c # cs" using enc_str_Cons [of k] by auto
  have "dec_members (Suc n) (enc_str k @ enc_str v @ ?rest) =
      map_option (\<lambda>m. (k, JString v) # m) (dec_members n ?rest)"
    unfolding c dec_members.simps(3) unfolding c [symmetric] by simp
  with Cons.IH [OF n(2)] show ?case by (simp add: p n(1))
qed (cases fuel; simp)

lemma sample_roundtrip:
  "sample_stream (sample_print (JObject (map (\<lambda>(k, v). (k, JString v)) m)))
   = Some (JObject (map (\<lambda>(k, v). (k, JString v)) m))"
proof -
  let ?s = "concat (map (\<lambda>(k, v). enc_str k @ enc_str v) m)"
  have eq: "sample_print (JObject (map (\<lambda>(k, v). (k, JString v)) m)) = ?s"
    by (simp add: sample_print_def case_prod_unfold comp_def)
  have "length m \<le> length ?s" by (induction m) (auto simp: enc_str_def)
  then show ?thesis unfolding eq by (simp add: sample_stream_def dec_members_enc)
qed

definition sample_externals :: externals where
  "sample_externals =
     \<lparr>parse_json = (\<lambda>_. None), print_json = (\<lambda>_. ''{}''),
      json_stream = sample_stream, print_json_pretty = sample_print, rfc2822 = (\<lambda>_. None),
      secs_f64 = (\<lambda>s m. map_option (\<lambda>n. from_secs (case m of Mul_60 \<Rightarrow> 60 * n
                  | Mul_3600 \<Rightarrow> 3600 * n | Mul_0_001 \<Rightarrow> n div 1000 | Mul_1 \<Rightarrow> n)) (parse_digits s)),
      min_utc = -8334601228800000000000, max_utc = 8210266876799999999999,
      max_delta = 9223372036854775807000000,
      canonical_reason = (\<lambda>_. None), transport_display = (\<lambda>_. ''transport''),
      show_secs = (\<lambda>d. show_nat (d div 1000000000)),
      sha256 = (\<lambda>s. map (\<lambda>c. of_char c) (take 32 s) @ replicate (32 - length s) 0)\<rparr>"

end
