(* ===== verification/Error_Semantics.thy ===== *)
theory Error_Semantics
  imports Json_Values
begin

text \<open>
  \<open>src/error_semantics.rs\<close> and \<open>src/classifier.rs\<close>: reading the structured error body of an
  upstream answer, classifying the failure and extracting the time to wait before a retry.
\<close>

section \<open>Failure classes\<close>

datatype failure_class =
  AccessTokenRejected | AuthInvalid | RateLimited | QuotaExhausted | RiskControlled
| TemporaryFailure | RequestRejected | InternalFailure

record structured_payload =
  p_code :: "string option"
  p_message :: "string option"
  p_error_type :: "string option"
  p_plan_type :: "string option"
  p_resets_at :: "int option"
  p_resets_in_seconds :: "int option"

definition default_payload :: structured_payload where
  "default_payload =
     \<lparr>p_code = None, p_message = None, p_error_type = None, p_plan_type = None,
      p_resets_at = None, p_resets_in_seconds = None\<rparr>"

record error_semantics =
  es_failure :: failure_class
  es_retry_after :: "duration option"
  es_payload :: structured_payload

record analyze_context =
  ac_status :: status
  ac_headers :: "header_map option"
  ac_body :: "string option"
  ac_code :: "string option"
  ac_message :: "string option"
  ac_error_type :: "string option"
  ac_plan_type :: "string option"
  ac_resets_at :: "int option"
  ac_resets_in_seconds :: "int option"
  ac_retry_after :: "duration option"
  ac_unauthorized_failure :: failure_class
  ac_allow_message_retry_after :: bool

text \<open>\<open>Option::or\<close>.\<close>

fun opt_or :: "'a option \<Rightarrow> 'a option \<Rightarrow> 'a option" where
  "opt_or (Some x) _ = Some x"
| "opt_or None y = y"

section \<open>Reading the body\<close>

definition parse_structured_error_value :: "json \<Rightarrow> structured_payload" where
  "parse_structured_error_value v =
     \<lparr>p_code = jget_str v ''code'', p_message = jget_str v ''message'',
      p_error_type = jget_str v ''type'', p_plan_type = jget_str v ''plan_type'',
      p_resets_at = jget_i64 v ''resets_at'',
      p_resets_in_seconds = jget_i64 v ''resets_in_seconds''\<rparr>"

definition parse_structured_error_body :: "externals \<Rightarrow> string option \<Rightarrow> structured_payload" where
  "parse_structured_error_body E body =
     (case body of
        None \<Rightarrow> default_payload
      | Some b \<Rightarrow>
          (case parse_json E b of
             None \<Rightarrow> default_payload
           | Some j \<Rightarrow>
               parse_structured_error_value
                 (case jget j ''error'' of Some e \<Rightarrow> e | None \<Rightarrow> j)))"

section \<open>Classification\<close>

definition classify_structured_error :: "string option \<Rightarrow> string option \<Rightarrow> failure_class option" where
  "classify_structured_error code error_type =
     (if error_type = Some ''usage_limit_reached'' then Some QuotaExhausted
      else if error_type = Some ''usage_not_included'' then Some RequestRejected
      else if code = Some ''rate_limit_exceeded'' then Some RateLimited
      else if code = Some ''insufficient_quota'' then Some QuotaExhausted
      else if code = Some ''websocket_connection_limit_reached'' then Some TemporaryFailure
      else if code = Some ''server_is_overloaded'' \<or> code = Some ''slow_down''
        then Some TemporaryFailure
      else if code = Some ''invalid_prompt'' \<or> code = Some ''context_length_exceeded''
        then Some RequestRejected
      else None)"

definition classify_http_from_status_and_text :: "status \<Rightarrow> string option \<Rightarrow> failure_class" where
  "classify_http_from_status_and_text status body =
     (let b = to_ascii_lowercase (case body of Some t \<Rightarrow> t | None \<Rightarrow> [])
      in if status = 403 \<and>
            (str_contains b ''unusual activity'' \<or> str_contains b ''arkose'' \<or>
             str_contains b ''turnstile'') then RiskControlled
         else if status = 429 \<or> str_contains b ''rate limit'' then RateLimited
         else if str_contains b ''quota'' \<or> str_contains b ''credits'' \<or>
                 str_contains b ''usage cap'' \<or> str_contains b ''limit reached''
           then QuotaExhausted
         else if status = 403 then TemporaryFailure
         else if is_server_error status then TemporaryFailure
         else RequestRejected)"

definition classify_error ::
  "status \<Rightarrow> string option \<Rightarrow> string option \<Rightarrow> string option \<Rightarrow> failure_class \<Rightarrow> failure_class" where
  "classify_error status code error_type fallback_text unauthorized_failure =
     (if status = 401 then unauthorized_failure
      else case classify_structured_error code error_type of
             Some f \<Rightarrow> f
           | None \<Rightarrow> classify_http_from_status_and_text status fallback_text)"

section \<open>Retry-after\<close>

definition parse_retry_after_str :: "externals \<Rightarrow> time \<Rightarrow> string \<Rightarrow> duration option" where
  "parse_retry_after_str E now v =
     (case parse_u64 v of
        Some seconds \<Rightarrow> Some (from_secs seconds)
      | None \<Rightarrow>
          (case rfc2822 E v of
             None \<Rightarrow> None
           | Some t \<Rightarrow> let delta = t - now in if 0 \<le> delta then Some (nat delta) else None))"

definition parse_retry_after_header :: "externals \<Rightarrow> time \<Rightarrow> header_map option \<Rightarrow> duration option" where
  "parse_retry_after_header E now headers =
     (case headers of
        None \<Rightarrow> None
      | Some h \<Rightarrow>
          (case hdr_get_str h ''retry-after'' of
             None \<Rightarrow> None
           | Some v \<Rightarrow> parse_retry_after_str E now (str_trim v)))"

definition parse_resets_retry_after_payload :: "time \<Rightarrow> structured_payload \<Rightarrow> duration option" where
  "parse_resets_retry_after_payload now p =
     (case p_resets_at p of
        Some resets_at \<Rightarrow>
          (if resets_at > time_secs now then Some (from_secs (nat (resets_at - time_secs now)))
           else case p_resets_in_seconds p of
                  Some s \<Rightarrow> if s > 0 then Some (from_secs (nat s)) else None
                | None \<Rightarrow> None)
      | None \<Rightarrow>
          (case p_resets_in_seconds p of
             Some s \<Rightarrow> if s > 0 then Some (from_secs (nat s)) else None
           | None \<Rightarrow> None))"

definition parse_retry_after_message :: "externals \<Rightarrow> string \<Rightarrow> duration option" where
  "parse_retry_after_message E message =
     (let lowered = to_ascii_lowercase message; marker = ''try again in''
      in case str_find lowered marker of
           None \<Rightarrow> None
         | Some i \<Rightarrow>
             (let rest = trim_start (drop (i + length marker) lowered);
                  val = takeWhile (\<lambda>c. is_ascii_digit c \<or> c = CHR ''.'') rest;
                  unit = trim_start (dropWhile (\<lambda>c. is_ascii_digit c \<or> c = CHR ''.'') rest)
              in if val = [] then None
                 else secs_f64 E val
                   (if starts_with unit ''millisecond'' \<or> starts_with unit ''msec'' \<or>
                       starts_with unit ''ms'' then Mul_0_001
                    else if starts_with unit ''m'' then Mul_60
                    else if starts_with unit ''h'' then Mul_3600
                    else Mul_1)))"

section \<open>Analysis\<close>

definition analyze_error :: "externals \<Rightarrow> time \<Rightarrow> analyze_context \<Rightarrow> error_semantics" where
  "analyze_error E now ctx =
     (let p0 = parse_structured_error_body E (ac_body ctx);
          payload = \<lparr>p_code = opt_or (ac_code ctx) (p_code p0),
                     p_message = opt_or (ac_message ctx) (p_message p0),
                     p_error_type = opt_or (ac_error_type ctx) (p_error_type p0),
                     p_plan_type = opt_or (ac_plan_type ctx) (p_plan_type p0),
                     p_resets_at = opt_or (ac_resets_at ctx) (p_resets_at p0),
                     p_resets_in_seconds =
                       opt_or (ac_resets_in_seconds ctx) (p_resets_in_seconds p0)\<rparr>;
          fallback_text = opt_or (ac_body ctx) (p_message payload);
          failure = classify_error (ac_status ctx) (p_code payload) (p_error_type payload)
                      fallback_text (ac_unauthorized_failure ctx);
          retry_after =
            opt_or (ac_retry_after ctx)
              (opt_or (parse_retry_after_header E now (ac_headers ctx))
                (opt_or (parse_resets_retry_after_payload now payload)
                  (if ac_allow_message_retry_after ctx
                   then Option.bind (opt_or (p_message payload) (ac_body ctx))
                          (parse_retry_after_message E)
                   else None)))
      in \<lparr>es_failure = failure, es_retry_after = retry_after, es_payload = payload\<rparr>)"

definition http_context ::
  "status \<Rightarrow> header_map option \<Rightarrow> string option \<Rightarrow> failure_class \<Rightarrow> analyze_context" where
  "http_context status headers body unauthorized =
     \<lparr>ac_status = status, ac_headers = headers, ac_body = body, ac_code = None, ac_message = None,
      ac_error_type = None, ac_plan_type = None, ac_resets_at = None,
      ac_resets_in_seconds = None, ac_retry_after = None,
      ac_unauthorized_failure = unauthorized, ac_allow_message_retry_after = True\<rparr>"

definition analyze_request_http ::
  "externals \<Rightarrow> time \<Rightarrow> status \<Rightarrow> header_map option \<Rightarrow> string option \<Rightarrow> error_semantics" where
  "analyze_request_http E now status headers body =
     analyze_error E now (http_context status headers body AccessTokenRejected)"

definition refresh_body_indicates_invalid_token :: "string \<Rightarrow> bool" where
  "refresh_body_indicates_invalid_token body =
     (let lowered = to_ascii_lowercase body
      in str_contains lowered ''refresh_token_expired'' \<or>
         str_contains lowered ''invalid refresh token'' \<or>
         str_contains lowered ''could not validate your refresh token'' \<or>
         str_contains lowered ''\"invalid_grant\"'')"

definition analyze_refresh_http ::
  "externals \<Rightarrow> time \<Rightarrow> status \<Rightarrow> header_map option \<Rightarrow> string option \<Rightarrow> error_semantics" where
  "analyze_refresh_http E now status headers body =
     (let semantics = analyze_error E now (http_context status headers body AuthInvalid)
      in if es_failure semantics = RequestRejected \<and>
            (case body of Some b \<Rightarrow> refresh_body_indicates_invalid_token b | None \<Rightarrow> False)
         then semantics\<lparr>es_failure := AuthInvalid\<rparr> else semantics)"

section \<open>The request classifier\<close>

text \<open>The class does not depend on the clock; the retry time of the analysis is dropped.\<close>

definition classify_request_http :: "externals \<Rightarrow> status \<Rightarrow> string option \<Rightarrow> failure_class" where
  "classify_request_http E status body = es_failure (analyze_request_http E 0 status None body)"

fun classify_request_error :: "externals \<Rightarrow> transport_error \<Rightarrow> failure_class" where
  "classify_request_error E (Http status _ _ body) = classify_request_http E status body"
| "classify_request_error E (Build _) = InternalFailure"
| "classify_request_error E _ = TemporaryFailure"

section \<open>Facts\<close>

lemma es_failure_analyze:
  "es_failure (analyze_error E now ctx) =
     classify_error (ac_status ctx)
       (opt_or (ac_code ctx) (p_code (parse_structured_error_body E (ac_body ctx))))
       (opt_or (ac_error_type ctx) (p_error_type (parse_structured_error_body E (ac_body ctx))))
       (opt_or (ac_body ctx)
         (opt_or (ac_message ctx) (p_message (parse_structured_error_body E (ac_body ctx)))))
       (ac_unauthorized_failure ctx)"
  by (simp add: analyze_error_def Let_def)

lemma classify_structured_range:
  "classify_structured_error code ty = Some f \<Longrightarrow>
     f \<in> {QuotaExhausted, RequestRejected, RateLimited, TemporaryFailure}"
  unfolding classify_structured_error_def by (simp split: if_split_asm)

lemma classify_http_range:
  "classify_http_from_status_and_text status body \<in>
     {RiskControlled, RateLimited, QuotaExhausted, TemporaryFailure, RequestRejected}"
  unfolding classify_http_from_status_and_text_def Let_def by (simp split: if_split)

lemma classify_error_range:
  "status \<noteq> 401 \<Longrightarrow> classify_error status code ty tx u \<in>
     {RiskControlled, RateLimited, QuotaExhausted, TemporaryFailure, RequestRejected}"
  using classify_http_range [of status tx] classify_structured_range [of code ty]
  by (cases "classify_structured_error code ty") (auto simp: classify_error_def)

lemma classify_error_401: "classify_error 401 code ty tx u = u"
  by (simp add: classify_error_def)

lemma classify_request_http_range:
  "classify_request_http E status body \<in>
     {AccessTokenRejected, RiskControlled, RateLimited, QuotaExhausted, TemporaryFailure,
      RequestRejected}"
  unfolding classify_request_http_def analyze_request_http_def es_failure_analyze
  by (cases "status = 401") (use classify_error_range in \<open>auto simp: classify_error_401 http_context_def\<close>)

lemma classify_request_error_range:
  "classify_request_error E e \<noteq> AuthInvalid"
proof (cases e)
  case (Http status url headers body)
  then show ?thesis using classify_request_http_range [of E status body] by auto
qed simp_all

lemma es_failure_refresh:
  "es_failure (analyze_refresh_http E now status headers body) =
     (if status = 401 then AuthInvalid
      else let f = es_failure (analyze_request_http E now status headers body)
           in if f = RequestRejected \<and>
                 (case body of Some b \<Rightarrow> refresh_body_indicates_invalid_token b | None \<Rightarrow> False)
              then AuthInvalid else f)"
proof (cases "status = 401")
  case True
  then show ?thesis
    by (simp add: analyze_refresh_http_def es_failure_analyze http_context_def classify_error_401)
next
  case False
  then have "es_failure (analyze_error E now (http_context status headers body AuthInvalid)) =
      es_failure (analyze_request_http E now status headers body)"
    by (simp add: analyze_request_http_def es_failure_analyze http_context_def classify_error_def)
  with False show ?thesis by (simp add: analyze_refresh_http_def Let_def)
qed

lemma to_ascii_lowercase_idem [simp]: "to_ascii_lowercase (to_ascii_lowercase s) = to_ascii_lowercase s"
  by (auto simp: to_ascii_lowercase_def ascii_lower_char_def Let_def)

section \<open>Properties\<close>

text \<open>
  Only the refresh endpoint can declare an account invalid. Classifying the failure of an
  ordinary upstream request never gives \<open>AuthInvalid\<close> (the class that sends the account file to the
  trash), whatever the transport error, status and body are.
\<close>

theorem request_error_never_auth_invalid:
  "classify_request_error E e \<noteq> AuthInvalid \<and>
   es_failure (analyze_request_http E now status headers body) \<noteq> AuthInvalid \<and>
   es_failure (analyze_request_http E now status headers body) = classify_request_http E status body"
  using classify_request_error_range [of E e] classify_request_http_range [of E status body]
  by (auto simp: classify_request_http_def analyze_request_http_def es_failure_analyze http_context_def)

text \<open>
  A failed token refresh invalidates the account exactly when the answer is 401, or when it would
  be classified as a rejected request and its body names an invalid, expired or revoked refresh
  token. In particular a structured rate limit, quota or overload code in the body always wins over
  a body that mentions the refresh token.
\<close>

theorem refresh_auth_invalid_iff:
  "es_failure (analyze_refresh_http E now status headers body) = AuthInvalid \<longleftrightarrow>
     status = 401 \<or>
     classify_request_http E status body = RequestRejected \<and>
       (\<exists>b. body = Some b \<and> refresh_body_indicates_invalid_token b)"
proof -
  have same: "es_failure (analyze_request_http E now status headers body) =
      classify_request_http E status body"
    by (simp add: classify_request_http_def analyze_request_http_def es_failure_analyze http_context_def)
  show ?thesis
    using classify_request_http_range [of E status body]
    unfolding es_failure_refresh same Let_def
    by (auto split: option.splits)
qed

text \<open>
  A numeric \<open>retry-after\<close> header decides the wait: if no explicit value was given, the number of
  seconds it carries is the answer, whatever the body, its reset fields and its message say.
\<close>

theorem retry_after_header_wins:
  assumes "ac_retry_after ctx = None" "ac_headers ctx = Some h"
    and "hdr_get h ''retry-after'' = Some (show_nat n)" "n < 2 ^ 64"
  shows "es_retry_after (analyze_error E now ctx) = Some (from_secs n)"
proof -
  have digit: "32 \<le> (of_char c :: nat) \<and> (of_char c :: nat) < 127 \<and> is_graphic c"
    if "c \<in> set (show_nat n)" for c
    using show_nat_digits [of n] that
    by (auto simp: list_all_iff is_ascii_digit_def is_graphic_def Let_def)
  have str: "hv_to_str (show_nat n) = Some (show_nat n)"
    unfolding hv_to_str_def Let_def using digit by (auto simp: list_all_iff)
  have trim: "str_trim (show_nat n) = show_nat n"
    using digit [of "hd (show_nat n)"] digit [of "last (show_nat n)"]
    by (intro str_trim_graphic) simp
  have "parse_retry_after_header E now (ac_headers ctx) = Some (from_secs n)"
    using assms(2,3) str trim parse_u64_show_nat [OF assms(4)]
    by (simp add: parse_retry_after_header_def hdr_get_str_def parse_retry_after_str_def)
  then show ?thesis
    by (simp add: analyze_error_def assms(1) Let_def)
qed

theorem retry_after_header_wins_witness:
  "es_retry_after (analyze_error sample_externals 0
     (http_context 429 (Some [(''retry-after'', ''11'')]) (Some ''try again in 77'') AuthInvalid))
   = Some 11000000000"
proof -
  have eleven: "show_nat 11 = ''11''"
    by code_simp
  show ?thesis
    using retry_after_header_wins
      [of "http_context 429 (Some [(''retry-after'', ''11'')]) (Some ''try again in 77'') AuthInvalid"
          "[(''retry-after'', ''11'')]" 11 sample_externals 0]
    by (simp add: http_context_def hdr_get_def eleven from_secs_def)
qed

end
