(* ===== verification/Gateway_Config.thy ===== *)
theory Gateway_Config
  imports Codaze_Base
begin

text \<open>
  \<open>src/config.rs\<close>: the routing policies and fingerprint modes with their textual form, the
  command-line loop of \<open>from_args_with_home_env\<close> and the default accounts directory. A path is a
  value of the platform's path type \<open>'p\<close>; \<open>PathBuf::from\<close> and \<open>Path::join\<close> are the parameters
  \<open>path_of\<close> and \<open>join\<close>.
\<close>

section \<open>Policies and modes\<close>

datatype routing_policy = RoundRobin | LeastInFlight | FillFirst

definition routing_policy_parse :: "string \<Rightarrow> string + routing_policy" where
  "routing_policy_parse raw =
     (if raw = ''round_robin'' then Inr RoundRobin
      else if raw = ''least_in_flight'' then Inr LeastInFlight
      else if raw = ''fill_first'' then Inr FillFirst
      else Inl (''unsupported routing policy `'' @ raw @
                ''`; expected one of: round_robin, least_in_flight, fill_first''))"

fun routing_policy_as_str :: "routing_policy \<Rightarrow> string" where
  "routing_policy_as_str RoundRobin = ''round_robin''"
| "routing_policy_as_str LeastInFlight = ''least_in_flight''"
| "routing_policy_as_str FillFirst = ''fill_first''"

datatype fingerprint_mode = Normalize | Passthrough

definition fingerprint_mode_parse :: "string \<Rightarrow> string + fingerprint_mode" where
  "fingerprint_mode_parse raw =
     (if raw = ''normalize'' then Inr Normalize
      else if raw = ''passthrough'' then Inr Passthrough
      else Inl (''unsupported fingerprint mode `'' @ raw @
                ''`; expected one of: normalize, passthrough''))"

fun fingerprint_mode_as_str :: "fingerprint_mode \<Rightarrow> string" where
  "fingerprint_mode_as_str Normalize = ''normalize''"
| "fingerprint_mode_as_str Passthrough = ''passthrough''"

section \<open>Runtime configuration\<close>

record 'p runtime_config =
  listen :: string
  admin_listen :: string
  cfg_accounts_dir :: 'p
  routing_policy :: routing_policy
  fingerprint_mode :: fingerprint_mode
  upstream_base_url :: string
  codex_version :: string
  request_timeout_seconds :: nat
  refresh_skew_seconds :: int
  accounts_scan_interval_seconds :: nat
  shutdown_grace_period_seconds :: nat

definition DEFAULT_LISTEN :: string where "DEFAULT_LISTEN = ''127.0.0.1:18039''"
definition DEFAULT_ADMIN_LISTEN :: string where "DEFAULT_ADMIN_LISTEN = ''127.0.0.1:18040''"
definition DEFAULT_UPSTREAM_BASE_URL :: string where
  "DEFAULT_UPSTREAM_BASE_URL = ''https://chatgpt.com/backend-api/codex''"
definition DEFAULT_REQUEST_TIMEOUT_SECONDS :: nat where "DEFAULT_REQUEST_TIMEOUT_SECONDS = 600"
definition DEFAULT_REFRESH_SKEW_SECONDS :: int where "DEFAULT_REFRESH_SKEW_SECONDS = 8"
definition DEFAULT_ACCOUNTS_SCAN_INTERVAL_SECONDS :: nat where
  "DEFAULT_ACCOUNTS_SCAN_INTERVAL_SECONDS = 15"
definition DEFAULT_CODEX_VERSION :: string where "DEFAULT_CODEX_VERSION = ''0.121.0''"
definition DEFAULT_SHUTDOWN_GRACE_PERIOD_SECONDS :: nat where
  "DEFAULT_SHUTDOWN_GRACE_PERIOD_SECONDS = 10"
definition DEFAULT_ACCOUNTS_DIR_NAME :: string where "DEFAULT_ACCOUNTS_DIR_NAME = ''.codaze''"

lemmas config_defaults =
  DEFAULT_LISTEN_def DEFAULT_ADMIN_LISTEN_def DEFAULT_UPSTREAM_BASE_URL_def
  DEFAULT_REQUEST_TIMEOUT_SECONDS_def DEFAULT_REFRESH_SKEW_SECONDS_def
  DEFAULT_ACCOUNTS_SCAN_INTERVAL_SECONDS_def DEFAULT_CODEX_VERSION_def
  DEFAULT_SHUTDOWN_GRACE_PERIOD_SECONDS_def DEFAULT_ACCOUNTS_DIR_NAME_def

text \<open>The environment variables that decide the home directory.\<close>

record home_env =
  env_home :: "string option"
  env_userprofile :: "string option"
  env_homedrive :: "string option"
  env_homepath :: "string option"

definition non_empty_os_string :: "string option \<Rightarrow> string option" where
  "non_empty_os_string v = (case v of Some s \<Rightarrow> if s \<noteq> [] then Some s else None | None \<Rightarrow> None)"

definition windows_home_dir :: "(string \<Rightarrow> 'p) \<Rightarrow> home_env \<Rightarrow> 'p option" where
  "windows_home_dir path_of env =
     (case non_empty_os_string (env_userprofile env) of
        Some u \<Rightarrow> Some (path_of u)
      | None \<Rightarrow>
          (case non_empty_os_string (env_homedrive env) of
             None \<Rightarrow> None
           | Some drive \<Rightarrow>
               (case non_empty_os_string (env_homepath env) of
                  None \<Rightarrow> None
                | Some hpath \<Rightarrow> Some (path_of (drive @ hpath)))))"

definition default_accounts_dir_with_env ::
  "(string \<Rightarrow> 'p) \<Rightarrow> ('p \<Rightarrow> string \<Rightarrow> 'p) \<Rightarrow> bool \<Rightarrow> home_env \<Rightarrow> string + 'p" where
  "default_accounts_dir_with_env path_of join is_windows env =
     (if is_windows
      then (case windows_home_dir path_of env of
              None \<Rightarrow> Inl (''USERPROFILE/HOMEDRIVE/HOMEPATH are not set or are empty and '' @
                           ''--accounts-dir was not provided'')
            | Some d \<Rightarrow> Inr (join d DEFAULT_ACCOUNTS_DIR_NAME))
      else (case non_empty_os_string (env_home env) of
              None \<Rightarrow> Inl ''HOME is not set or empty and --accounts-dir was not provided''
            | Some h \<Rightarrow> Inr (join (path_of h) DEFAULT_ACCOUNTS_DIR_NAME)))"

definition default_accounts_dir_help_text ::
  "(string \<Rightarrow> 'p) \<Rightarrow> ('p \<Rightarrow> string \<Rightarrow> 'p) \<Rightarrow> ('p \<Rightarrow> string) \<Rightarrow> bool \<Rightarrow> home_env \<Rightarrow> string" where
  "default_accounts_dir_help_text path_of join display is_windows env =
     (case default_accounts_dir_with_env path_of join is_windows env of
        Inr p \<Rightarrow> display p
      | Inl _ \<Rightarrow> DEFAULT_ACCOUNTS_DIR_NAME @
                 '' under the platform home dir (or pass --accounts-dir)'')"

section \<open>The command line\<close>

text \<open>
  The variables of the argument loop. The loop ends in an error, in a process exit (\<open>--help\<close>
  prints the usage text and exits), or with the variables' final values.
\<close>

record 'p arg_state =
  a_listen :: string
  a_admin_listen :: string
  a_accounts_dir :: "'p option"
  a_routing_policy :: routing_policy
  a_fingerprint_mode :: fingerprint_mode
  a_codex_version :: string
  a_grace :: nat

datatype 'a args_result = Parsed 'a | Rejected string | Exited

definition init_args :: "'p arg_state" where
  "init_args =
     \<lparr>a_listen = DEFAULT_LISTEN, a_admin_listen = DEFAULT_ADMIN_LISTEN, a_accounts_dir = None,
      a_routing_policy = LeastInFlight, a_fingerprint_mode = Normalize,
      a_codex_version = DEFAULT_CODEX_VERSION, a_grace = DEFAULT_SHUTDOWN_GRACE_PERIOD_SECONDS\<rparr>"

fun parse_args :: "(string \<Rightarrow> 'p) \<Rightarrow> 'p arg_state \<Rightarrow> string list \<Rightarrow> 'p arg_state args_result" where
  "parse_args path_of st [] = Parsed st"
| "parse_args path_of st (arg # rest) =
     (if arg = ''--listen'' then
        (case rest of [] \<Rightarrow> Rejected ''missing value after --listen''
         | value # rest' \<Rightarrow> parse_args path_of (st\<lparr>a_listen := value\<rparr>) rest')
      else if arg = ''--admin-listen'' then
        (case rest of [] \<Rightarrow> Rejected ''missing value after --admin-listen''
         | value # rest' \<Rightarrow> parse_args path_of (st\<lparr>a_admin_listen := value\<rparr>) rest')
      else if arg = ''--accounts-dir'' then
        (case rest of [] \<Rightarrow> Rejected ''missing value after --accounts-dir''
         | value # rest' \<Rightarrow> parse_args path_of (st\<lparr>a_accounts_dir := Some (path_of value)\<rparr>) rest')
      else if arg = ''--routing-policy'' then
        (case rest of [] \<Rightarrow> Rejected ''missing value after --routing-policy''
         | value # rest' \<Rightarrow>
             (case routing_policy_parse value of
                Inl e \<Rightarrow> Rejected e
              | Inr p \<Rightarrow> parse_args path_of (st\<lparr>a_routing_policy := p\<rparr>) rest'))
      else if arg = ''--fingerprint-mode'' then
        (case rest of [] \<Rightarrow> Rejected ''missing value after --fingerprint-mode''
         | value # rest' \<Rightarrow>
             (case fingerprint_mode_parse value of
                Inl e \<Rightarrow> Rejected e
              | Inr m \<Rightarrow> parse_args path_of (st\<lparr>a_fingerprint_mode := m\<rparr>) rest'))
      else if arg = ''--codex-version'' then
        (case rest of [] \<Rightarrow> Rejected ''missing value after --codex-version''
         | value # rest' \<Rightarrow> parse_args path_of (st\<lparr>a_codex_version := value\<rparr>) rest')
      else if arg = ''--shutdown-grace-period-seconds'' then
        (case rest of [] \<Rightarrow> Rejected ''missing value after --shutdown-grace-period-seconds''
         | value # rest' \<Rightarrow>
             (case parse_u64 value of
                None \<Rightarrow> Rejected (''invalid value for --shutdown-grace-period-seconds: `'' @
                                  value @ ''`'')
              | Some n \<Rightarrow> parse_args path_of (st\<lparr>a_grace := n\<rparr>) rest'))
      else if arg = ''--help'' \<or> arg = ''-h'' then Exited
      else Rejected (''unknown argument `'' @ arg @ ''`''))"

declare parse_args.simps [simp del]

definition from_args_with_home_env ::
  "(string \<Rightarrow> 'p) \<Rightarrow> ('p \<Rightarrow> string \<Rightarrow> 'p) \<Rightarrow> string list \<Rightarrow> bool \<Rightarrow> home_env
   \<Rightarrow> 'p runtime_config args_result" where
  "from_args_with_home_env path_of join args is_windows env =
     (case parse_args path_of init_args args of
        Rejected e \<Rightarrow> Rejected e
      | Exited \<Rightarrow> Exited
      | Parsed st \<Rightarrow>
          (if str_trim (a_codex_version st) = [] then Rejected ''--codex-version must not be empty''
           else if a_listen st = a_admin_listen st
           then Rejected ''--listen and --admin-listen must be different addresses''
           else
             (case (case a_accounts_dir st of
                      Some p \<Rightarrow> Inr p
                    | None \<Rightarrow> default_accounts_dir_with_env path_of join is_windows env) of
                Inl e \<Rightarrow> Rejected e
              | Inr dir \<Rightarrow>
                  Parsed \<lparr>listen = a_listen st, admin_listen = a_admin_listen st,
                          cfg_accounts_dir = dir, routing_policy = a_routing_policy st,
                          fingerprint_mode = a_fingerprint_mode st,
                          upstream_base_url = DEFAULT_UPSTREAM_BASE_URL,
                          codex_version = a_codex_version st,
                          request_timeout_seconds = DEFAULT_REQUEST_TIMEOUT_SECONDS,
                          refresh_skew_seconds = DEFAULT_REFRESH_SKEW_SECONDS,
                          accounts_scan_interval_seconds = DEFAULT_ACCOUNTS_SCAN_INTERVAL_SECONDS,
                          shutdown_grace_period_seconds = a_grace st\<rparr>)))"

text \<open>
  The program's own arguments come after its name; the platform is a unix one. \<open>display\<close> prints a path.
\<close>

definition current_home_platform_is_windows :: bool where
  "current_home_platform_is_windows = False"

definition from_args ::
  "(string \<Rightarrow> 'p) \<Rightarrow> ('p \<Rightarrow> string \<Rightarrow> 'p) \<Rightarrow> string list \<Rightarrow> home_env \<Rightarrow> 'p runtime_config args_result" where
  "from_args path_of join argv env =
     from_args_with_home_env path_of join (drop 1 argv) current_home_platform_is_windows env"

definition usage_lines ::
  "(string \<Rightarrow> 'p) \<Rightarrow> ('p \<Rightarrow> string \<Rightarrow> 'p) \<Rightarrow> ('p \<Rightarrow> string) \<Rightarrow> home_env \<Rightarrow> string list" where
  "usage_lines path_of join display env =
     [''Usage: codaze [--accounts-dir DIR] [--codex-version VERSION] [--listen HOST:PORT] '' @
        ''[--admin-listen HOST:PORT] [--routing-policy POLICY] [--fingerprint-mode MODE] '' @
        ''[--shutdown-grace-period-seconds N]'',
      ''Defaults:'',
      ''  accounts-dir: '' @
        default_accounts_dir_help_text path_of join display current_home_platform_is_windows env,
      ''  codex-version: '' @ DEFAULT_CODEX_VERSION,
      ''  listen: '' @ DEFAULT_LISTEN,
      ''  admin-listen: '' @ DEFAULT_ADMIN_LISTEN,
      ''  shutdown-grace-period-seconds: '' @ show_nat DEFAULT_SHUTDOWN_GRACE_PERIOD_SECONDS,
      ''Policies: round_robin | least_in_flight | fill_first'',
      ''Fingerprint modes: normalize | passthrough'']"

text \<open>
  \<open>ensure_loopback_listener\<close>: the address is an IPv4 address with four octets or an IPv6 address
  with eight segments, and \<open>is_loopback\<close> is 127.0.0.0/8 for the first and ::1 for the second.
\<close>

datatype ip_addr = V4 "8 word" "8 word" "8 word" "8 word" | V6 "16 word list"

fun is_loopback :: "ip_addr \<Rightarrow> bool" where
  "is_loopback (V4 a b c d) = (a = 127)"
| "is_loopback (V6 segs) = (segs = [0, 0, 0, 0, 0, 0, 0, 1])"

definition ensure_loopback_listener :: "(ip_addr \<Rightarrow> string) \<Rightarrow> ip_addr \<Rightarrow> string + unit" where
  "ensure_loopback_listener display addr =
     (if is_loopback addr then Inr ()
      else Inl (''codaze is local-only; bind to 127.0.0.1 or ::1, got `'' @ display addr @ ''`''))"

section \<open>Facts\<close>

lemma routing_policy_roundtrip [simp]:
  "routing_policy_parse (routing_policy_as_str p) = Inr p"
  by (cases p) (simp_all add: routing_policy_parse_def)

lemma fingerprint_mode_roundtrip [simp]:
  "fingerprint_mode_parse (fingerprint_mode_as_str m) = Inr m"
  by (cases m) (simp_all add: fingerprint_mode_parse_def)

lemma routing_policy_parse_Inr:
  "routing_policy_parse raw = Inr p \<longleftrightarrow> raw = routing_policy_as_str p"
  by (cases p) (auto simp: routing_policy_parse_def)

lemma fingerprint_mode_parse_Inr:
  "fingerprint_mode_parse raw = Inr m \<longleftrightarrow> raw = fingerprint_mode_as_str m"
  by (cases m) (auto simp: fingerprint_mode_parse_def)

text \<open>The flags the loop knows, and how an argument list that it accepts looks like.\<close>

definition value_flags :: "string list" where
  "value_flags = [''--listen'', ''--admin-listen'', ''--accounts-dir'', ''--routing-policy'',
     ''--fingerprint-mode'', ''--codex-version'', ''--shutdown-grace-period-seconds'']"

fun well_formed_args :: "string list \<Rightarrow> bool" where
  "well_formed_args [] = True"
| "well_formed_args [arg] = False"
| "well_formed_args (arg # value # rest) =
     (arg \<in> set value_flags \<and>
      (arg = ''--routing-policy'' \<longrightarrow> (\<exists>p. value = routing_policy_as_str p)) \<and>
      (arg = ''--fingerprint-mode'' \<longrightarrow> (\<exists>m. value = fingerprint_mode_as_str m)) \<and>
      (arg = ''--shutdown-grace-period-seconds'' \<longrightarrow> parse_u64 value \<noteq> None) \<and>
      well_formed_args rest)"

lemma parse_args_flags:
  "parse_args path_of st [] = Parsed st"
  "parse_args path_of st (''--listen'' # value # rest) =
     parse_args path_of (st\<lparr>a_listen := value\<rparr>) rest"
  "parse_args path_of st (''--admin-listen'' # value # rest) =
     parse_args path_of (st\<lparr>a_admin_listen := value\<rparr>) rest"
  "parse_args path_of st (''--accounts-dir'' # value # rest) =
     parse_args path_of (st\<lparr>a_accounts_dir := Some (path_of value)\<rparr>) rest"
  "parse_args path_of st (''--routing-policy'' # value # rest) =
     (case routing_policy_parse value of Inl e \<Rightarrow> Rejected e
      | Inr p \<Rightarrow> parse_args path_of (st\<lparr>a_routing_policy := p\<rparr>) rest)"
  "parse_args path_of st (''--fingerprint-mode'' # value # rest) =
     (case fingerprint_mode_parse value of Inl e \<Rightarrow> Rejected e
      | Inr m \<Rightarrow> parse_args path_of (st\<lparr>a_fingerprint_mode := m\<rparr>) rest)"
  "parse_args path_of st (''--codex-version'' # value # rest) =
     parse_args path_of (st\<lparr>a_codex_version := value\<rparr>) rest"
  "parse_args path_of st (''--shutdown-grace-period-seconds'' # value # rest) =
     (case parse_u64 value of
        None \<Rightarrow> Rejected (''invalid value for --shutdown-grace-period-seconds: `'' @ value @ ''`'')
      | Some n \<Rightarrow> parse_args path_of (st\<lparr>a_grace := n\<rparr>) rest)"
  by (simp_all add: parse_args.simps(1) parse_args.simps(2) [of path_of st])

lemma parse_args_other:
  assumes "arg \<notin> set value_flags"
  shows "parse_args path_of st (arg # rest) \<noteq> Parsed st'"
proof -
  have "arg \<noteq> ''--listen''" "arg \<noteq> ''--admin-listen''" "arg \<noteq> ''--accounts-dir''"
    "arg \<noteq> ''--routing-policy''" "arg \<noteq> ''--fingerprint-mode''" "arg \<noteq> ''--codex-version''"
    "arg \<noteq> ''--shutdown-grace-period-seconds''"
    using assms unfolding value_flags_def by auto
  then show ?thesis
    by (simp only: parse_args.simps(2) if_False) simp
qed

lemma parse_args_lonely: "parse_args path_of st [arg] \<noteq> Parsed st'"
  by (simp only: parse_args.simps(2) list.case) simp

lemma routing_policy_parse_case:
  "(\<exists>x. (case routing_policy_parse v of Inl e \<Rightarrow> Rejected e | Inr p \<Rightarrow> f p) = Parsed x) \<longleftrightarrow>
   (\<exists>p. v = routing_policy_as_str p \<and> (\<exists>x. f p = Parsed x))"
  by (cases "routing_policy_parse v") (use routing_policy_parse_Inr [of v] in \<open>force+\<close>)

lemma fingerprint_mode_parse_case:
  "(\<exists>x. (case fingerprint_mode_parse v of Inl e \<Rightarrow> Rejected e | Inr p \<Rightarrow> f p) = Parsed x) \<longleftrightarrow>
   (\<exists>p. v = fingerprint_mode_as_str p \<and> (\<exists>x. f p = Parsed x))"
  by (cases "fingerprint_mode_parse v") (use fingerprint_mode_parse_Inr [of v] in \<open>force+\<close>)

lemma parse_u64_case:
  "(\<exists>x. (case parse_u64 v of None \<Rightarrow> Rejected e | Some p \<Rightarrow> f p) = Parsed x) \<longleftrightarrow>
   (\<exists>p. parse_u64 v = Some p \<and> (\<exists>x. f p = Parsed x))"
  by (auto split: option.splits)

lemma parse_args_accepts:
  "(\<exists>st'. parse_args path_of st args = Parsed st') \<longleftrightarrow> well_formed_args args"
proof (induction args arbitrary: st rule: well_formed_args.induct)
  case 1
  then show ?case by (simp add: parse_args_flags)
next
  case (2 arg)
  then show ?case by (simp add: parse_args_lonely)
next
  case (3 arg v rest)
  show ?case
  proof (cases "arg \<in> set value_flags")
    case True
    then have "arg = ''--listen'' \<or> arg = ''--admin-listen'' \<or> arg = ''--accounts-dir''
      \<or> arg = ''--routing-policy'' \<or> arg = ''--fingerprint-mode'' \<or> arg = ''--codex-version''
      \<or> arg = ''--shutdown-grace-period-seconds''"
      by (simp only: value_flags_def list.set insert_iff empty_iff simp_thms)
    then show ?thesis
      by (elim disjE)
        (simp only: parse_args_flags routing_policy_parse_case fingerprint_mode_parse_case
            parse_u64_case, simp only: well_formed_args.simps value_flags_def 3, simp)+
  next
    case False
    then show ?thesis by (simp add: parse_args_other)
  qed
qed

lemma from_args_accepts_parsed:
  "(\<exists>cfg. from_args_with_home_env path_of join args is_windows env = Parsed cfg) \<longleftrightarrow>
     (\<exists>st. parse_args path_of init_args args = Parsed st \<and>
        str_trim (a_codex_version st) \<noteq> [] \<and> a_listen st \<noteq> a_admin_listen st \<and>
        (a_accounts_dir st = None \<longrightarrow>
           (\<exists>dir. default_accounts_dir_with_env path_of join is_windows env = Inr dir)))"
  by (cases "parse_args path_of init_args args")
     (simp_all add: from_args_with_home_env_def split: option.split sum.split)

section \<open>Properties\<close>

text \<open>
  The gateway starts exactly with well-formed command lines: the argument loop must consume
  every flag with a valid value, the version must not be blank, the two listeners must differ, and
  an accounts directory must be given or derivable from the environment; nothing else is required.
\<close>

theorem from_args_accepts_iff:
  "(\<exists>cfg. from_args_with_home_env path_of join args is_windows env = Parsed cfg) \<longleftrightarrow>
     well_formed_args args \<and>
     (\<exists>st. parse_args path_of init_args args = Parsed st \<and>
        str_trim (a_codex_version st) \<noteq> [] \<and> a_listen st \<noteq> a_admin_listen st \<and>
        (a_accounts_dir st = None \<longrightarrow>
           (\<exists>dir. default_accounts_dir_with_env path_of join is_windows env = Inr dir)))"
  by (simp only: from_args_accepts_parsed parse_args_accepts [of path_of init_args, symmetric]) blast

theorem from_args_accepts_iff_witness:
  "\<exists>cfg. from_args_with_home_env id (@) [''--accounts-dir'', ''/tmp/codaze''] False
     \<lparr>env_home = None, env_userprofile = None, env_homedrive = None, env_homepath = None\<rparr> = Parsed cfg"
  unfolding from_args_accepts_iff
  by (simp only: parse_args_flags well_formed_args.simps)
    (simp add: value_flags_def init_args_def config_defaults str_trim_graphic is_graphic_def)

end
