(* ===== verification/Route_Select.thy ===== *)
theory Route_Select
  imports Gateway_Config
begin

text \<open>
  \<open>src/router.rs\<close>: choosing one account among the route candidates. The interface the account
  store relies on is the locale \<open>route_choice\<close>; it is interpreted on \<open>select_candidate\<close>.
\<close>

type_synonym u32 = "32 word"
type_synonym usize = "64 word"

record route_candidate =
  rc_account_id :: string
  rc_in_flight_requests :: u32
  rc_last_selected_at :: "time option"

definition in_flight_order :: "route_candidate \<Rightarrow> route_candidate \<Rightarrow> ordering" where
  "in_flight_order l r =
     then_with (cmp (rc_in_flight_requests l) (rc_in_flight_requests r))
       (then_with (cmp (rc_last_selected_at l) (rc_last_selected_at r))
         (cmp (rc_account_id l) (rc_account_id r)))"

definition id_order :: "route_candidate \<Rightarrow> route_candidate \<Rightarrow> ordering" where
  "id_order l r = cmp (rc_account_id l) (rc_account_id r)"

text \<open>\<open>Vec::get\<close> returns \<open>None\<close> out of range.\<close>

definition list_get :: "'a list \<Rightarrow> nat \<Rightarrow> 'a option" where
  "list_get xs i = (if i < length xs then Some (xs ! i) else None)"

definition select_candidate ::
  "routing_policy \<Rightarrow> route_candidate list \<Rightarrow> usize \<Rightarrow> string option \<times> usize" where
  "select_candidate policy candidates cursor =
     (if candidates = [] then (None, cursor)
      else case policy of
        RoundRobin \<Rightarrow>
          (let index = unat cursor mod length candidates
           in (map_option rc_account_id (list_get candidates index), sat_add cursor 1))
      | LeastInFlight \<Rightarrow> (map_option rc_account_id (min_by in_flight_order candidates), cursor)
      | FillFirst \<Rightarrow> (map_option rc_account_id (min_by id_order candidates), cursor))"

section \<open>Minimal elements\<close>

text \<open>
  A comparison function that is a total preorder: what \<open>min_by\<close> needs to return an element that is
  no greater than any other.
\<close>

locale preorder_cmp =
  fixes c :: "'a \<Rightarrow> 'a \<Rightarrow> ordering"
  assumes refl: "c x x = Equal"
    and flip: "c x y = Greater \<longleftrightarrow> c y x = Less"
    and trans: "c x y \<noteq> Greater \<Longrightarrow> c y z \<noteq> Greater \<Longrightarrow> c x z \<noteq> Greater"
begin

lemma total: "c x y = Greater \<Longrightarrow> c y x \<noteq> Greater"
  using flip by (metis ordering.distinct(3))

lemma fold_min:
  "foldl (\<lambda>best y. if c best y = Greater then y else best) x xs \<in> insert x (set xs) \<and>
   (\<forall>y \<in> insert x (set xs).
      c (foldl (\<lambda>best y. if c best y = Greater then y else best) x xs) y \<noteq> Greater)"
proof (induction xs arbitrary: x)
  case Nil
  then show ?case by (simp add: refl)
next
  case (Cons a xs)
  let ?f = "\<lambda>best y. if c best y = Greater then y else best"
  obtain b where b_eq: "b = (if c x a = Greater then a else x)" by simp
  have b: "c b x \<noteq> Greater" "c b a \<noteq> Greater" "b \<in> {x, a}"
    using total refl b_eq by (auto split: if_splits)
  have fold: "foldl ?f x (a # xs) = foldl ?f b xs" by (simp add: b_eq)
  have mem: "foldl ?f b xs \<in> insert x (insert a (set xs))"
    using Cons.IH [of b] b(3) by auto
  have least: "c (foldl ?f b xs) y \<noteq> Greater" if "y \<in> insert b (set xs)" for y
    using Cons.IH [of b] that by blast
  have "c (foldl ?f b xs) y \<noteq> Greater" if "y \<in> insert x (insert a (set xs))" for y
    using that least trans [OF least [of b] b(1)] trans [OF least [of b] b(2)] by blast
  with mem show ?case unfolding fold by simp
qed

lemma min_by_least:
  assumes "min_by c xs = Some m"
  shows "m \<in> set xs" "\<And>y. y \<in> set xs \<Longrightarrow> c m y \<noteq> Greater"
proof -
  from assms obtain x xs' where "xs = x # xs'"
    "m = foldl (\<lambda>best y. if c best y = Greater then y else best) x xs'"
    by (cases xs) auto
  with fold_min [of x xs'] show "m \<in> set xs" "\<And>y. y \<in> set xs \<Longrightarrow> c m y \<noteq> Greater"
    by auto
qed

end

lemma min_by_None [simp]: "min_by c xs = None \<longleftrightarrow> xs = []"
  by (cases xs) auto

interpretation in_flight: preorder_cmp in_flight_order
  by unfold_locales (auto simp: in_flight_order_def)

interpretation by_id: preorder_cmp id_order
  by unfold_locales (auto simp: id_order_def)

section \<open>The interface of a routing policy\<close>

locale route_choice =
  fixes pick :: "route_candidate list \<Rightarrow> usize \<Rightarrow> string option \<times> usize"
  assumes pick_empty: "pick [] cur = (None, cur)"
    and pick_some: "cs \<noteq> [] \<Longrightarrow> \<exists>c \<in> set cs. fst (pick cs cur) = Some (rc_account_id c)"
begin

lemma pick_None: "fst (pick cs cur) = None \<longleftrightarrow> cs = []"
  using pick_empty [of cur] pick_some [of cs cur] by (cases "cs = []") auto

lemma pick_mem: "fst (pick cs cur) = Some i \<Longrightarrow> i \<in> rc_account_id ` set cs"
  using pick_empty [of cur] pick_some [of cs cur] by (cases "cs = []") auto

end

interpretation sel: route_choice "select_candidate policy" for policy
proof
  show "select_candidate policy [] cur = (None, cur)" for cur
    by (simp add: select_candidate_def)
next
  fix cs :: "route_candidate list" and cur
  assume ne: "cs \<noteq> []"
  show "\<exists>c \<in> set cs. fst (select_candidate policy cs cur) = Some (rc_account_id c)"
  proof (cases policy)
    case RoundRobin
    have "unat cur mod length cs < length cs" using ne by simp
    then show ?thesis
      using ne RoundRobin by (auto simp: select_candidate_def list_get_def Let_def)
  next
    case LeastInFlight
    with ne obtain m where m: "min_by in_flight_order cs = Some m" by (cases cs) auto
    from in_flight.min_by_least(1) [OF m] m ne LeastInFlight show ?thesis
      by (auto simp: select_candidate_def)
  next
    case FillFirst
    with ne obtain m where m: "min_by id_order cs = Some m" by (cases cs) auto
    from by_id.min_by_least(1) [OF m] m ne FillFirst show ?thesis
      by (auto simp: select_candidate_def)
  qed
qed

section \<open>Round robin over a fixed candidate list\<close>

text \<open>The choices of consecutive round-robin calls, threading the cursor.\<close>

fun round_robin_run :: "route_candidate list \<Rightarrow> usize \<Rightarrow> nat \<Rightarrow> string option list" where
  "round_robin_run cs cur 0 = []"
| "round_robin_run cs cur (Suc n) =
     (let (r, cur') = select_candidate RoundRobin cs cur in r # round_robin_run cs cur' n)"

lemma round_robin_run_nth:
  assumes "cs \<noteq> []" "unat cur + n < 2 ^ 64" "k < n"
  shows "round_robin_run cs cur n ! k =
    Some (rc_account_id (cs ! ((unat cur + k) mod length cs)))"
  using assms
proof (induction n arbitrary: cur k)
  case 0
  then show ?case by simp
next
  case (Suc n)
  have len: "unat cur mod length cs < length cs" using Suc.prems(1) by simp
  have next_cur: "unat (sat_add cur 1) = unat cur + 1"
    using Suc.prems(2) by (simp add: sat_simps)
  show ?case
  proof (cases k)
    case 0
    with Suc.prems(1) len show ?thesis by (simp add: select_candidate_def list_get_def Let_def)
  next
    case (Suc j)
    with Suc.prems Suc.IH [of "sat_add cur 1" j] next_cur show ?thesis
      by (simp add: select_candidate_def Let_def)
  qed
qed

lemma length_round_robin_run [simp]: "length (round_robin_run cs cur n) = n"
  by (induction n arbitrary: cur) (simp_all add: case_prod_beta Let_def)

lemma least_in_flight_choice:
  assumes "select_candidate LeastInFlight cs cur = (Some i, cur')"
  obtains m where "m \<in> set cs" "rc_account_id m = i" "cur' = cur"
    "\<And>c. c \<in> set cs \<Longrightarrow> in_flight_order m c \<noteq> Greater"
proof -
  from assms obtain m where m: "min_by in_flight_order cs = Some m" "rc_account_id m = i" "cur' = cur"
    by (auto simp: select_candidate_def split: if_splits)
  show ?thesis using in_flight.min_by_least [OF m(1)] m that by blast
qed

section \<open>Properties\<close>

text \<open>
  C23: Round robin is fair: as long as the cursor does not reach its saturation point, a round of as
  many consecutive calls as there are candidates visits the candidate list once, in order, rotated
  to start at the cursor.
\<close>

theorem round_robin_fair:
  assumes "unat cur + length cs < 2 ^ 64"
  shows "round_robin_run cs cur (length cs) = map (Some \<circ> rc_account_id) (rotate (unat cur) cs)"
proof (cases "cs = []")
  case False
  show ?thesis
    by (rule nth_equalityI)
       (use False assms in \<open>simp_all add: round_robin_run_nth nth_rotate add.commute\<close>)
qed simp

theorem round_robin_fair_witness:
  "round_robin_run
     [\<lparr>rc_account_id = ''a'', rc_in_flight_requests = 0, rc_last_selected_at = None\<rparr>,
      \<lparr>rc_account_id = ''b'', rc_in_flight_requests = 9, rc_last_selected_at = None\<rparr>] 3 2
   = [Some ''b'', Some ''a'']"
proof -
  let ?cs = "[\<lparr>rc_account_id = ''a'', rc_in_flight_requests = 0, rc_last_selected_at = None\<rparr>,
      \<lparr>rc_account_id = ''b'', rc_in_flight_requests = 9, rc_last_selected_at = None\<rparr>]"
  have "unat (3 :: usize) + length ?cs < 2 ^ 64" by simp
  note run = round_robin_fair [OF this]
  have len: "length ?cs = 2" by simp
  have three: "unat (3 :: usize) = Suc (Suc (Suc 0))" by simp
  have "map (Some \<circ> rc_account_id) (rotate (unat (3 :: usize)) ?cs) = [Some ''b'', Some ''a'']"
    unfolding three rotate_def by simp
  then show ?thesis using run unfolding len by simp
qed

text \<open>
  The least-in-flight policy returns an account that no candidate precedes in the lexicographic
  order of in-flight requests, last selection time (never selected first) and account id.
\<close>

theorem least_in_flight_minimal:
  assumes "select_candidate LeastInFlight cs cur = (Some i, cur')"
  shows "cur' = cur \<and> (\<exists>m \<in> set cs. rc_account_id m = i \<and>
    (\<forall>c \<in> set cs.
       rc_in_flight_requests m < rc_in_flight_requests c \<or>
       rc_in_flight_requests m = rc_in_flight_requests c \<and>
       (rc_last_selected_at m < rc_last_selected_at c \<or>
        rc_last_selected_at m = rc_last_selected_at c \<and> rc_account_id m \<le> rc_account_id c)))"
  by (rule least_in_flight_choice [OF assms])
     (force simp: in_flight_order_def not_less le_less)

theorem least_in_flight_minimal_witness:
  "\<exists>i cur'. select_candidate LeastInFlight
     [\<lparr>rc_account_id = ''a'', rc_in_flight_requests = 2, rc_last_selected_at = None\<rparr>,
      \<lparr>rc_account_id = ''b'', rc_in_flight_requests = 1, rc_last_selected_at = Some 5\<rparr>] 7
     = (Some i, cur') \<and> i = ''b'' \<and> cur' = 7"
proof -
  let ?cs = "[\<lparr>rc_account_id = ''a'', rc_in_flight_requests = 2, rc_last_selected_at = None\<rparr>,
      \<lparr>rc_account_id = ''b'', rc_in_flight_requests = 1, rc_last_selected_at = Some 5\<rparr>]"
  have run: "select_candidate LeastInFlight ?cs 7 = (Some ''b'', 7)"
    by (simp add: select_candidate_def in_flight_order_def cmp_def)
  from least_in_flight_minimal [OF run] run show ?thesis by simp
qed

end
