(* ===== verification/Accounts.thy ===== *)
theory Accounts
  imports Error_Semantics Route_Select
begin

text \<open>
  \<open>src/accounts/mod.rs\<close>: the account record, the store, its views, and the functions that change the
  block of a record. Constructors carry a prefix where the Rust enums share names (\<open>Rs\<close> for
  \<open>RoutingState\<close>, \<open>Br\<close> for \<open>BlockedReason\<close>).
\<close>

section \<open>Outcomes\<close>

text \<open>
  An operation on a mutable borrow returns with the state it leaves and a value, or panics and leaves
  the mutations made so far: the lock around the store is not poisoned, so the next caller sees them.
\<close>

datatype ('s, 'a) outcome = Returned 's 'a | Panicked 's

fun and_then :: "('s, 'a) outcome \<Rightarrow> ('s \<Rightarrow> 'a \<Rightarrow> ('s, 'b) outcome) \<Rightarrow> ('s, 'b) outcome" where
  "and_then (Returned s a) k = k s a"
| "and_then (Panicked s) k = Panicked s"

fun outcome_state :: "('s, 'a) outcome \<Rightarrow> 's" where
  "outcome_state (Returned s a) = s"
| "outcome_state (Panicked s) = s"

fun map_state :: "('s \<Rightarrow> 't) \<Rightarrow> ('s, 'a) outcome \<Rightarrow> ('t, 'a) outcome" where
  "map_state f (Returned s a) = Returned (f s) a"
| "map_state f (Panicked s) = Panicked (f s)"

lemma outcome_state_map [simp]: "outcome_state (map_state f x) = f (outcome_state x)"
  by (cases x) simp_all

text \<open>chrono's \<open>DateTime + TimeDelta\<close> and \<open>Duration::seconds\<close>; \<open>None\<close> is their panic.\<close>

definition time_add :: "externals \<Rightarrow> time \<Rightarrow> int \<Rightarrow> time option" where
  "time_add E t d = (if min_utc E \<le> t + d \<and> t + d \<le> max_utc E then Some (t + d) else None)"

definition duration_seconds :: "externals \<Rightarrow> int \<Rightarrow> int option" where
  "duration_seconds E n =
     (if \<bar>n * 1000000000\<bar> \<le> int (max_delta E) then Some (n * 1000000000) else None)"

section \<open>Data\<close>

type_synonym path = "string list"

datatype routing_state =
  RsCold | RsReady | RsWarming | RsCooldown | RsRiskControlled | RsTemporarilyUnavailable
| RsAuthInvalid

datatype blocked_reason =
  BrRateLimited | BrQuotaExhausted | BrRiskControlled | BrTemporarilyUnavailable | BrAuthInvalid

datatype blocked_source = UpstreamRetryAfter | LocalBackoff | FixedPolicy

record account_record =
  ar_id :: string
  ar_file_path :: path
  ar_label :: "string option"
  ar_email :: "string option"
  ar_refresh_token :: string
  ar_access_token :: "string option"
  ar_account_id :: "string option"
  ar_plan_type :: "string option"
  ar_access_token_expires_at :: "time option"
  ar_last_refresh_at :: "time option"
  ar_routing_state :: routing_state
  ar_blocked_reason :: "blocked_reason option"
  ar_blocked_source :: "blocked_source option"
  ar_blocked_until :: "time option"
  ar_local_backoff_level :: u32
  ar_refresh_in_flight :: bool
  ar_in_flight_requests :: u32
  ar_last_selected_at :: "time option"
  ar_last_success_at :: "time option"
  ar_last_error_at :: "time option"
  ar_last_error :: "string option"
  ar_auth_invalid_tombstone :: bool
  ar_detached :: bool

record account_selection =
  sel_account_id :: string
  sel_refresh_token :: string
  sel_needs_refresh :: bool

datatype selection_failure = NoEligibleAccount | InternalSelection string

record refreshed_account =
  ra_access_token :: string
  ra_refresh_token :: "string option"
  ra_account_id :: "string option"
  ra_plan_type :: "string option"
  ra_email :: "string option"
  ra_access_token_expires_at :: "time option"

record account_file =
  af_refresh_token :: string
  af_label :: "string option"
  af_email :: "string option"

datatype account_disk_op =
  OpWrite path account_file
| OpRemove path
| OpMoveToTrash path path

record auth_invalid_plan =
  aip_account_id :: string
  aip_trash_op :: "account_disk_op option"

record remove_account_plan =
  rap_account_id :: string
  rap_disk_op :: account_disk_op

datatype import_apply =
  ImportNone
| ImportInsert string path account_file
| ImportUpdateMetadata string "string option" "string option"

record import_account_plan =
  iap_account_id :: string
  iap_already_exists :: bool
  iap_apply :: import_apply
  iap_disk_op :: "account_disk_op option"

record account_view =
  av_id :: string
  av_label :: "string option"
  av_email :: "string option"
  av_routing_state :: routing_state
  av_blocked_reason :: "blocked_reason option"
  av_blocked_source :: "blocked_source option"
  av_blocked_until :: "time option"
  av_account_id :: "string option"
  av_plan_type :: "string option"
  av_refresh_in_flight :: bool
  av_in_flight_requests :: u32
  av_access_token_expires_at :: "time option"
  av_last_refresh_at :: "time option"
  av_last_selected_at :: "time option"
  av_last_success_at :: "time option"
  av_last_error_at :: "time option"
  av_last_error :: "string option"

record import_account_result =
  iar_account :: account_view
  iar_already_exists :: bool

datatype wake_disposition = Woken | SkippedAuthInvalid

record wake_account_result =
  war_disposition :: wake_disposition
  war_account :: account_view

record wake_all_result =
  wr_woken :: nat
  wr_skipped_auth_invalid :: nat
  wr_accounts :: "wake_account_result list"

record upstream_account =
  ua_access_token :: string
  ua_chatgpt_account_id :: "string option"

datatype upstream_account_error = MissingRecord | MissingAccessToken

record pool_block_summary =
  pbs_blocked_reason :: blocked_reason
  pbs_blocked_until :: "time option"
  pbs_retry_after :: "duration option"

text \<open>
  The \<open>HashMap\<close> of records is an association list; its order stands for the iteration order of the
  map, which no invariant fixes.
\<close>

record account_store =
  st_accounts_dir :: path
  st_records :: "(string \<times> account_record) list"
  st_round_robin_cursor :: usize

record disk_account_entry =
  de_id :: string
  de_path :: path
  de_disk :: account_file

datatype sync_mode = Startup | Rescan

record disk_scan_snapshot =
  ss_entries :: "disk_account_entry list"
  ss_failed_file_ids :: "string list"
  ss_observed_paths :: "path list"

record disk_sync_upsert =
  up_id :: string
  up_path :: path
  up_disk :: account_file

record disk_sync_plan =
  pl_mode :: sync_mode
  pl_writes :: "(path \<times> account_file) list"
  pl_removals :: "path list"
  pl_upserts :: "disk_sync_upsert list"
  pl_seen_ids :: "string list"
  pl_failed_file_ids :: "string list"

record canonical_target =
  ct_id :: string
  ct_path :: path
  ct_disk :: account_file
  ct_matched_group_path :: "path option"

record retryable_block =
  rb_reason :: blocked_reason
  rb_source :: blocked_source
  rb_until :: time

datatype block_transition =
  NoChange
| Clear
| Permanent blocked_reason blocked_source
| Timed retryable_block

section \<open>The store as a map\<close>

definition new_store :: "path \<Rightarrow> account_store" where
  "new_store dir = \<lparr>st_accounts_dir = dir, st_records = [], st_round_robin_cursor = 0\<rparr>"

definition records_get :: "account_store \<Rightarrow> string \<Rightarrow> account_record option" where
  "records_get st aid = map_of (st_records st) aid"

definition records_insert :: "string \<Rightarrow> account_record \<Rightarrow> account_store \<Rightarrow> account_store" where
  "records_insert aid r st = st\<lparr>st_records := AList.update aid r (st_records st)\<rparr>"

definition records_remove :: "string \<Rightarrow> account_store \<Rightarrow> account_store" where
  "records_remove aid st = st\<lparr>st_records := AList.delete aid (st_records st)\<rparr>"

definition store_values :: "account_store \<Rightarrow> account_record list" where
  "store_values st = map snd (st_records st)"

text \<open>Every key occurs once and is the id of its record.\<close>

definition wf_store :: "account_store \<Rightarrow> bool" where
  "wf_store st \<longleftrightarrow>
     distinct (map fst (st_records st)) \<and> (\<forall>(k, r) \<in> set (st_records st). ar_id r = k)"

lemma records_get_insert [simp]:
  "records_get (records_insert aid r st) k = (if k = aid then Some r else records_get st k)"
  by (simp add: records_get_def records_insert_def AList.update_conv')

lemma records_get_remove [simp]:
  "records_get (records_remove aid st) k = (if k = aid then None else records_get st k)"
  by (simp add: records_get_def records_remove_def AList.delete_conv')

lemma records_simps [simp]:
  "st_accounts_dir (records_insert aid r st) = st_accounts_dir st"
  "st_round_robin_cursor (records_insert aid r st) = st_round_robin_cursor st"
  "st_accounts_dir (records_remove aid st) = st_accounts_dir st"
  "st_round_robin_cursor (records_remove aid st) = st_round_robin_cursor st"
  by (simp_all add: records_insert_def records_remove_def)

lemma wf_new_store [simp, intro]: "wf_store (new_store dir)"
  by (simp add: wf_store_def new_store_def)

lemma records_get_new_store [simp]: "records_get (new_store dir) k = None"
  by (simp add: records_get_def new_store_def)

lemma wf_remove [simp, intro]: "wf_store st \<Longrightarrow> wf_store (records_remove aid st)"
  unfolding wf_store_def records_remove_def
  by (auto simp: AList.distinct_delete) (auto simp: AList.delete_eq)

lemma wf_get: "wf_store st \<Longrightarrow> records_get st k = Some r \<Longrightarrow> ar_id r = k"
  unfolding wf_store_def records_get_def by (auto dest!: map_of_SomeD)

lemma wf_mem:
  "wf_store st \<Longrightarrow> r \<in> set (store_values st) \<longleftrightarrow> records_get st (ar_id r) = Some r"
  unfolding wf_store_def records_get_def store_values_def
  by (force dest: map_of_SomeD intro: map_of_is_SomeI)

lemma wf_values: "wf_store st \<Longrightarrow> records_get st k = Some r \<Longrightarrow> r \<in> set (store_values st)"
  using wf_mem wf_get by metis

lemma wf_insert [simp, intro]:
  assumes "wf_store st" "ar_id r = aid"
  shows "wf_store (records_insert aid r st)"
proof -
  have "set (AList.update aid r xs) \<subseteq> insert (aid, r) (set xs)" for xs
    by (induction xs) auto
  with assms show ?thesis
    unfolding wf_store_def records_insert_def by (fastforce simp: AList.distinct_update)
qed

section \<open>Views\<close>

definition account_view_from :: "account_record \<Rightarrow> account_view" where
  "account_view_from r =
     \<lparr>av_id = ar_id r, av_label = ar_label r, av_email = ar_email r,
      av_routing_state = ar_routing_state r, av_blocked_reason = ar_blocked_reason r,
      av_blocked_source = ar_blocked_source r, av_blocked_until = ar_blocked_until r,
      av_account_id = ar_account_id r, av_plan_type = ar_plan_type r,
      av_refresh_in_flight = ar_refresh_in_flight r,
      av_in_flight_requests = ar_in_flight_requests r,
      av_access_token_expires_at = ar_access_token_expires_at r,
      av_last_refresh_at = ar_last_refresh_at r, av_last_selected_at = ar_last_selected_at r,
      av_last_success_at = ar_last_success_at r, av_last_error_at = ar_last_error_at r,
      av_last_error = ar_last_error r\<rparr>"

section \<open>Blocks\<close>

definition TEMPORARY_FAILURE_COOLDOWN_SECONDS :: int where
  "TEMPORARY_FAILURE_COOLDOWN_SECONDS = 60"

definition RISK_COOLDOWN_SECONDS :: int where
  "RISK_COOLDOWN_SECONDS = 1800"

definition LOCAL_BACKOFF_BASE_SECONDS :: "64 word" where
  "LOCAL_BACKOFF_BASE_SECONDS = 1"

definition LOCAL_BACKOFF_MAX_SECONDS :: "64 word" where
  "LOCAL_BACKOFF_MAX_SECONDS = 30 * 60"

definition has_active_block_at :: "account_record \<Rightarrow> time \<Rightarrow> bool" where
  "has_active_block_at r now =
     (case ar_blocked_until r of
        Some t \<Rightarrow> now < t
      | None \<Rightarrow> ar_blocked_reason r \<noteq> None)"

fun apply_block_transition ::
  "account_record \<Rightarrow> time \<Rightarrow> block_transition \<Rightarrow> account_record" where
  "apply_block_transition r now NoChange = r"
| "apply_block_transition r now Clear =
     r\<lparr>ar_blocked_reason := None, ar_blocked_source := None, ar_blocked_until := None\<rparr>"
| "apply_block_transition r now (Permanent reason source) =
     r\<lparr>ar_blocked_reason := Some reason, ar_blocked_source := Some source,
       ar_blocked_until := None\<rparr>"
| "apply_block_transition r now (Timed candidate) =
     (let should_replace_existing =
        (case ar_blocked_until r of
           Some existing_until \<Rightarrow>
             if now < existing_until then existing_until \<le> rb_until candidate else True
         | None \<Rightarrow> \<not> has_active_block_at r now)
      in if should_replace_existing then
           r\<lparr>ar_blocked_reason := Some (rb_reason candidate),
             ar_blocked_source := Some (rb_source candidate),
             ar_blocked_until := Some (rb_until candidate)\<rparr>
         else r)"

text \<open>The clock reading of the two callers below is not used by the transitions they pass.\<close>

definition clear_block :: "account_record \<Rightarrow> account_record" where
  "clear_block r = apply_block_transition r 0 Clear"

definition apply_auth_invalid_block :: "account_record \<Rightarrow> account_record" where
  "apply_auth_invalid_block r = apply_block_transition r 0 (Permanent BrAuthInvalid FixedPolicy)"

definition apply_wake :: "account_record \<Rightarrow> account_record \<times> wake_disposition" where
  "apply_wake r =
     (if ar_routing_state r = RsAuthInvalid \<or> ar_blocked_reason r = Some BrAuthInvalid
      then (r, SkippedAuthInvalid)
      else
        (let r1 = (clear_block r)\<lparr>ar_local_backoff_level := 0\<rparr>;
             s = (if ar_refresh_in_flight r1 then RsWarming
                  else if ar_access_token r1 \<noteq> None then RsReady else RsCold)
         in (r1\<lparr>ar_routing_state := s\<rparr>, Woken)))"

fun blocked_reason_rank :: "blocked_reason \<Rightarrow> nat" where
  "blocked_reason_rank BrQuotaExhausted = 0"
| "blocked_reason_rank BrRateLimited = 1"
| "blocked_reason_rank BrRiskControlled = 2"
| "blocked_reason_rank BrTemporarilyUnavailable = 3"
| "blocked_reason_rank BrAuthInvalid = 4"

definition compare_block_priority ::
  "blocked_reason \<times> time option \<Rightarrow> blocked_reason \<times> time option \<Rightarrow> ordering" where
  "compare_block_priority left right =
     (case (snd left, snd right) of
        (Some left_until, Some right_until) \<Rightarrow>
          then_with (cmp left_until right_until)
            (cmp (blocked_reason_rank (fst left)) (blocked_reason_rank (fst right)))
      | (Some _, None) \<Rightarrow> Less
      | (None, Some _) \<Rightarrow> Greater
      | (None, None) \<Rightarrow> cmp (blocked_reason_rank (fst left)) (blocked_reason_rank (fst right)))"

text \<open>\<open>checked_shl\<close> fails from the width of the word on; saturation stands in for it.\<close>

definition checked_shl :: "64 word \<Rightarrow> u32 \<Rightarrow> 64 word option" where
  "checked_shl w n = (if unat n < 64 then Some (push_bit (unat n) w) else None)"

definition next_local_backoff :: "u32 \<Rightarrow> duration" where
  "next_local_backoff level =
     (let multiplier = (case checked_shl 1 level of Some m \<Rightarrow> m | None \<Rightarrow> - 1)
      in from_secs
           (unat (min (sat_mul LOCAL_BACKOFF_BASE_SECONDS multiplier) LOCAL_BACKOFF_MAX_SECONDS)))"

definition duration_from_std :: "externals \<Rightarrow> duration \<Rightarrow> int option" where
  "duration_from_std E d =
     (if d \<le> max_delta E then Some (int d) else duration_seconds E (2 ^ 63 - 1))"

definition build_retryable_block ::
  "externals \<Rightarrow> account_record \<Rightarrow> time \<Rightarrow> blocked_reason \<Rightarrow> duration option
     \<Rightarrow> (account_record, retryable_block) outcome" where
  "build_retryable_block E r now reason retry_after =
     (case retry_after of
        Some d \<Rightarrow>
          (case Option.bind (duration_from_std E d) (time_add E now) of
             Some t \<Rightarrow>
               Returned r \<lparr>rb_reason = reason, rb_source = UpstreamRetryAfter, rb_until = t\<rparr>
           | None \<Rightarrow> Panicked r)
      | None \<Rightarrow>
          (let cooldown = next_local_backoff (ar_local_backoff_level r);
               r1 = r\<lparr>ar_local_backoff_level := sat_add (ar_local_backoff_level r) 1\<rparr>
           in case Option.bind (duration_from_std E cooldown) (time_add E now) of
                Some t \<Rightarrow>
                  Returned r1 \<lparr>rb_reason = reason, rb_source = LocalBackoff, rb_until = t\<rparr>
              | None \<Rightarrow> Panicked r1))"

definition apply_retryable_block ::
  "externals \<Rightarrow> account_record \<Rightarrow> time \<Rightarrow> blocked_reason \<Rightarrow> duration option
     \<Rightarrow> (account_record, unit) outcome" where
  "apply_retryable_block E r now reason retry_after =
     and_then (build_retryable_block E r now reason retry_after)
       (\<lambda>r candidate. Returned (apply_block_transition r now (Timed candidate)) ())"

definition apply_fixed_block ::
  "externals \<Rightarrow> account_record \<Rightarrow> time \<Rightarrow> blocked_reason \<Rightarrow> int
     \<Rightarrow> (account_record, unit) outcome" where
  "apply_fixed_block E r now reason d =
     (case time_add E now d of
        None \<Rightarrow> Panicked r
      | Some t \<Rightarrow>
          Returned (apply_block_transition r now
            (Timed \<lparr>rb_reason = reason, rb_source = FixedPolicy, rb_until = t\<rparr>)) ())"

section \<open>A new record\<close>

text \<open>The record that \<open>upsert_disk_record\<close> (\<open>src/accounts/disk.rs\<close>) makes of an unknown file.\<close>

definition new_account_record :: "string \<Rightarrow> path \<Rightarrow> account_file \<Rightarrow> account_record" where
  "new_account_record aid path disk =
     \<lparr>ar_id = aid, ar_file_path = path, ar_label = af_label disk, ar_email = af_email disk,
      ar_refresh_token = af_refresh_token disk, ar_access_token = None, ar_account_id = None,
      ar_plan_type = None, ar_access_token_expires_at = None, ar_last_refresh_at = None,
      ar_routing_state = RsCold, ar_blocked_reason = None, ar_blocked_source = None,
      ar_blocked_until = None, ar_local_backoff_level = 0, ar_refresh_in_flight = False,
      ar_in_flight_requests = 0, ar_last_selected_at = None, ar_last_success_at = None,
      ar_last_error_at = None, ar_last_error = None, ar_auth_invalid_tombstone = False,
      ar_detached = False\<rparr>"

section \<open>Files and ids\<close>

definition account_file_from_record :: "account_record \<Rightarrow> account_file" where
  "account_file_from_record r =
     \<lparr>af_refresh_token = ar_refresh_token r, af_label = ar_label r, af_email = ar_email r\<rparr>"

text \<open>\<open>Iterator::find_map\<close>.\<close>

fun find_map :: "('a \<Rightarrow> 'b option) \<Rightarrow> 'a list \<Rightarrow> 'b option" where
  "find_map f [] = None"
| "find_map f (x # xs) = (case f x of Some y \<Rightarrow> Some y | None \<Rightarrow> find_map f xs)"

definition merge_duplicate_account_files ::
  "account_file \<Rightarrow> disk_account_entry list \<Rightarrow> account_file" where
  "merge_duplicate_account_files base entries =
     (let m = (if af_label base = None
               then base\<lparr>af_label := find_map (\<lambda>e. af_label (de_disk e)) entries\<rparr> else base)
      in if af_email m = None
         then m\<lparr>af_email := find_map (\<lambda>e. af_email (de_disk e)) entries\<rparr> else m)"

text \<open>
  A path is the list of its components; the paths of account files have at least two, so that
  \<open>Path::file_name\<close> is the last one. \<open>Path::file_stem\<close> drops the part from the last dot on, unless
  that dot is the first character.
\<close>

definition file_name :: "path \<Rightarrow> string option" where
  "file_name p = (if p = [] then None else Some (last p))"

definition split_extension :: "string \<Rightarrow> string \<times> string option" where
  "split_extension n =
     (let ext = rev (takeWhile (\<lambda>c. c \<noteq> CHR ''.'') (rev n));
          stem = take (length n - length ext - 1) n
      in if length ext = length n \<or> stem = [] then (n, None) else (stem, Some ext))"

definition file_stem :: "path \<Rightarrow> string option" where
  "file_stem p = map_option (\<lambda>n. fst (split_extension n)) (file_name p)"

definition path_extension :: "path \<Rightarrow> string option" where
  "path_extension p = Option.bind (file_name p) (\<lambda>n. snd (split_extension n))"

definition ACCOUNT_FILE_EXTENSION :: string where
  "ACCOUNT_FILE_EXTENSION = ''json''"

definition TRASH_DIR_NAME :: string where
  "TRASH_DIR_NAME = ''trash''"

text \<open>
  \<open>stamp i\<close> is the clock in nanoseconds at attempt \<open>i\<close>. The loop runs until a free name is found; the
  first argument bounds its attempts.
\<close>

definition trash_candidate :: "(nat \<Rightarrow> nat) \<Rightarrow> path \<Rightarrow> path \<Rightarrow> 64 word \<Rightarrow> path" where
  "trash_candidate stamp accounts_dir original attempt =
     (let name = (case file_name original of Some n \<Rightarrow> n | None \<Rightarrow> ''account.json'');
          stem = (case file_stem original of Some n \<Rightarrow> n | None \<Rightarrow> ''account'');
          trash_dir = accounts_dir @ [TRASH_DIR_NAME]
      in if attempt = 0 then trash_dir @ [name]
         else trash_dir @ [stem @ ''-'' @ show_nat (stamp (unat attempt)) @ ''-''
                             @ show_nat (unat attempt) @ ''.'' @ ACCOUNT_FILE_EXTENSION])"

fun unique_trash_path_loop ::
  "nat \<Rightarrow> (path \<Rightarrow> bool) \<Rightarrow> (nat \<Rightarrow> nat) \<Rightarrow> path \<Rightarrow> path \<Rightarrow> 64 word \<Rightarrow> path option" where
  "unique_trash_path_loop 0 exists stamp accounts_dir original attempt = None"
| "unique_trash_path_loop (Suc fuel) exists stamp accounts_dir original attempt =
     (let candidate = trash_candidate stamp accounts_dir original attempt
      in if \<not> exists candidate then Some candidate
         else unique_trash_path_loop fuel exists stamp accounts_dir original (sat_add attempt 1))"

definition unique_trash_path ::
  "nat \<Rightarrow> (path \<Rightarrow> bool) \<Rightarrow> (nat \<Rightarrow> nat) \<Rightarrow> path \<Rightarrow> path \<Rightarrow> path option" where
  "unique_trash_path fuel exists stamp accounts_dir original =
     unique_trash_path_loop fuel exists stamp accounts_dir original 0"

definition temp_account_path :: "nat \<Rightarrow> path \<Rightarrow> path" where
  "temp_account_path stamp p =
     (let name = (case file_name p of Some n \<Rightarrow> n | None \<Rightarrow> ''account.json'')
      in butlast p @ [''.'' @ name @ ''.'' @ show_nat stamp @ ''.tmp''])"

definition hex_digit :: "nat \<Rightarrow> char" where
  "hex_digit d = (if d < 10 then char_of (48 + d) else char_of (87 + d))"

definition hex_byte :: "8 word \<Rightarrow> string" where
  "hex_byte b = [hex_digit (unat b div 16), hex_digit (unat b mod 16)]"

definition stable_account_id :: "externals \<Rightarrow> string \<Rightarrow> string" where
  "stable_account_id E refresh_token = concat (map hex_byte (take 16 (sha256 E refresh_token)))"

definition INVALID_REFRESH_TOKEN_MESSAGE :: string where
  "INVALID_REFRESH_TOKEN_MESSAGE = ''refresh_token must not be empty''"

definition normalize_refresh_token :: "string \<Rightarrow> string + string" where
  "normalize_refresh_token refresh_token =
     (let trimmed = str_trim refresh_token
      in if trimmed = [] then Inl INVALID_REFRESH_TOKEN_MESSAGE else Inr trimmed)"

definition normalize_optional_metadata :: "string option \<Rightarrow> string option" where
  "normalize_optional_metadata v =
     Option.bind v (\<lambda>v. let trimmed = str_trim v in if trimmed \<noteq> [] then Some trimmed else None)"

text \<open>\<open>None\<close>: \<open>Duration::seconds\<close> or the addition panics.\<close>

definition token_needs_refresh :: "externals \<Rightarrow> account_record \<Rightarrow> int \<Rightarrow> time \<Rightarrow> bool option" where
  "token_needs_refresh E r skew now =
     (case ar_access_token_expires_at r of
        None \<Rightarrow> Some True
      | Some expires_at \<Rightarrow>
          if ar_access_token r = None then Some True
          else map_option (\<lambda>limit. expires_at \<le> limit)
                 (Option.bind (duration_seconds E skew) (time_add E now)))"

end
