(* ===== verification/Account_Blocks.thy ===== *)
theory Account_Blocks
  imports Accounts
begin

text \<open>
  What the functions of \<open>src/accounts/mod.rs\<close> guarantee: blocks as an ordered abstract strength that
  the transitions refine, the local back-off, the priority of blocks, file ids and trash names.
\<close>

section \<open>Back-off\<close>

lemma unat_push_bit_one:
  assumes "k < 64"
  shows "unat (push_bit k (1 :: 64 word)) = 2 ^ k"
proof -
  have "(2::nat) ^ k < 2 ^ 64" using assms by (intro power_strict_increasing) simp_all
  moreover have "push_bit k (1 :: 64 word) = word_of_nat (2 ^ k)" by (simp add: push_bit_eq_mult)
  ultimately show ?thesis
    using assms by (simp only: unsigned_of_nat) (simp add: take_bit_nat_eq_self)
qed

lemma sat_mul_one [simp]: "sat_mul 1 b = b" for b :: "'a::len word"
  using unsigned_less [of b] by (cases "LENGTH('a) = 1") (auto simp: sat_mul_def unsigned_1)

lemma two_pow_ge_1800: "11 \<le> k \<Longrightarrow> (1800::nat) \<le> 2 ^ k"
  using power_increasing [of 11 k "2::nat"] by simp

text \<open>
  C20: the local back-off of level \<open>n\<close> is \<open>2\<^sup>n\<close> seconds capped at thirty minutes, for every 32-bit
  level: the shift past the width of the word and the saturation never show.
\<close>

theorem next_local_backoff_closed:
  "next_local_backoff level = from_secs (min (2 ^ unat level) 1800)"
proof (cases "unat level < 64")
  case True
  have "sat_mul LOCAL_BACKOFF_BASE_SECONDS (push_bit (unat level) 1) = push_bit (unat level) 1"
    by (simp only: LOCAL_BACKOFF_BASE_SECONDS_def sat_mul_one)
  then have "unat (sat_mul LOCAL_BACKOFF_BASE_SECONDS (push_bit (unat level) 1)) = 2 ^ unat level"
    by (simp only: unat_push_bit_one [OF True])
  then show ?thesis
    using True by (simp add: next_local_backoff_def checked_shl_def LOCAL_BACKOFF_MAX_SECONDS_def
        min_def word_le_nat_alt)
next
  case False
  then have "min (2 ^ unat level) 1800 = (1800::nat)"
    using two_pow_ge_1800 [of "unat level"] by simp
  with False show ?thesis
    by (simp add: next_local_backoff_def checked_shl_def LOCAL_BACKOFF_MAX_SECONDS_def
        LOCAL_BACKOFF_BASE_SECONDS_def min_def word_le_nat_alt unat_minus_one_word_len Let_def)
qed

section \<open>Blocks as an order\<close>

text \<open>
  What a record's block means for routing at an instant: open, blocked until a later instant, or
  blocked for good.
\<close>

datatype block_strength = Unblocked | BlockedUntil time | BlockedForever

instantiation block_strength :: linorder
begin

fun less_eq_block_strength :: "block_strength \<Rightarrow> block_strength \<Rightarrow> bool" where
  "less_eq_block_strength Unblocked _ = True"
| "less_eq_block_strength (BlockedUntil s) (BlockedUntil t) = (s \<le> t)"
| "less_eq_block_strength _ BlockedForever = True"
| "less_eq_block_strength _ _ = False"

definition less_block_strength :: "block_strength \<Rightarrow> block_strength \<Rightarrow> bool" where
  "less_block_strength a b = (a \<le> b \<and> \<not> b \<le> (a :: block_strength))"

instance
proof
  fix x y z :: block_strength
  show "x < y \<longleftrightarrow> x \<le> y \<and> \<not> y \<le> x" by (simp add: less_block_strength_def)
  show "x \<le> x" by (cases x) simp_all
  show "x \<le> y \<Longrightarrow> y \<le> z \<Longrightarrow> x \<le> z" by (cases x; cases y; cases z) simp_all
  show "x \<le> y \<Longrightarrow> y \<le> x \<Longrightarrow> x = y" by (cases x; cases y) simp_all
  show "x \<le> y \<or> y \<le> x" by (cases x; cases y) auto
qed

end

definition until_strength :: "time \<Rightarrow> time \<Rightarrow> block_strength" where
  "until_strength now t = (if now < t then BlockedUntil t else Unblocked)"

definition block_strength_at :: "time \<Rightarrow> account_record \<Rightarrow> block_strength" where
  "block_strength_at now r =
     (case ar_blocked_until r of
        Some t \<Rightarrow> until_strength now t
      | None \<Rightarrow> if ar_blocked_reason r = None then Unblocked else BlockedForever)"

fun transition_strength :: "time \<Rightarrow> block_transition \<Rightarrow> block_strength \<Rightarrow> block_strength" where
  "transition_strength now NoChange s = s"
| "transition_strength now Clear s = Unblocked"
| "transition_strength now (Permanent reason source) s = BlockedForever"
| "transition_strength now (Timed c) s = max s (until_strength now (rb_until c))"

lemma has_active_block_strength:
  "has_active_block_at r now \<longleftrightarrow> block_strength_at now r \<noteq> Unblocked"
  by (auto simp: has_active_block_at_def block_strength_at_def until_strength_def split: option.splits)

text \<open>
  C15: the one function through which blocks change refines the abstract order: a timed block never
  shortens a block in force and never touches a permanent one, a permanent block overrides every
  other, clearing opens the account. Stated for every record, instant and transition.
\<close>

theorem block_transition_refines:
  "block_strength_at now (apply_block_transition r now t)
   = transition_strength now t (block_strength_at now r)"
proof (cases t)
  case (Timed c)
  show ?thesis
  proof (cases "ar_blocked_until r")
    case None
    with Timed show ?thesis
      by (simp add: block_strength_at_def until_strength_def has_active_block_at_def max_def Let_def)
  next
    case (Some u)
    with Timed show ?thesis
      by (auto simp: block_strength_at_def until_strength_def max_def Let_def)
  qed
qed (simp_all add: block_strength_at_def)

lemma transition_keeps [simp]:
  "ar_id (apply_block_transition r now t) = ar_id r"
  "ar_file_path (apply_block_transition r now t) = ar_file_path r"
  "ar_label (apply_block_transition r now t) = ar_label r"
  "ar_email (apply_block_transition r now t) = ar_email r"
  "ar_refresh_token (apply_block_transition r now t) = ar_refresh_token r"
  "ar_access_token (apply_block_transition r now t) = ar_access_token r"
  "ar_account_id (apply_block_transition r now t) = ar_account_id r"
  "ar_plan_type (apply_block_transition r now t) = ar_plan_type r"
  "ar_access_token_expires_at (apply_block_transition r now t) = ar_access_token_expires_at r"
  "ar_last_refresh_at (apply_block_transition r now t) = ar_last_refresh_at r"
  "ar_routing_state (apply_block_transition r now t) = ar_routing_state r"
  "ar_local_backoff_level (apply_block_transition r now t) = ar_local_backoff_level r"
  "ar_refresh_in_flight (apply_block_transition r now t) = ar_refresh_in_flight r"
  "ar_in_flight_requests (apply_block_transition r now t) = ar_in_flight_requests r"
  "ar_last_selected_at (apply_block_transition r now t) = ar_last_selected_at r"
  "ar_last_success_at (apply_block_transition r now t) = ar_last_success_at r"
  "ar_last_error_at (apply_block_transition r now t) = ar_last_error_at r"
  "ar_last_error (apply_block_transition r now t) = ar_last_error r"
  "ar_auth_invalid_tombstone (apply_block_transition r now t) = ar_auth_invalid_tombstone r"
  "ar_detached (apply_block_transition r now t) = ar_detached r"
  by (cases t; simp add: Let_def)+

lemma clear_block_simps [simp]:
  "ar_blocked_reason (clear_block r) = None" "ar_blocked_source (clear_block r) = None"
  "ar_blocked_until (clear_block r) = None"
  "ar_id (clear_block r) = ar_id r"
  "ar_file_path (clear_block r) = ar_file_path r"
  "ar_label (clear_block r) = ar_label r"
  "ar_email (clear_block r) = ar_email r"
  "ar_refresh_token (clear_block r) = ar_refresh_token r"
  "ar_access_token (clear_block r) = ar_access_token r"
  "ar_account_id (clear_block r) = ar_account_id r"
  "ar_plan_type (clear_block r) = ar_plan_type r"
  "ar_access_token_expires_at (clear_block r) = ar_access_token_expires_at r"
  "ar_last_refresh_at (clear_block r) = ar_last_refresh_at r"
  "ar_routing_state (clear_block r) = ar_routing_state r"
  "ar_local_backoff_level (clear_block r) = ar_local_backoff_level r"
  "ar_refresh_in_flight (clear_block r) = ar_refresh_in_flight r"
  "ar_in_flight_requests (clear_block r) = ar_in_flight_requests r"
  "ar_last_selected_at (clear_block r) = ar_last_selected_at r"
  "ar_last_success_at (clear_block r) = ar_last_success_at r"
  "ar_last_error_at (clear_block r) = ar_last_error_at r"
  "ar_last_error (clear_block r) = ar_last_error r"
  "ar_auth_invalid_tombstone (clear_block r) = ar_auth_invalid_tombstone r"
  "ar_detached (clear_block r) = ar_detached r"
  by (simp_all add: clear_block_def del: apply_block_transition.simps(1,3,4))

lemma auth_invalid_block_simps [simp]:
  "ar_blocked_reason (apply_auth_invalid_block r) = Some BrAuthInvalid"
  "ar_blocked_source (apply_auth_invalid_block r) = Some FixedPolicy"
  "ar_blocked_until (apply_auth_invalid_block r) = None"
  "ar_id (apply_auth_invalid_block r) = ar_id r"
  "ar_file_path (apply_auth_invalid_block r) = ar_file_path r"
  "ar_label (apply_auth_invalid_block r) = ar_label r"
  "ar_email (apply_auth_invalid_block r) = ar_email r"
  "ar_refresh_token (apply_auth_invalid_block r) = ar_refresh_token r"
  "ar_access_token (apply_auth_invalid_block r) = ar_access_token r"
  "ar_account_id (apply_auth_invalid_block r) = ar_account_id r"
  "ar_plan_type (apply_auth_invalid_block r) = ar_plan_type r"
  "ar_access_token_expires_at (apply_auth_invalid_block r) = ar_access_token_expires_at r"
  "ar_last_refresh_at (apply_auth_invalid_block r) = ar_last_refresh_at r"
  "ar_routing_state (apply_auth_invalid_block r) = ar_routing_state r"
  "ar_local_backoff_level (apply_auth_invalid_block r) = ar_local_backoff_level r"
  "ar_refresh_in_flight (apply_auth_invalid_block r) = ar_refresh_in_flight r"
  "ar_in_flight_requests (apply_auth_invalid_block r) = ar_in_flight_requests r"
  "ar_last_selected_at (apply_auth_invalid_block r) = ar_last_selected_at r"
  "ar_last_success_at (apply_auth_invalid_block r) = ar_last_success_at r"
  "ar_last_error_at (apply_auth_invalid_block r) = ar_last_error_at r"
  "ar_last_error (apply_auth_invalid_block r) = ar_last_error r"
  "ar_auth_invalid_tombstone (apply_auth_invalid_block r) = ar_auth_invalid_tombstone r"
  "ar_detached (apply_auth_invalid_block r) = ar_detached r"
  by (simp_all add: apply_auth_invalid_block_def)

text \<open>Reason and source go together, and an instant comes with both.\<close>

definition block_consistent :: "account_record \<Rightarrow> bool" where
  "block_consistent r \<longleftrightarrow>
     (ar_blocked_reason r = None \<longleftrightarrow> ar_blocked_source r = None)
     \<and> (ar_blocked_until r \<noteq> None \<longrightarrow> ar_blocked_reason r \<noteq> None)"

lemma block_consistent_update [simp]:
  "block_consistent (r\<lparr>ar_id := x0\<rparr>) = block_consistent r"
  "block_consistent (r\<lparr>ar_file_path := x1\<rparr>) = block_consistent r"
  "block_consistent (r\<lparr>ar_label := x2\<rparr>) = block_consistent r"
  "block_consistent (r\<lparr>ar_email := x3\<rparr>) = block_consistent r"
  "block_consistent (r\<lparr>ar_refresh_token := x4\<rparr>) = block_consistent r"
  "block_consistent (r\<lparr>ar_access_token := x5\<rparr>) = block_consistent r"
  "block_consistent (r\<lparr>ar_account_id := x6\<rparr>) = block_consistent r"
  "block_consistent (r\<lparr>ar_plan_type := x7\<rparr>) = block_consistent r"
  "block_consistent (r\<lparr>ar_access_token_expires_at := x8\<rparr>) = block_consistent r"
  "block_consistent (r\<lparr>ar_last_refresh_at := x9\<rparr>) = block_consistent r"
  "block_consistent (r\<lparr>ar_routing_state := x10\<rparr>) = block_consistent r"
  "block_consistent (r\<lparr>ar_local_backoff_level := x11\<rparr>) = block_consistent r"
  "block_consistent (r\<lparr>ar_refresh_in_flight := x12\<rparr>) = block_consistent r"
  "block_consistent (r\<lparr>ar_in_flight_requests := x13\<rparr>) = block_consistent r"
  "block_consistent (r\<lparr>ar_last_selected_at := x14\<rparr>) = block_consistent r"
  "block_consistent (r\<lparr>ar_last_success_at := x15\<rparr>) = block_consistent r"
  "block_consistent (r\<lparr>ar_last_error_at := x16\<rparr>) = block_consistent r"
  "block_consistent (r\<lparr>ar_last_error := x17\<rparr>) = block_consistent r"
  "block_consistent (r\<lparr>ar_auth_invalid_tombstone := x18\<rparr>) = block_consistent r"
  "block_consistent (r\<lparr>ar_detached := x19\<rparr>) = block_consistent r"
  by (simp_all add: block_consistent_def)

lemma block_consistent_transition [simp]:
  "block_consistent r \<Longrightarrow> block_consistent (apply_block_transition r now t)"
  by (cases t) (auto simp: block_consistent_def Let_def)

lemma block_consistent_clear [simp]: "block_consistent (clear_block r)"
  by (simp add: block_consistent_def)

lemma block_consistent_auth_invalid [simp]: "block_consistent (apply_auth_invalid_block r)"
  by (simp add: block_consistent_def)

text \<open>The two builders of timed blocks, as one transition on the record.\<close>

lemma build_retryable_block_cases:
  obtains (ok) c r' where "build_retryable_block E r now reason d = Returned r' c"
      "r' = r \<or> r' = r\<lparr>ar_local_backoff_level := sat_add (ar_local_backoff_level r) 1\<rparr>"
      "rb_reason c = reason"
  | (panic) r' where "build_retryable_block E r now reason d = Panicked r'"
      "r' = r \<or> r' = r\<lparr>ar_local_backoff_level := sat_add (ar_local_backoff_level r) 1\<rparr>"
proof (cases d)
  case None
  show ?thesis
  proof (cases "Option.bind (duration_from_std E (next_local_backoff (ar_local_backoff_level r)))
          (time_add E now)")
    case n: None
    show ?thesis by (rule panic, simp add: build_retryable_block_def None n Let_def, simp_all)
  next
    case (Some t)
    show ?thesis by (rule ok, simp add: build_retryable_block_def None Some Let_def, simp_all)
  qed
next
  case s: (Some n)
  show ?thesis
  proof (cases "Option.bind (duration_from_std E n) (time_add E now)")
    case None
    show ?thesis by (rule panic, simp add: build_retryable_block_def None s, simp_all)
  next
    case (Some t)
    show ?thesis by (rule ok, simp add: build_retryable_block_def Some s, simp_all)
  qed
qed

lemma apply_retryable_block_cases:
  obtains (ok) c r' where "apply_retryable_block E r now reason d
        = Returned (apply_block_transition r' now (Timed c)) ()"
      "r' = r \<or> r' = r\<lparr>ar_local_backoff_level := sat_add (ar_local_backoff_level r) 1\<rparr>"
      "rb_reason c = reason"
  | (panic) r' where "apply_retryable_block E r now reason d = Panicked r'"
      "r' = r \<or> r' = r\<lparr>ar_local_backoff_level := sat_add (ar_local_backoff_level r) 1\<rparr>"
proof (rule build_retryable_block_cases [of E r now reason d])
  fix c r'
  assume ok: "build_retryable_block E r now reason d = Returned r' c"
    "r' = r \<or> r' = r\<lparr>ar_local_backoff_level := sat_add (ar_local_backoff_level r) 1\<rparr>"
    "rb_reason c = reason"
  show ?thesis by (rule that(1) [OF _ ok(2,3)]) (simp add: apply_retryable_block_def ok(1))
next
  fix r'
  assume panic: "build_retryable_block E r now reason d = Panicked r'"
    "r' = r \<or> r' = r\<lparr>ar_local_backoff_level := sat_add (ar_local_backoff_level r) 1\<rparr>"
  show ?thesis by (rule that(2) [OF _ panic(2)]) (simp add: apply_retryable_block_def panic(1))
qed

lemma apply_fixed_block_cases:
  obtains (ok) c where "apply_fixed_block E r now reason d
        = Returned (apply_block_transition r now (Timed c)) ()" "rb_reason c = reason"
  | (panic) "apply_fixed_block E r now reason d = Panicked r"
proof (cases "time_add E now d")
  case None
  show ?thesis by (rule panic) (simp add: apply_fixed_block_def None)
next
  case (Some t)
  show ?thesis by (rule ok, simp add: apply_fixed_block_def Some, simp_all)
qed

section \<open>Priority of blocks\<close>

lemma compare_block_priority_le:
  "compare_block_priority x y \<noteq> Greater \<longleftrightarrow>
     (case (snd x, snd y) of
        (Some s, Some t) \<Rightarrow>
          s < t \<or> s = t \<and> blocked_reason_rank (fst x) \<le> blocked_reason_rank (fst y)
      | (Some s, None) \<Rightarrow> True
      | (None, Some t) \<Rightarrow> False
      | (None, None) \<Rightarrow> blocked_reason_rank (fst x) \<le> blocked_reason_rank (fst y))"
  by (cases "snd x"; cases "snd y") (auto simp: compare_block_priority_def)

interpretation block_priority: preorder_cmp compare_block_priority
proof
  fix x y z :: "blocked_reason \<times> time option"
  show "compare_block_priority x x = Equal"
    by (cases "snd x") (simp_all add: compare_block_priority_def)
  show "compare_block_priority x y = Greater \<longleftrightarrow> compare_block_priority y x = Less"
    by (cases "snd x"; cases "snd y") (auto simp: compare_block_priority_def)
  show "compare_block_priority x y \<noteq> Greater \<Longrightarrow> compare_block_priority y z \<noteq> Greater
          \<Longrightarrow> compare_block_priority x z \<noteq> Greater"
    unfolding compare_block_priority_le
    by (cases "snd x"; cases "snd y"; cases "snd z") auto
qed

lemma blocked_reason_rank_inj: "blocked_reason_rank a = blocked_reason_rank b \<Longrightarrow> a = b"
  by (cases a; cases b) simp_all

lemma compare_block_priority_antisym:
  "compare_block_priority x y = Equal \<Longrightarrow> x = y"
  by (cases x; cases y; cases "snd x"; cases "snd y")
    (auto simp: compare_block_priority_def intro: blocked_reason_rank_inj)

declare apply_block_transition.simps(4) [simp del]

end
