(* ===== verification/Account_Files.thy ===== *)
theory Account_Files
  imports Account_Blocks
begin

text \<open>
  The names the account store gives to files and ids (\<open>src/accounts/mod.rs\<close>): the loop that finds a
  free name in the trash, the id derived from a refresh token, the normalisation of tokens.
\<close>

section \<open>Names in the trash\<close>

lemma digit_not_dash: "is_ascii_digit c \<Longrightarrow> c \<noteq> CHR ''-''"
  by (auto simp: is_ascii_digit_def)

lemma takeWhile_dash:
  assumes "CHR ''-'' \<notin> set t"
  shows "takeWhile (\<lambda>c. c \<noteq> CHR ''-'') (rev (s @ ''-'' @ t)) = rev t"
proof -
  have "takeWhile (\<lambda>c. c \<noteq> CHR ''-'') (rev t @ CHR ''-'' # rev s) = rev t"
    using assms by (subst takeWhile_append2) auto
  then show ?thesis by simp
qed

lemma after_dash_inj:
  assumes "s @ ''-'' @ t = s' @ ''-'' @ t'" "CHR ''-'' \<notin> set t" "CHR ''-'' \<notin> set t'"
  shows "t = t'"
  using takeWhile_dash [OF assms(2), of s] takeWhile_dash [OF assms(3), of s'] assms(1)
  by (metis rev_rev_ident)

lemma show_nat_no_dash: "CHR ''-'' \<notin> set (show_nat n)"
  using show_nat_digits [of n] digit_not_dash by (auto simp: list_all_iff)

lemma trash_candidate_inj:
  assumes "trash_candidate stamp dir orig a = trash_candidate stamp dir orig b" "a \<noteq> 0" "b \<noteq> 0"
  shows "a = b"
proof -
  define stem where "stem = (case file_stem orig of Some n \<Rightarrow> n | None \<Rightarrow> ''account'')"
  define pre where "pre k = stem @ ''-'' @ show_nat (stamp (unat k))" for k :: "64 word"
  have "pre a @ ''-'' @ (show_nat (unat a) @ ''.json'') = pre b @ ''-'' @ (show_nat (unat b) @ ''.json'')"
    using assms by (simp add: trash_candidate_def pre_def stem_def ACCOUNT_FILE_EXTENSION_def Let_def)
  then have "show_nat (unat a) @ ''.json'' = show_nat (unat b) @ ''.json''"
    by (rule after_dash_inj) (simp_all add: show_nat_no_dash)
  then show ?thesis by (simp add: show_nat_inj word_unat_eq_iff)
qed

lemma butlast_trash_candidate:
  "butlast (trash_candidate stamp dir orig a) = dir @ [TRASH_DIR_NAME]"
  by (simp add: trash_candidate_def Let_def butlast_append)

lemma unique_trash_path_loop_finds:
  assumes "\<not> exists (trash_candidate stamp dir orig (a + of_nat k))" "k < fuel"
    "unat a + k < 2 ^ 64"
  shows "\<exists>p. unique_trash_path_loop fuel exists stamp dir orig a = Some p \<and> \<not> exists p
           \<and> butlast p = dir @ [TRASH_DIR_NAME]"
  using assms
proof (induction fuel arbitrary: a k)
  case (Suc fuel)
  show ?case
  proof (cases "exists (trash_candidate stamp dir orig a)")
    case False
    then show ?thesis by (simp add: butlast_trash_candidate)
  next
    case True
    with Suc.prems obtain j where k: "k = Suc j" by (cases k) auto
    have "sat_add a 1 = a + 1"
      using Suc.prems(3) k by (simp add: sat_add_def)
    moreover have "unat (a + 1) = Suc (unat a)"
      using Suc.prems(3) k by (subst unat_word_ariths) (simp add: unat_word_ariths)
    ultimately show ?thesis
      using Suc.IH [of "a + 1" j] Suc.prems True k by (simp add: algebra_simps)
  qed
qed simp

text \<open>
  C22: the search for a free name in the trash returns: with \<open>n\<close> existing files, \<open>n + 2\<close> attempts are
  enough whatever the clock reads, and the path returned names no file and lies in the trash.
\<close>

theorem unique_trash_path_returns:
  assumes "finite {p. exists p}" "card {p. exists p} + 2 \<le> fuel" "card {p. exists p} + 1 < 2 ^ 64"
  shows "\<exists>p. unique_trash_path fuel exists stamp dir orig = Some p \<and> \<not> exists p
           \<and> butlast p = dir @ [TRASH_DIR_NAME]"
proof -
  let ?n = "card {p. exists p}"
  let ?c = "\<lambda>k. trash_candidate stamp dir orig (of_nat k)"
  have inj: "inj_on ?c {1..?n + 1}"
  proof (rule inj_onI)
    fix i j assume i: "i \<in> {1..?n + 1}" and j: "j \<in> {1..?n + 1}" and eq: "?c i = ?c j"
    have u: "unat (of_nat m :: 64 word) = m" if "m \<in> {1..?n + 1}" for m
      using that assms(3) by (simp add: unsigned_of_nat take_bit_nat_eq_self)
    have nz: "(of_nat m :: 64 word) \<noteq> 0" if "m \<in> {1..?n + 1}" for m
    proof
      assume "(of_nat m :: 64 word) = 0"
      then have "unat (of_nat m :: 64 word) = 0" by (simp only: unsigned_0)
      with u [OF that] that show False by simp
    qed
    have "(of_nat i :: 64 word) = of_nat j"
      by (rule trash_candidate_inj [OF eq nz [OF i] nz [OF j]])
    then have eq: "unat (of_nat i :: 64 word) = unat (of_nat j :: 64 word)" by (rule arg_cong)
    have "i = unat (of_nat i :: 64 word)" by (rule u [OF i, symmetric])
    also note eq
    also have "unat (of_nat j :: 64 word) = j" by (rule u [OF j])
    finally show "i = j" .
  qed
  have "card (?c ` {1..?n + 1}) = ?n + 1" using card_image [OF inj] by simp
  then have "\<not> ?c ` {1..?n + 1} \<subseteq> {p. exists p}"
    using card_mono [OF assms(1), of "?c ` {1..?n + 1}"] by linarith
  then obtain k where k: "k \<in> {1..?n + 1}" "\<not> exists (?c k)" by blast
  have "\<not> exists (trash_candidate stamp dir orig (0 + of_nat k))" using k(2) by simp
  moreover have "k < fuel" using k(1) assms(2) by auto
  moreover have "unat (0 :: 64 word) + k < 2 ^ 64" using k(1) assms(3) by auto
  ultimately show ?thesis
    unfolding unique_trash_path_def by (rule unique_trash_path_loop_finds)
qed

theorem unique_trash_path_returns_witness:
  "\<exists>p. unique_trash_path 3 (\<lambda>p. p = [''t'', ''a.json'']) (\<lambda>_. 7) [''t''] [''d'', ''a.json''] = Some p
       \<and> p \<noteq> [''t'', ''a.json''] \<and> butlast p = [''t'', ''trash'']"
  using unique_trash_path_returns
    [of "\<lambda>p. p = [''t'', ''a.json'']" 3 "\<lambda>_. 7" "[''t'']" "[''d'', ''a.json'']"]
  by (simp add: TRASH_DIR_NAME_def)

section \<open>Account ids\<close>

lemma hex_digit_inj: "a < 16 \<Longrightarrow> b < 16 \<Longrightarrow> hex_digit a = hex_digit b \<Longrightarrow> a = b"
  by (simp add: hex_digit_def split: if_splits)

lemma hex_byte_inj: "hex_byte a = hex_byte b \<longleftrightarrow> a = b"
proof
  assume eq: "hex_byte a = hex_byte b"
  have bound: "unat x < 256" for x :: "8 word" using unsigned_less [of x] by simp
  have "unat a div 16 = unat b div 16"
    using eq bound [of a] bound [of b]
    by (intro hex_digit_inj) (simp_all add: hex_byte_def less_mult_imp_div_less)
  moreover have "unat a mod 16 = unat b mod 16"
    using eq by (intro hex_digit_inj) (simp_all add: hex_byte_def)
  ultimately have "unat a = unat b" by (metis div_mult_mod_eq)
  then show "a = b" by (simp add: word_unat_eq_iff)
qed simp

lemma hex_bytes_inj:
  "length xs = length ys \<Longrightarrow> concat (map hex_byte xs) = concat (map hex_byte ys) \<longleftrightarrow> xs = ys"
proof (induction xs ys rule: list_induct2)
  case (Cons x xs y ys)
  have "hex_byte x @ s = hex_byte y @ t \<longleftrightarrow> x = y \<and> s = t" for s t
    using hex_byte_inj [of x y] by (auto simp: hex_byte_def)
  with Cons show ?case by simp
qed simp

lemma stable_account_id_length:
  "length (sha256 E t) = 32 \<Longrightarrow> length (stable_account_id E t) = 32"
proof -
  have "length (concat (map hex_byte bs)) = 2 * length bs" for bs
    by (induction bs) (simp_all add: hex_byte_def)
  then show "length (sha256 E t) = 32 \<Longrightarrow> length (stable_account_id E t) = 32"
    by (simp add: stable_account_id_def)
qed

lemma stable_account_id_eq:
  assumes "length (sha256 E t) = 32" "length (sha256 E u) = 32"
  shows "stable_account_id E t = stable_account_id E u
    \<longleftrightarrow> take 16 (sha256 E t) = take 16 (sha256 E u)"
  using assms by (simp add: stable_account_id_def hex_bytes_inj)

section \<open>Normalisation\<close>

lemma trim_with_suffix: "\<exists>pre. s = pre @ trim_with ws s"
proof (induction ws s rule: trim_with.induct)
  case (2 ws c s)
  show ?case
  proof (cases "find (\<lambda>w. w \<noteq> [] \<and> starts_with (c # s) w) ws")
    case (Some w)
    with 2 obtain pre where "drop (length w - 1) s = pre @ trim_with ws (drop (length w - 1) s)"
      by auto
    then have "c # s = (c # take (length w - 1) s @ pre) @ trim_with ws (drop (length w - 1) s)"
      by (metis append.assoc append_Cons append_take_drop_id)
    then show ?thesis unfolding trim_with.simps Some option.case by blast
  qed auto
qed simp

lemma trim_start_trim_end: "trim_start (trim_end (trim_start s)) = trim_end (trim_start s)"
proof -
  let ?u = "trim_end (trim_start s)"
  obtain pre where "rev (trim_start s) = pre @ trim_with (map rev white_space) (rev (trim_start s))"
    using trim_with_suffix by blast
  then have split: "trim_start s = ?u @ rev pre"
    unfolding trim_end_def by (metis rev_append rev_rev_ident)
  have "\<not> (w \<noteq> [] \<and> starts_with ?u w)" if "w \<in> set white_space" for w
    using trim_with_no_leading [OF that, of s] starts_with_append [of ?u w "rev pre"] split
    by (auto simp: trim_start_def)
  then have none: "find (\<lambda>w. w \<noteq> [] \<and> starts_with ?u w) white_space = None"
    by (auto simp: find_None_iff)
  show ?thesis
    unfolding trim_start_def [of ?u] using none by (cases ?u) simp_all
qed

lemma str_trim_idem [simp]: "str_trim (str_trim s) = str_trim s"
  unfolding str_trim_def trim_start_trim_end
  by (simp add: trim_end_def trim_with_idem)

lemma normalize_refresh_token_idem:
  "normalize_refresh_token t = Inr u \<Longrightarrow> normalize_refresh_token u = Inr u \<and> u \<noteq> []"
  by (auto simp: normalize_refresh_token_def Let_def split: if_splits)

end
