(* ===== verification/File_System.thy ===== *)
theory File_System
  imports Account_Files
begin

text \<open>
  The part of \<open>std::fs\<close> the account store uses, on a tree of files with modes. Every call can fail for
  a reason of its own (the file is missing, exists, is a directory) or through an injected fault, so
  that the theorems hold for every pattern of failures; since the code returns at the first failed
  call, a fault also stands for a crash before that call.
\<close>

datatype node = DirNode nat | FileNode string nat

type_synonym fs = "(path \<times> node) list"

datatype syscall =
  CreateDirAll path | SetPermissions path nat | RemoveFile path | CreateNew path nat
| WriteAll path string | SyncAll path | Rename path path | ReadDir path | ReadFile path

text \<open>
  A fault: the error text, and how much of the call took effect before it failed (bytes written,
  directories made).
\<close>

type_synonym faults = "syscall \<Rightarrow> fs \<Rightarrow> (string \<times> nat) option"

type_synonym 'a io = "fs \<times> (string + 'a)"

definition fs_exists :: "fs \<Rightarrow> path \<Rightarrow> bool" where
  "fs_exists fs p \<longleftrightarrow> p = [] \<or> map_of fs p \<noteq> None"

definition is_dir :: "fs \<Rightarrow> path \<Rightarrow> bool" where
  "is_dir fs p \<longleftrightarrow> p = [] \<or> (case map_of fs p of Some (DirNode m) \<Rightarrow> True | _ \<Rightarrow> False)"

definition is_file :: "fs \<Rightarrow> path \<Rightarrow> bool" where
  "is_file fs p \<longleftrightarrow> (case map_of fs p of Some (FileNode b m) \<Rightarrow> True | _ \<Rightarrow> False)"

definition read_of :: "fs \<Rightarrow> path \<Rightarrow> string option" where
  "read_of fs p = (case map_of fs p of Some (FileNode b m) \<Rightarrow> Some b | _ \<Rightarrow> None)"

definition missing_dirs :: "fs \<Rightarrow> path \<Rightarrow> path list" where
  "missing_dirs fs p =
     filter (\<lambda>q. \<not> fs_exists fs q) (map (\<lambda>n. take n p) [1..<Suc (length p)])"

text \<open>Modes: \<open>0o755\<close>, \<open>0o700\<close> and \<open>0o600\<close>.\<close>

definition default_dir_mode :: nat where "default_dir_mode = 493"

definition private_dir_mode :: nat where "private_dir_mode = 448"

definition private_file_mode :: nat where "private_file_mode = 384"

definition make_dirs :: "path list \<Rightarrow> fs \<Rightarrow> fs" where
  "make_dirs ps fs = foldl (\<lambda>fs q. AList.update q (DirNode default_dir_mode) fs) fs ps"

section \<open>Calls\<close>

fun io_bind :: "'a io \<Rightarrow> ('a \<Rightarrow> fs \<Rightarrow> 'b io) \<Rightarrow> 'b io" where
  "io_bind (fs, Inl e) k = (fs, Inl e)"
| "io_bind (fs, Inr a) k = k a fs"

text \<open>\<open>anyhow\<close>'s \<open>context\<close>: the text of the error becomes that of the context.\<close>

fun io_context :: "string \<Rightarrow> 'a io \<Rightarrow> 'a io" where
  "io_context c (fs, Inl e) = (fs, Inl c)"
| "io_context c (fs, Inr a) = (fs, Inr a)"

definition enoent :: string where "enoent = ''No such file or directory''"

definition eexist :: string where "eexist = ''File exists''"

definition enotdir :: string where "enotdir = ''Not a directory''"

definition eisdir :: string where "eisdir = ''Is a directory''"

definition sys_create_dir_all :: "faults \<Rightarrow> path \<Rightarrow> fs \<Rightarrow> unit io" where
  "sys_create_dir_all F p fs =
     (if list_ex (is_file fs) (map (\<lambda>n. take n p) [1..<Suc (length p)]) then (fs, Inl enotdir)
      else case F (CreateDirAll p) fs of
        Some (e, k) \<Rightarrow> (make_dirs (take k (missing_dirs fs p)) fs, Inl e)
      | None \<Rightarrow> (make_dirs (missing_dirs fs p) fs, Inr ()))"

definition with_mode :: "nat \<Rightarrow> node \<Rightarrow> node" where
  "with_mode m n = (case n of DirNode _ \<Rightarrow> DirNode m | FileNode b _ \<Rightarrow> FileNode b m)"

definition sys_set_permissions :: "faults \<Rightarrow> path \<Rightarrow> nat \<Rightarrow> fs \<Rightarrow> unit io" where
  "sys_set_permissions F p m fs =
     (case F (SetPermissions p m) fs of
        Some (e, _) \<Rightarrow> (fs, Inl e)
      | None \<Rightarrow>
          (case map_of fs p of
             Some n \<Rightarrow> (AList.update p (with_mode m n) fs, Inr ())
           | None \<Rightarrow> if p = [] then (fs, Inr ()) else (fs, Inl enoent)))"

definition sys_remove_file :: "faults \<Rightarrow> path \<Rightarrow> fs \<Rightarrow> unit io" where
  "sys_remove_file F p fs =
     (case F (RemoveFile p) fs of
        Some (e, _) \<Rightarrow> (fs, Inl e)
      | None \<Rightarrow>
          (case map_of fs p of
             Some (FileNode b m) \<Rightarrow> (AList.delete p fs, Inr ())
           | Some (DirNode m) \<Rightarrow> (fs, Inl eisdir)
           | None \<Rightarrow> (fs, Inl enoent)))"

definition sys_create_new :: "faults \<Rightarrow> path \<Rightarrow> nat \<Rightarrow> fs \<Rightarrow> unit io" where
  "sys_create_new F p m fs =
     (case F (CreateNew p m) fs of
        Some (e, _) \<Rightarrow> (fs, Inl e)
      | None \<Rightarrow>
          if fs_exists fs p then (fs, Inl eexist)
          else if \<not> is_dir fs (butlast p) then (fs, Inl enoent)
          else (AList.update p (FileNode [] m) fs, Inr ()))"

definition write_bytes :: "path \<Rightarrow> string \<Rightarrow> fs \<Rightarrow> fs" where
  "write_bytes p b fs =
     (case map_of fs p of
        Some (FileNode _ m) \<Rightarrow> AList.update p (FileNode b m) fs
      | _ \<Rightarrow> fs)"

definition sys_write_all :: "faults \<Rightarrow> path \<Rightarrow> string \<Rightarrow> fs \<Rightarrow> unit io" where
  "sys_write_all F p b fs =
     (case F (WriteAll p b) fs of
        Some (e, k) \<Rightarrow> (write_bytes p (take k b) fs, Inl e)
      | None \<Rightarrow> (write_bytes p b fs, Inr ()))"

definition sys_sync_all :: "faults \<Rightarrow> path \<Rightarrow> fs \<Rightarrow> unit io" where
  "sys_sync_all F p fs =
     (case F (SyncAll p) fs of Some (e, _) \<Rightarrow> (fs, Inl e) | None \<Rightarrow> (fs, Inr ()))"

text \<open>\<open>rename(2)\<close> of a file: atomic, replacing the target.\<close>

definition sys_rename :: "faults \<Rightarrow> path \<Rightarrow> path \<Rightarrow> fs \<Rightarrow> unit io" where
  "sys_rename F a b fs =
     (case F (Rename a b) fs of
        Some (e, _) \<Rightarrow> (fs, Inl e)
      | None \<Rightarrow>
          (case map_of fs a of
             None \<Rightarrow> (fs, Inl enoent)
           | Some n \<Rightarrow>
               if is_dir fs b then (fs, Inl eisdir)
               else if \<not> is_dir fs (butlast b) then (fs, Inl enoent)
               else (AList.update b n (AList.delete a fs), Inr ())))"

text \<open>The entries of a directory, in an order the system chooses.\<close>

definition sys_read_dir :: "faults \<Rightarrow> path \<Rightarrow> fs \<Rightarrow> path list io" where
  "sys_read_dir F p fs =
     (case F (ReadDir p) fs of
        Some (e, _) \<Rightarrow> (fs, Inl e)
      | None \<Rightarrow>
          if is_dir fs p
          then (fs, Inr (remdups (filter (\<lambda>q. q \<noteq> [] \<and> butlast q = p) (map fst fs))))
          else (fs, Inl enoent))"

definition sys_read_file :: "faults \<Rightarrow> path \<Rightarrow> fs \<Rightarrow> string io" where
  "sys_read_file F p fs =
     (case F (ReadFile p) fs of
        Some (e, _) \<Rightarrow> (fs, Inl e)
      | None \<Rightarrow>
          (case read_of fs p of Some b \<Rightarrow> (fs, Inr b) | None \<Rightarrow> (fs, Inl enoent)))"

section \<open>What the calls leave alone\<close>

named_theorems fs_frame \<open>nodes a call does not change\<close>

lemma map_of_make_dirs:
  "map_of (make_dirs ps fs) q = (if q \<in> set ps then Some (DirNode default_dir_mode) else map_of fs q)"
  by (induction ps arbitrary: fs) (auto simp: make_dirs_def AList.update_conv')

lemma missing_dirs_mem:
  "q \<in> set (missing_dirs fs p) \<Longrightarrow> \<not> fs_exists fs q \<and> length q \<le> length p \<and> take (length q) p = q"
  by (auto simp: missing_dirs_def)

lemma create_dir_all_frame [fs_frame]:
  assumes "fs_exists fs q \<or> length p < length q"
  shows "map_of (fst (sys_create_dir_all F p fs)) q = map_of fs q"
proof -
  have "q \<notin> set (take k (missing_dirs fs p))" for k
    using assms missing_dirs_mem [of q fs p] by (auto dest: in_set_takeD)
  moreover have "q \<notin> set (missing_dirs fs p)"
    using assms missing_dirs_mem [of q fs p] by auto
  ultimately show ?thesis
    by (simp add: sys_create_dir_all_def map_of_make_dirs split: option.split)
qed

lemma set_permissions_frame [fs_frame]:
  "q \<noteq> p \<Longrightarrow> map_of (fst (sys_set_permissions F p m fs)) q = map_of fs q"
  by (auto simp: sys_set_permissions_def AList.update_conv' split: option.splits)

lemma remove_file_frame [fs_frame]:
  "q \<noteq> p \<Longrightarrow> map_of (fst (sys_remove_file F p fs)) q = map_of fs q"
  by (simp add: sys_remove_file_def AList.delete_conv' split: option.split node.split)

lemma create_new_frame [fs_frame]:
  "q \<noteq> p \<Longrightarrow> map_of (fst (sys_create_new F p m fs)) q = map_of fs q"
  by (simp add: sys_create_new_def AList.update_conv' split: option.split)

lemma write_bytes_get:
  "map_of (write_bytes p b fs) q =
     (case map_of fs p of
        Some (FileNode b' m) \<Rightarrow> if q = p then Some (FileNode b m) else map_of fs q
      | _ \<Rightarrow> map_of fs q)"
  by (simp add: write_bytes_def AList.update_conv' split: option.split node.split)

lemma write_all_frame [fs_frame]:
  "q \<noteq> p \<Longrightarrow> map_of (fst (sys_write_all F p b fs)) q = map_of fs q"
  by (simp add: sys_write_all_def write_bytes_get split: option.split node.split)

lemma sync_all_frame [fs_frame, simp]: "fst (sys_sync_all F p fs) = fs"
  by (simp add: sys_sync_all_def split: option.split)

lemma rename_frame [fs_frame]:
  "q \<noteq> a \<Longrightarrow> q \<noteq> b \<Longrightarrow> map_of (fst (sys_rename F a b fs)) q = map_of fs q"
  by (simp add: sys_rename_def AList.update_conv' AList.delete_conv' split: option.split)

lemma rename_error: "snd (sys_rename F a b fs) = Inl e \<Longrightarrow> fst (sys_rename F a b fs) = fs"
  by (simp add: sys_rename_def split: option.splits if_splits prod.splits)

lemma rename_ok:
  "snd (sys_rename F a b fs) = Inr u \<Longrightarrow>
     map_of fs a \<noteq> None \<and> map_of (fst (sys_rename F a b fs)) b = map_of fs a"
  by (auto simp: sys_rename_def AList.update_conv' split: option.splits if_splits prod.splits)

lemma set_permissions_self:
  "map_of (fst (sys_set_permissions F p m fs)) p =
     (if snd (sys_set_permissions F p m fs) = Inr () then map_option (with_mode m) (map_of fs p)
      else map_of fs p)"
  by (auto simp: sys_set_permissions_def AList.update_conv' split: option.splits)

text \<open>A sequence keeps a property that every part keeps.\<close>

lemma io_bind_inv:
  assumes "P (fst x)" "\<And>a fs. x = (fs, Inr a) \<Longrightarrow> P fs \<Longrightarrow> P (fst (k a fs))"
  shows "P (fst (io_bind x k))"
proof -
  obtain fs v where x: "x = (fs, v)" by fastforce
  with assms show ?thesis by (cases v) auto
qed

lemma fst_io_context [simp]: "fst (io_context c x) = fst x"
proof -
  obtain fs v where "x = (fs, v)" by fastforce
  then show ?thesis by (cases v) auto
qed

lemma io_bind_eq_Inr:
  "io_bind x k = (fs', Inr b) \<longleftrightarrow> (\<exists>fs a. x = (fs, Inr a) \<and> k a fs = (fs', Inr b))"
proof -
  obtain fs v where "x = (fs, v)" by fastforce
  then show ?thesis by (cases v) auto
qed

lemma io_context_eq_Inr: "io_context c x = (fs', Inr a) \<longleftrightarrow> x = (fs', Inr a)"
proof -
  obtain fs v where "x = (fs, v)" by fastforce
  then show ?thesis by (cases v) auto
qed

end
