(* ===== verification/Account_Lifecycle.thy ===== *)
theory Account_Lifecycle
  imports Account_Files
begin

text \<open>
  \<open>src/accounts/lifecycle.rs\<close>: the operations that settle a request on an account. Each is a change
  of one record, wrapped in the lookup and the clean-up of detached records. One reading of the clock
  per operation, as in the code.
\<close>

section \<open>Clean-up\<close>

definition maybe_remove_detached :: "string \<Rightarrow> account_store \<Rightarrow> account_store" where
  "maybe_remove_detached aid st =
     (case records_get st aid of
        Some r \<Rightarrow>
          if ar_detached r \<and> ar_in_flight_requests r = 0 \<and> \<not> ar_refresh_in_flight r
          then records_remove aid st else st
      | None \<Rightarrow> st)"

definition ready_or_cold :: "account_record \<Rightarrow> routing_state" where
  "ready_or_cold r = (if ar_access_token r \<noteq> None then RsReady else RsCold)"

definition refresh_expired_record :: "time \<Rightarrow> account_record \<Rightarrow> account_record" where
  "refresh_expired_record now r =
     (let r1 =
        (case ar_blocked_until r of
           Some t \<Rightarrow>
             if t \<le> now then
               (let r0 = clear_block r
                in if ar_routing_state r0 \<noteq> RsAuthInvalid \<and> \<not> ar_refresh_in_flight r0
                   then r0\<lparr>ar_routing_state := ready_or_cold r0\<rparr> else r0)
             else r
         | None \<Rightarrow> r)
      in if ar_routing_state r1 = RsCold \<and> ar_access_token r1 \<noteq> None
         then r1\<lparr>ar_routing_state := RsReady\<rparr> else r1)"

definition refresh_expired_blocks :: "time \<Rightarrow> account_store \<Rightarrow> account_store" where
  "refresh_expired_blocks now st =
     st\<lparr>st_records := map (\<lambda>(k, r). (k, refresh_expired_record now r)) (st_records st)\<rparr>"

section \<open>Changes of one record\<close>

definition success_record :: "time \<Rightarrow> account_record \<Rightarrow> account_record" where
  "success_record now r =
     (let r1 = r\<lparr>ar_in_flight_requests := sat_sub (ar_in_flight_requests r) 1,
                 ar_refresh_in_flight := False\<rparr>;
          r2 = (if ar_routing_state r1 \<noteq> RsAuthInvalid \<and> \<not> has_active_block_at r1 now
                then r1\<lparr>ar_routing_state := ready_or_cold r1, ar_local_backoff_level := 0,
                        ar_last_error := None\<rparr>
                else r1)
      in r2\<lparr>ar_last_success_at := Some now\<rparr>)"

definition invalidate_record :: "time \<Rightarrow> account_record \<Rightarrow> account_record" where
  "invalidate_record now r =
     (let r1 = r\<lparr>ar_access_token := None, ar_access_token_expires_at := None,
                 ar_refresh_in_flight := False\<rparr>
      in if ar_routing_state r1 \<noteq> RsAuthInvalid \<and> \<not> has_active_block_at r1 now
         then r1\<lparr>ar_routing_state := RsCold\<rparr> else r1)"

definition release_record :: "time \<Rightarrow> account_record \<Rightarrow> account_record" where
  "release_record now r =
     (let r1 = r\<lparr>ar_in_flight_requests := sat_sub (ar_in_flight_requests r) 1,
                 ar_refresh_in_flight := False\<rparr>
      in if ar_routing_state r1 = RsWarming \<and> \<not> has_active_block_at r1 now
         then r1\<lparr>ar_routing_state := ready_or_cold r1\<rparr> else r1)"

definition failure_header :: "time \<Rightarrow> string \<Rightarrow> account_record \<Rightarrow> account_record" where
  "failure_header now details r =
     r\<lparr>ar_in_flight_requests := sat_sub (ar_in_flight_requests r) 1,
       ar_refresh_in_flight := False, ar_last_error_at := Some now, ar_last_error := Some details\<rparr>"

definition apply_failure_record ::
  "externals \<Rightarrow> time \<Rightarrow> failure_class \<Rightarrow> duration option \<Rightarrow> string \<Rightarrow> account_record
     \<Rightarrow> (account_record, unit) outcome" where
  "apply_failure_record E now failure retry_after details r =
     (let r = failure_header now details r in
      case failure of
        AccessTokenRejected \<Rightarrow>
          apply_fixed_block E
            (r\<lparr>ar_access_token := None, ar_access_token_expires_at := None,
               ar_routing_state := RsTemporarilyUnavailable\<rparr>)
            now BrTemporarilyUnavailable (TEMPORARY_FAILURE_COOLDOWN_SECONDS * 1000000000)
      | AuthInvalid \<Rightarrow>
          Returned (apply_auth_invalid_block
            (r\<lparr>ar_routing_state := RsAuthInvalid, ar_access_token := None,
               ar_access_token_expires_at := None\<rparr>)) ()
      | RateLimited \<Rightarrow>
          and_then (apply_retryable_block E r now BrRateLimited retry_after)
            (\<lambda>r _. Returned (r\<lparr>ar_routing_state := RsCooldown\<rparr>) ())
      | QuotaExhausted \<Rightarrow>
          and_then (apply_retryable_block E r now BrQuotaExhausted retry_after)
            (\<lambda>r _. Returned (r\<lparr>ar_routing_state := RsCooldown\<rparr>) ())
      | RiskControlled \<Rightarrow>
          apply_fixed_block E (r\<lparr>ar_routing_state := RsRiskControlled\<rparr>)
            now BrRiskControlled (RISK_COOLDOWN_SECONDS * 1000000000)
      | TemporaryFailure \<Rightarrow>
          (let r = r\<lparr>ar_routing_state := RsTemporarilyUnavailable\<rparr>
           in if retry_after \<noteq> None
              then apply_retryable_block E r now BrTemporarilyUnavailable retry_after
              else apply_fixed_block E r now BrTemporarilyUnavailable
                     (TEMPORARY_FAILURE_COOLDOWN_SECONDS * 1000000000))
      | _ \<Rightarrow>
          (let r = apply_block_transition r now NoChange
           in Returned
                (if \<not> has_active_block_at r now \<and> ar_routing_state r \<noteq> RsAuthInvalid
                 then r\<lparr>ar_routing_state := ready_or_cold r\<rparr> else r) ()))"

definition refresh_success_record ::
  "time \<Rightarrow> refreshed_account \<Rightarrow> account_record \<Rightarrow> account_record" where
  "refresh_success_record now refreshed r =
     (let r1 = r\<lparr>ar_access_token := Some (ra_access_token refreshed),
                 ar_refresh_token := (case ra_refresh_token refreshed of
                    Some t \<Rightarrow> t | None \<Rightarrow> ar_refresh_token r),
                 ar_account_id := opt_or (ra_account_id refreshed) (ar_account_id r),
                 ar_plan_type := opt_or (ra_plan_type refreshed) (ar_plan_type r),
                 ar_email := opt_or (ra_email refreshed) (ar_email r),
                 ar_access_token_expires_at := ra_access_token_expires_at refreshed,
                 ar_last_refresh_at := Some now, ar_refresh_in_flight := False\<rparr>
      in if \<not> has_active_block_at r1 now
         then (clear_block (r1\<lparr>ar_routing_state := RsReady\<rparr>))
                \<lparr>ar_local_backoff_level := 0, ar_last_error := None\<rparr>
         else r1)"

definition prepare_auth_invalid_record :: "time \<Rightarrow> string \<Rightarrow> account_record \<Rightarrow> account_record" where
  "prepare_auth_invalid_record now details r =
     (apply_auth_invalid_block
       ((failure_header now details r)
          \<lparr>ar_access_token := None, ar_access_token_expires_at := None,
            ar_routing_state := RsAuthInvalid\<rparr>))
       \<lparr>ar_auth_invalid_tombstone := True\<rparr>"

definition finalize_auth_invalid_record :: "account_record \<Rightarrow> account_record" where
  "finalize_auth_invalid_record r =
     (apply_auth_invalid_block
       (r\<lparr>ar_routing_state := RsAuthInvalid, ar_access_token := None,
          ar_access_token_expires_at := None\<rparr>))
       \<lparr>ar_auth_invalid_tombstone := True, ar_detached := True\<rparr>"

definition note_trash_failure_record :: "time \<Rightarrow> string \<Rightarrow> account_record \<Rightarrow> account_record" where
  "note_trash_failure_record now error r =
     (let suffix = ''move invalid account file to trash failed: '' @ error;
          next_error = (case ar_last_error r of
             Some current \<Rightarrow>
               if str_contains current suffix then current else current @ ''; '' @ suffix
           | None \<Rightarrow> suffix)
      in r\<lparr>ar_last_error := Some next_error, ar_last_error_at := Some now\<rparr>)"

section \<open>Operations of the store\<close>

definition unknown_account :: "string \<Rightarrow> string" where
  "unknown_account aid = ''unknown account '' @ aid"

definition wake_account ::
  "string \<Rightarrow> account_store \<Rightarrow> account_store \<times> (string + wake_account_result)" where
  "wake_account aid st =
     (case records_get st aid of
        None \<Rightarrow> (st, Inl (unknown_account aid))
      | Some r \<Rightarrow>
          (let (r', d) = apply_wake r
           in (records_insert aid r' st,
               Inr \<lparr>war_disposition = d, war_account = account_view_from r'\<rparr>)))"

fun wake_all_loop :: "string list \<Rightarrow> account_store \<Rightarrow> wake_all_result
    \<Rightarrow> account_store \<times> wake_all_result" where
  "wake_all_loop [] st acc = (st, acc)"
| "wake_all_loop (aid # ids) st acc =
     (case records_get st aid of
        None \<Rightarrow> wake_all_loop ids st acc
      | Some r \<Rightarrow>
          (let (r', d) = apply_wake r;
               acc' = acc\<lparr>wr_woken := wr_woken acc + (case d of Woken \<Rightarrow> 1 | SkippedAuthInvalid \<Rightarrow> 0),
                          wr_skipped_auth_invalid := wr_skipped_auth_invalid acc
                            + (case d of Woken \<Rightarrow> 0 | SkippedAuthInvalid \<Rightarrow> 1),
                          wr_accounts := wr_accounts acc
                            @ [\<lparr>war_disposition = d, war_account = account_view_from r'\<rparr>]\<rparr>
           in wake_all_loop ids (records_insert aid r' st) acc'))"

definition wake_all_accounts :: "account_store \<Rightarrow> account_store \<times> wake_all_result" where
  "wake_all_accounts st =
     wake_all_loop (sort (map fst (st_records st))) st
       \<lparr>wr_woken = 0, wr_skipped_auth_invalid = 0, wr_accounts = []\<rparr>"

definition mark_request_success :: "time \<Rightarrow> string \<Rightarrow> account_store \<Rightarrow> account_store" where
  "mark_request_success now aid st =
     (case records_get st aid of
        None \<Rightarrow> st
      | Some r \<Rightarrow> maybe_remove_detached aid (records_insert aid (success_record now r) st))"

definition invalidate_access_token :: "time \<Rightarrow> string \<Rightarrow> account_store \<Rightarrow> account_store" where
  "invalidate_access_token now aid st =
     (case records_get st aid of
        None \<Rightarrow> st
      | Some r \<Rightarrow> maybe_remove_detached aid (records_insert aid (invalidate_record now r) st))"

definition release_selection :: "time \<Rightarrow> string \<Rightarrow> account_store \<Rightarrow> account_store" where
  "release_selection now aid st =
     maybe_remove_detached aid
       (case records_get st aid of
          None \<Rightarrow> st
        | Some r \<Rightarrow> records_insert aid (release_record now r) st)"

definition upstream_account_of ::
  "account_store \<Rightarrow> string \<Rightarrow> upstream_account_error + upstream_account" where
  "upstream_account_of st aid =
     (case records_get st aid of
        None \<Rightarrow> Inl MissingRecord
      | Some r \<Rightarrow>
          (case ar_access_token r of
             None \<Rightarrow> Inl MissingAccessToken
           | Some t \<Rightarrow> Inr \<lparr>ua_access_token = t, ua_chatgpt_account_id = ar_account_id r\<rparr>))"

definition view :: "account_store \<Rightarrow> string \<Rightarrow> string + account_view" where
  "view st aid =
     (case records_get st aid of
        None \<Rightarrow> Inl (unknown_account aid)
      | Some r \<Rightarrow> Inr (account_view_from r))"

definition apply_failure ::
  "externals \<Rightarrow> time \<Rightarrow> string \<Rightarrow> failure_class \<Rightarrow> duration option \<Rightarrow> string \<Rightarrow> account_store
     \<Rightarrow> (account_store, unit) outcome" where
  "apply_failure E now aid failure retry_after details st =
     (case records_get st aid of
        None \<Rightarrow> Returned st ()
      | Some r \<Rightarrow>
          and_then
            (map_state (\<lambda>r'. records_insert aid r' st)
               (apply_failure_record E now failure retry_after details r))
            (\<lambda>st' _. Returned (maybe_remove_detached aid st') ()))"

definition mark_request_failure ::
  "externals \<Rightarrow> time \<Rightarrow> string \<Rightarrow> failure_class \<Rightarrow> duration option \<Rightarrow> string \<Rightarrow> account_store
     \<Rightarrow> (account_store, unit) outcome" where
  "mark_request_failure E now aid failure retry_after details st =
     apply_failure E now aid failure retry_after details st"

definition finish_refresh_success_without_persist ::
  "time \<Rightarrow> string \<Rightarrow> refreshed_account \<Rightarrow> account_store
     \<Rightarrow> account_store \<times> (string + account_disk_op option)" where
  "finish_refresh_success_without_persist now aid refreshed st =
     (case records_get st aid of
        None \<Rightarrow> (st, Inl (unknown_account aid))
      | Some r \<Rightarrow>
          (let r' = refresh_success_record now refreshed r;
               persist_op = (if \<not> ar_detached r'
                  then Some (OpWrite (ar_file_path r') (account_file_from_record r')) else None)
           in (maybe_remove_detached aid (records_insert aid r' st), Inr persist_op)))"

definition prepare_auth_invalid_failure ::
  "time \<Rightarrow> string \<Rightarrow> string \<Rightarrow> account_store \<Rightarrow> account_store \<times> (string + auth_invalid_plan)" where
  "prepare_auth_invalid_failure now aid details st =
     (case records_get st aid of
        None \<Rightarrow> (st, Inl (unknown_account aid))
      | Some r \<Rightarrow>
          (let r' = prepare_auth_invalid_record now details r;
               trash_op = (if ar_detached r' then None
                  else Some (OpMoveToTrash (ar_file_path r') (st_accounts_dir st)))
           in (records_insert aid r' st,
               Inr \<lparr>aip_account_id = aid, aip_trash_op = trash_op\<rparr>)))"

definition finalize_auth_invalid_failure ::
  "string \<Rightarrow> account_store \<Rightarrow> account_store \<times> (string + unit)" where
  "finalize_auth_invalid_failure aid st =
     (case records_get st aid of
        None \<Rightarrow> (st, Inl (unknown_account aid))
      | Some r \<Rightarrow>
          (maybe_remove_detached aid (records_insert aid (finalize_auth_invalid_record r) st),
           Inr ()))"

definition note_auth_invalid_trash_failure ::
  "time \<Rightarrow> string \<Rightarrow> string \<Rightarrow> account_store \<Rightarrow> account_store" where
  "note_auth_invalid_trash_failure now aid error st =
     (case records_get st aid of
        None \<Rightarrow> st
      | Some r \<Rightarrow> records_insert aid (note_trash_failure_record now error r) st)"

text \<open>
  \<open>run_op\<close> is \<open>execute_account_disk_op\<close> on the file system of the caller: an error text or success.
  The two clock readings are those of the preparation and of a failed move.
\<close>

definition finish_refresh_failure ::
  "externals \<Rightarrow> (account_disk_op \<Rightarrow> 'fs \<Rightarrow> 'fs \<times> (string + unit)) \<Rightarrow> time \<Rightarrow> time \<Rightarrow> string
     \<Rightarrow> failure_class \<Rightarrow> duration option \<Rightarrow> string \<Rightarrow> account_store \<times> 'fs
     \<Rightarrow> (account_store \<times> 'fs, string + unit) outcome" where
  "finish_refresh_failure E run_op now now' aid failure retry_after details s =
     (case s of (st, fs) \<Rightarrow>
      if failure = AuthInvalid then
        (case prepare_auth_invalid_failure now aid details st of
           (st1, Inl e) \<Rightarrow> Returned (st1, fs) (Inl e)
         | (st1, Inr plan) \<Rightarrow>
             (case map_option (\<lambda>op. run_op op fs) (aip_trash_op plan) of
                Some (fs1, Inl e) \<Rightarrow>
                  Returned (note_auth_invalid_trash_failure now' (aip_account_id plan) e st1, fs1)
                    (Inr ())
              | r \<Rightarrow>
                  (let fs1 = (case r of Some (fs1, _) \<Rightarrow> fs1 | None \<Rightarrow> fs);
                       (st2, res) = finalize_auth_invalid_failure (aip_account_id plan) st1
                   in Returned (st2, fs1) res)))
      else
        and_then (map_state (\<lambda>st'. (st', fs)) (apply_failure E now aid failure retry_after details st))
          (\<lambda>s' _. Returned s' (Inr ())))"

end
