(* ===== verification/Account_Selection.thy ===== *)
theory Account_Selection
  imports Account_Lifecycle "HOL-Library.Multiset"
begin

text \<open>
  \<open>src/accounts/selection.rs\<close>: listing the accounts, selecting one for a request, and summarising
  why none can be selected.
\<close>

section \<open>The code\<close>

text \<open>
  The readings of the clock during one \<open>select_account\<close>: by \<open>refresh_expired_blocks\<close>, by
  \<open>is_eligible\<close> for each record, for \<open>last_selected_at\<close>, and by \<open>token_needs_refresh\<close>.
\<close>

record select_clock =
  ck_expire :: time
  ck_eligible :: "string \<Rightarrow> time"
  ck_selected :: time
  ck_token :: time

definition list_accounts :: "time \<Rightarrow> account_store \<Rightarrow> account_store \<times> account_view list" where
  "list_accounts now st =
     (let st' = refresh_expired_blocks now st
      in (st', sort_key av_id (map account_view_from (store_values st'))))"

definition is_eligible :: "time \<Rightarrow> account_record \<Rightarrow> bool" where
  "is_eligible now r \<longleftrightarrow>
     \<not> ar_detached r \<and> \<not> ar_refresh_in_flight r \<and> ar_routing_state r \<noteq> RsAuthInvalid
     \<and> (case ar_blocked_until r of None \<Rightarrow> True | Some t \<Rightarrow> t \<le> now)"

definition build_route_candidates ::
  "(string \<Rightarrow> time) \<Rightarrow> string set \<Rightarrow> account_store \<Rightarrow> route_candidate list" where
  "build_route_candidates now excluded st =
     sort_key rc_account_id
       (map (\<lambda>r. \<lparr>rc_account_id = ar_id r, rc_in_flight_requests = ar_in_flight_requests r,
                  rc_last_selected_at = ar_last_selected_at r\<rparr>)
         (filter (\<lambda>r. is_eligible (now (ar_id r)) r \<and> ar_id r \<notin> excluded) (store_values st)))"

definition mark_selected :: "time \<Rightarrow> account_record \<Rightarrow> account_record" where
  "mark_selected now r =
     r\<lparr>ar_in_flight_requests := sat_add (ar_in_flight_requests r) 1,
       ar_last_selected_at := Some now\<rparr>"

definition mark_warming :: "account_record \<Rightarrow> account_record" where
  "mark_warming r = r\<lparr>ar_routing_state := RsWarming, ar_refresh_in_flight := True\<rparr>"

definition select_account ::
  "externals \<Rightarrow> select_clock \<Rightarrow> routing_policy \<Rightarrow> int \<Rightarrow> string set \<Rightarrow> account_store
     \<Rightarrow> (account_store, selection_failure + account_selection) outcome" where
  "select_account E ck policy skew excluded st0 =
     (let st1 = refresh_expired_blocks (ck_expire ck) st0;
          candidates = build_route_candidates (ck_eligible ck) excluded st1;
          (picked, cursor) = select_candidate policy candidates (st_round_robin_cursor st1);
          st2 = st1\<lparr>st_round_robin_cursor := cursor\<rparr>
      in case picked of
           None \<Rightarrow> Returned st2 (Inl NoEligibleAccount)
         | Some account_id \<Rightarrow>
             (case records_get st2 account_id of
                None \<Rightarrow> Returned st2 (Inl (InternalSelection ''selected account disappeared''))
              | Some r \<Rightarrow>
                  (let r1 = mark_selected (ck_selected ck) r
                   in case token_needs_refresh E r1 skew (ck_token ck) of
                        None \<Rightarrow> Panicked (records_insert account_id r1 st2)
                      | Some needs_refresh \<Rightarrow>
                          (let r2 = (if needs_refresh then mark_warming r1 else r1)
                           in Returned (records_insert account_id r2 st2)
                                (Inr \<lparr>sel_account_id = account_id,
                                      sel_refresh_token = ar_refresh_token r2,
                                      sel_needs_refresh = needs_refresh\<rparr>)))))"

definition routeable :: "string set \<Rightarrow> account_record \<Rightarrow> bool" where
  "routeable excluded r \<longleftrightarrow>
     \<not> ar_detached r \<and> ar_routing_state r \<noteq> RsAuthInvalid \<and> ar_id r \<notin> excluded"

text \<open>
  The second reading is \<open>now\<close>; \<open>until - now\<close> is no standard duration when negative. The inner
  \<open>option\<close> of the value is the code's; the panic is that of \<open>now + 1 s\<close>.
\<close>

definition summarize_selection_failure ::
  "externals \<Rightarrow> time \<Rightarrow> time \<Rightarrow> string set \<Rightarrow> account_store
     \<Rightarrow> (account_store, pool_block_summary option) outcome" where
  "summarize_selection_failure E now0 now excluded st0 =
     (let st = refresh_expired_blocks now0 st0;
          rs = filter (routeable excluded) (store_values st)
      in if rs = [] then Returned st None
         else if list_ex (\<lambda>r. \<not> ar_refresh_in_flight r \<and> \<not> has_active_block_at r now) rs
         then Returned st None
         else if list_ex ar_refresh_in_flight rs
         then (case Option.bind (duration_from_std E (from_secs 1)) (time_add E now) of
                 None \<Rightarrow> Panicked st
               | Some t \<Rightarrow>
                   Returned st (Some \<lparr>pbs_blocked_reason = BrTemporarilyUnavailable,
                     pbs_blocked_until = Some t, pbs_retry_after = Some (from_secs 1)\<rparr>))
         else Returned st
           (map_option
             (\<lambda>(reason, until). \<lparr>pbs_blocked_reason = reason, pbs_blocked_until = until,
                pbs_retry_after = Option.bind until
                  (\<lambda>t. if now \<le> t then Some (nat (t - now)) else None)\<rparr>)
             (min_by compare_block_priority
               (List.map_filter
                 (\<lambda>r. map_option (\<lambda>reason. (reason, ar_blocked_until r)) (ar_blocked_reason r))
                 (filter (\<lambda>r. \<not> ar_refresh_in_flight r) rs)))))"

section \<open>The expiry of blocks\<close>

lemma ready_or_cold_cases [simp]:
  "ready_or_cold r \<noteq> RsAuthInvalid" "ready_or_cold r \<noteq> RsWarming"
  "RsAuthInvalid \<noteq> ready_or_cold r"
  "ready_or_cold r = RsCold \<longleftrightarrow> ar_access_token r = None"
  by (simp_all add: ready_or_cold_def)

lemma refresh_expired_record_keeps [simp]:
  "ar_id (refresh_expired_record now r) = ar_id r"
  "ar_file_path (refresh_expired_record now r) = ar_file_path r"
  "ar_label (refresh_expired_record now r) = ar_label r"
  "ar_email (refresh_expired_record now r) = ar_email r"
  "ar_refresh_token (refresh_expired_record now r) = ar_refresh_token r"
  "ar_access_token (refresh_expired_record now r) = ar_access_token r"
  "ar_account_id (refresh_expired_record now r) = ar_account_id r"
  "ar_plan_type (refresh_expired_record now r) = ar_plan_type r"
  "ar_access_token_expires_at (refresh_expired_record now r) = ar_access_token_expires_at r"
  "ar_last_refresh_at (refresh_expired_record now r) = ar_last_refresh_at r"
  "ar_local_backoff_level (refresh_expired_record now r) = ar_local_backoff_level r"
  "ar_refresh_in_flight (refresh_expired_record now r) = ar_refresh_in_flight r"
  "ar_in_flight_requests (refresh_expired_record now r) = ar_in_flight_requests r"
  "ar_last_selected_at (refresh_expired_record now r) = ar_last_selected_at r"
  "ar_last_success_at (refresh_expired_record now r) = ar_last_success_at r"
  "ar_last_error_at (refresh_expired_record now r) = ar_last_error_at r"
  "ar_last_error (refresh_expired_record now r) = ar_last_error r"
  "ar_auth_invalid_tombstone (refresh_expired_record now r) = ar_auth_invalid_tombstone r"
  "ar_detached (refresh_expired_record now r) = ar_detached r"
  by (cases "ar_blocked_until r", simp_all add: refresh_expired_record_def Let_def)+

lemma refresh_expired_record_auth_invalid [simp]:
  "ar_routing_state (refresh_expired_record now r) = RsAuthInvalid
   \<longleftrightarrow> ar_routing_state r = RsAuthInvalid"
  by (cases "ar_blocked_until r") (simp_all add: refresh_expired_record_def Let_def)

lemma refresh_expired_record_until [simp]:
  "ar_blocked_until (refresh_expired_record now r) =
     (case ar_blocked_until r of Some t \<Rightarrow> if t \<le> now then None else Some t | None \<Rightarrow> None)"
  by (cases "ar_blocked_until r") (simp_all add: refresh_expired_record_def Let_def)

lemma refresh_expired_record_reason:
  "ar_blocked_until (refresh_expired_record now r) \<noteq> None
     \<Longrightarrow> ar_blocked_reason (refresh_expired_record now r) = ar_blocked_reason r"
  by (cases "ar_blocked_until r") (auto simp: refresh_expired_record_def Let_def split: if_splits)

lemma block_consistent_refresh_expired [simp]:
  "block_consistent r \<Longrightarrow> block_consistent (refresh_expired_record now r)"
  by (cases "ar_blocked_until r")
    (simp_all add: refresh_expired_record_def Let_def block_consistent_def)

lemma refresh_expired_record_strength:
  "now \<le> t \<Longrightarrow> block_strength_at t (refresh_expired_record now r) = block_strength_at t r"
  by (cases "ar_blocked_until r")
    (simp_all add: refresh_expired_record_def Let_def block_strength_at_def until_strength_def)

lemma refresh_expired_blocks_simps [simp]:
  "st_accounts_dir (refresh_expired_blocks now st) = st_accounts_dir st"
  "st_round_robin_cursor (refresh_expired_blocks now st) = st_round_robin_cursor st"
  "store_values (refresh_expired_blocks now st)
   = map (refresh_expired_record now) (store_values st)"
  by (simp_all add: refresh_expired_blocks_def store_values_def case_prod_unfold)

lemma records_get_refresh_expired [simp]:
  "records_get (refresh_expired_blocks now st) k
   = map_option (refresh_expired_record now) (records_get st k)"
  by (simp add: records_get_def refresh_expired_blocks_def map_of_map)

lemma wf_refresh_expired [simp, intro]: "wf_store st \<Longrightarrow> wf_store (refresh_expired_blocks now st)"
  by (auto simp: wf_store_def refresh_expired_blocks_def case_prod_unfold comp_def)

lemma is_eligible_iff:
  "is_eligible now r \<longleftrightarrow>
     \<not> ar_detached r \<and> \<not> ar_refresh_in_flight r \<and> ar_routing_state r \<noteq> RsAuthInvalid
     \<and> (block_strength_at now r = Unblocked \<or> ar_blocked_until r = None)"
  by (auto simp: is_eligible_def block_strength_at_def until_strength_def split: option.splits)

lemma is_eligible_refresh_expired [simp]:
  "now0 \<le> now \<Longrightarrow> is_eligible now (refresh_expired_record now0 r) = is_eligible now r"
  by (auto simp: is_eligible_def split: option.splits)

section \<open>Candidates\<close>

lemma sort_key_perm_eq:
  assumes "mset xs = mset ys" "inj_on f (set xs)"
  shows "sort_key f xs = sort_key f ys"
proof (rule properties_for_sort_key)
  show "mset (sort_key f ys) = mset xs" by (simp add: assms(1))
  show "sorted (map f (sort_key f ys))" by simp
  fix k assume k: "k \<in> set (sort_key f ys)"
  have set: "set ys = set xs" using assms(1) by (metis set_mset_mset)
  have *: "filter (\<lambda>x. f k = f x) zs = filter (\<lambda>x. x = k) zs" if "set zs = set xs" for zs
    using assms(2) k set that by (intro filter_cong refl) (auto dest: inj_onD)
  have "filter (\<lambda>x. f k = f x) (sort_key f ys) = filter (\<lambda>x. x = k) (sort_key f ys)"
    by (rule *) (simp add: set)
  also have "\<dots> = filter (\<lambda>x. x = k) xs"
  proof -
    have "filter (\<lambda>x. x = k) zs = replicate (count (mset zs) k) k" for zs
      by (induction zs) auto
    then show ?thesis by (simp add: assms(1))
  qed
  also have "\<dots> = filter (\<lambda>x. f k = f x) xs" by (rule * [symmetric]) (simp add: set)
  finally show "filter (\<lambda>x. f k = f x) (sort_key f ys) = filter (\<lambda>x. f k = f x) xs" .
qed

end
