(* ===== verification/Account_Routing.thy ===== *)
theory Account_Routing
  imports Account_Selection
begin

text \<open>
  What account selection promises (\<open>src/accounts/selection.rs\<close>): the account returned is eligible,
  an account is returned whenever one is eligible, the order of the hash map has no influence, and
  the advice given when nothing can be selected is exact.
\<close>

section \<open>Shape of a selection\<close>

definition route_candidate_of :: "account_record \<Rightarrow> route_candidate" where
  "route_candidate_of r =
     \<lparr>rc_account_id = ar_id r, rc_in_flight_requests = ar_in_flight_requests r,
      rc_last_selected_at = ar_last_selected_at r\<rparr>"

lemma rc_account_id_of [simp]: "rc_account_id (route_candidate_of r) = ar_id r"
  by (simp add: route_candidate_of_def)

lemma candidates_eq:
  "build_route_candidates now excluded st =
     sort_key rc_account_id (map route_candidate_of
       (filter (\<lambda>r. is_eligible (now (ar_id r)) r \<and> ar_id r \<notin> excluded) (store_values st)))"
  by (simp add: build_route_candidates_def route_candidate_of_def [abs_def])

lemma candidate_ids:
  assumes "wf_store st"
  shows "rc_account_id ` set (build_route_candidates now excluded st) =
    {k. k \<notin> excluded \<and> (\<exists>r. records_get st k = Some r \<and> is_eligible (now k) r)}"
proof -
  let ?S = "{r \<in> set (store_values st). is_eligible (now (ar_id r)) r \<and> ar_id r \<notin> excluded}"
  have "rc_account_id ` set (build_route_candidates now excluded st) = ar_id ` ?S"
    unfolding candidates_eq set_sort set_map image_image rc_account_id_of set_filter by (rule refl)
  also have "\<dots> = {k. k \<notin> excluded \<and> (\<exists>r. records_get st k = Some r \<and> is_eligible (now k) r)}"
  proof (intro set_eqI iffI)
    fix k assume "k \<in> ar_id ` ?S"
    then obtain r where "r \<in> set (store_values st)" "is_eligible (now k) r" "k \<notin> excluded" "k = ar_id r"
      by auto
    moreover from this have "records_get st k = Some r" using wf_mem [OF assms] by simp
    ultimately show "k \<in> {k. k \<notin> excluded \<and>
        (\<exists>r. records_get st k = Some r \<and> is_eligible (now k) r)}" by blast
  next
    fix k assume "k \<in> {k. k \<notin> excluded \<and> (\<exists>r. records_get st k = Some r \<and> is_eligible (now k) r)}"
    then obtain r where r: "k \<notin> excluded" "records_get st k = Some r" "is_eligible (now k) r" by auto
    with wf_get [OF assms r(2)] wf_values [OF assms r(2)] have "r \<in> ?S" "ar_id r = k" by simp_all
    then show "k \<in> ar_id ` ?S" by blast
  qed
  finally show ?thesis .
qed

lemma map_ar_id_values: "wf_store st \<Longrightarrow> map ar_id (store_values st) = map fst (st_records st)"
  unfolding wf_store_def store_values_def by auto

lemma distinct_store_ids: "wf_store st \<Longrightarrow> distinct (map ar_id (store_values st))"
  using map_ar_id_values by (simp add: wf_store_def)

lemma records_get_cursor [simp]:
  "records_get (st\<lparr>st_round_robin_cursor := c\<rparr>) = records_get st"
  by (rule ext) (simp add: records_get_def)

lemma wf_cursor [simp]: "wf_store (st\<lparr>st_round_robin_cursor := c\<rparr>) = wf_store st"
  by (simp add: wf_store_def)

lemma select_candidate_id:
  "fst (select_candidate policy cs c) = Some k \<Longrightarrow> k \<in> rc_account_id ` set cs"
  by (rule sel.pick_mem)

lemma mark_keeps [simp]:
  "ar_id (mark_selected t r) = ar_id r" "ar_id (mark_warming r) = ar_id r"
  "ar_refresh_token (mark_selected t r) = ar_refresh_token r"
  "ar_refresh_token (mark_warming r) = ar_refresh_token r"
  "ar_in_flight_requests (mark_selected t r) = sat_add (ar_in_flight_requests r) 1"
  "ar_in_flight_requests (mark_warming r) = ar_in_flight_requests r"
  by (simp_all add: mark_selected_def mark_warming_def)

text \<open>The shape of every outcome of a selection.\<close>

lemma select_account_cases:
  assumes wf: "wf_store st"
  obtains (none) st2 where
      "select_account E ck policy skew excluded st = Returned st2 (Inl NoEligibleAccount)"
      "wf_store st2" "st_accounts_dir st2 = st_accounts_dir st"
      "records_get st2 = records_get (refresh_expired_blocks (ck_expire ck) st)"
      "build_route_candidates (ck_eligible ck) excluded (refresh_expired_blocks (ck_expire ck) st) = []"
  | (picked) st2 k r where
      "wf_store st2" "st_accounts_dir st2 = st_accounts_dir st"
      "records_get st2 = records_get (refresh_expired_blocks (ck_expire ck) st)"
      "k \<notin> excluded" "records_get (refresh_expired_blocks (ck_expire ck) st) k = Some r"
      "is_eligible (ck_eligible ck k) r"
      "select_account E ck policy skew excluded st =
         (case token_needs_refresh E (mark_selected (ck_selected ck) r) skew (ck_token ck) of
            None \<Rightarrow> Panicked (records_insert k (mark_selected (ck_selected ck) r) st2)
          | Some b \<Rightarrow>
              Returned (records_insert k
                  (if b then mark_warming (mark_selected (ck_selected ck) r)
                   else mark_selected (ck_selected ck) r) st2)
                (Inr \<lparr>sel_account_id = k, sel_refresh_token = ar_refresh_token r,
                      sel_needs_refresh = b\<rparr>))"
proof -
  define st1 where "st1 = refresh_expired_blocks (ck_expire ck) st"
  define cs where "cs = build_route_candidates (ck_eligible ck) excluded st1"
  define st2 where "st2 = st1\<lparr>st_round_robin_cursor :=
                      snd (select_candidate policy cs (st_round_robin_cursor st1))\<rparr>"
  have st2: "wf_store st2" "st_accounts_dir st2 = st_accounts_dir st"
      "records_get st2 = records_get st1"
    using wf by (simp_all add: st2_def st1_def)
  show ?thesis
  proof (cases "fst (select_candidate policy cs (st_round_robin_cursor st1))")
    case None
    then have "cs = []" by (simp only: sel.pick_None)
    moreover from None
    have "select_account E ck policy skew excluded st = Returned st2 (Inl NoEligibleAccount)"
      by (simp add: select_account_def Let_def case_prod_unfold flip: st1_def cs_def st2_def)
    ultimately show ?thesis using none st2 by (simp add: st1_def cs_def)
  next
    case (Some k)
    have "k \<in> rc_account_id ` set cs" by (rule select_candidate_id [OF Some])
    then obtain r where r: "k \<notin> excluded" "records_get st1 k = Some r"
        "is_eligible (ck_eligible ck k) r"
      unfolding cs_def using candidate_ids [of st1 "ck_eligible ck" excluded] wf
      by (auto simp: st1_def)
    have "select_account E ck policy skew excluded st =
         (case token_needs_refresh E (mark_selected (ck_selected ck) r) skew (ck_token ck) of
            None \<Rightarrow> Panicked (records_insert k (mark_selected (ck_selected ck) r) st2)
          | Some b \<Rightarrow>
              Returned (records_insert k
                  (if b then mark_warming (mark_selected (ck_selected ck) r)
                   else mark_selected (ck_selected ck) r) st2)
                (Inr \<lparr>sel_account_id = k, sel_refresh_token = ar_refresh_token r,
                      sel_needs_refresh = b\<rparr>))"
      using Some r(2) st2(3)
      by (cases "token_needs_refresh E (mark_selected (ck_selected ck) r) skew (ck_token ck)")
        (simp_all add: select_account_def Let_def case_prod_unfold flip: st1_def cs_def st2_def)
    then show ?thesis
      using picked [OF st2(1,2) _ r(1) _ r(3)] st2(3) r(2) by (simp add: st1_def)
  qed
qed



section \<open>The order of the map does not matter\<close>

text \<open>Two stores that differ in the iteration order of their maps only.\<close>

definition same_store :: "account_store \<Rightarrow> account_store \<Rightarrow> bool" where
  "same_store a b \<longleftrightarrow>
     records_get a = records_get b \<and> st_accounts_dir a = st_accounts_dir b
     \<and> st_round_robin_cursor a = st_round_robin_cursor b"

fun same_outcome :: "(account_store, 'a) outcome \<Rightarrow> (account_store, 'a) outcome \<Rightarrow> bool" where
  "same_outcome (Returned a x) (Returned b y) \<longleftrightarrow> same_store a b \<and> x = y"
| "same_outcome (Panicked a) (Panicked b) \<longleftrightarrow> same_store a b"
| "same_outcome _ _ \<longleftrightarrow> False"

lemma wf_distinct_values: "wf_store st \<Longrightarrow> distinct (store_values st)"
  using distinct_store_ids by (metis distinct_map)

lemma same_store_mset:
  assumes "wf_store a" "wf_store b" "same_store a b"
  shows "mset (store_values a) = mset (store_values b)"
proof -
  have "set (store_values a) = set (store_values b)"
    using wf_mem [OF assms(1)] wf_mem [OF assms(2)] assms(3)
    by (auto simp: same_store_def)
  then show ?thesis
    using set_eq_iff_mset_eq_distinct wf_distinct_values assms(1,2) by blast
qed

lemma same_store_refresh_expired:
  "same_store a b \<Longrightarrow> same_store (refresh_expired_blocks t a) (refresh_expired_blocks t b)"
  by (auto simp: same_store_def)

lemma inj_ids: "wf_store st \<Longrightarrow> inj_on ar_id (set (store_values st))"
  using distinct_store_ids by (simp add: distinct_map)

lemma same_store_candidates:
  assumes "wf_store a" "wf_store b" "same_store a b"
  shows "build_route_candidates now excluded a = build_route_candidates now excluded b"
  unfolding candidates_eq
proof (rule sort_key_perm_eq)
  let ?p = "\<lambda>r. is_eligible (now (ar_id r)) r \<and> ar_id r \<notin> excluded"
  show "mset (map route_candidate_of (filter ?p (store_values a)))
      = mset (map route_candidate_of (filter ?p (store_values b)))"
    using same_store_mset [OF assms] by (simp add: mset_filter)
  show "inj_on rc_account_id (set (map route_candidate_of (filter ?p (store_values a))))"
    using inj_ids [OF assms(1)] by (auto simp: inj_on_def)
qed

text \<open>
  C21: which account is selected, under any policy, and the state left behind do not depend on the
  iteration order of the hash map.
\<close>

theorem select_account_order_independent:
  assumes "wf_store a" "wf_store b" "same_store a b"
  shows "same_outcome (select_account E ck policy skew excluded a)
                      (select_account E ck policy skew excluded b)"
proof -
  let ?a = "refresh_expired_blocks (ck_expire ck) a"
  let ?b = "refresh_expired_blocks (ck_expire ck) b"
  have same: "same_store ?a ?b" by (rule same_store_refresh_expired [OF assms(3)])
  have cs: "build_route_candidates (ck_eligible ck) excluded ?a
      = build_route_candidates (ck_eligible ck) excluded ?b"
    by (rule same_store_candidates) (simp_all add: assms same)
  obtain p c where pc: "select_candidate policy (build_route_candidates (ck_eligible ck) excluded ?b)
      (st_round_robin_cursor ?b) = (p, c)" by fastforce
  have upd: "same_store (?a\<lparr>st_round_robin_cursor := c\<rparr>) (?b\<lparr>st_round_robin_cursor := c\<rparr>)"
    using same by (simp add: same_store_def)
  have ins: "same_store (records_insert k r x) (records_insert k r y)" if "same_store x y" for k r x y
    using that by (auto simp: same_store_def)
  have get: "records_get (?a\<lparr>st_round_robin_cursor := c\<rparr>) k
      = records_get (?b\<lparr>st_round_robin_cursor := c\<rparr>) k" for k
    using upd by (simp add: same_store_def)
  have cur: "st_round_robin_cursor ?a = st_round_robin_cursor ?b"
    using same by (simp add: same_store_def)
  show ?thesis
    unfolding select_account_def Let_def cs cur pc prod.case get
    by (simp add: upd ins split: option.split)
qed

section \<open>The advice when nothing can be selected\<close>

lemma map_filter_mem:
  "x \<in> set (List.map_filter f xs) \<longleftrightarrow> (\<exists>y \<in> set xs. f y = Some x)"
  by (induction xs) (auto simp: List.map_filter_simps split: option.split)

lemma summarize_cases:
  assumes "summarize_selection_failure E now0 now excluded st = Returned st' (Some s)"
    and "\<not> list_ex ar_refresh_in_flight (filter (routeable excluded) (store_values st'))"
  defines "rs \<equiv> filter (routeable excluded) (store_values st')"
  obtains p where
    "st' = refresh_expired_blocks now0 st"
    "\<forall>r \<in> set rs. ar_refresh_in_flight r \<or> has_active_block_at r now"
    "min_by compare_block_priority (List.map_filter
       (\<lambda>r. map_option (\<lambda>reason. (reason, ar_blocked_until r)) (ar_blocked_reason r))
       (filter (\<lambda>r. \<not> ar_refresh_in_flight r) rs)) = Some p"
    "s = \<lparr>pbs_blocked_reason = fst p, pbs_blocked_until = snd p,
          pbs_retry_after = Option.bind (snd p)
            (\<lambda>t. if now \<le> t then Some (nat (t - now)) else None)\<rparr>"
proof -
  have st': "st' = refresh_expired_blocks now0 st"
    using assms(1)
    by (auto simp: summarize_selection_failure_def Let_def split: if_splits option.splits)
  have ex: "\<not> list_ex (\<lambda>r. \<not> ar_refresh_in_flight r \<and> \<not> has_active_block_at r now) rs" "rs \<noteq> []"
    using assms(1) unfolding rs_def st'
    by (auto simp: summarize_selection_failure_def Let_def split: if_splits)
  with assms(1,2) obtain p where p: "min_by compare_block_priority (List.map_filter
       (\<lambda>r. map_option (\<lambda>reason. (reason, ar_blocked_until r)) (ar_blocked_reason r))
       (filter (\<lambda>r. \<not> ar_refresh_in_flight r) rs)) = Some p"
    "s = (\<lambda>(reason, until). \<lparr>pbs_blocked_reason = reason, pbs_blocked_until = until,
                pbs_retry_after = Option.bind until
                  (\<lambda>t. if now \<le> t then Some (nat (t - now)) else None)\<rparr>) p"
    unfolding rs_def st' summarize_selection_failure_def Let_def by auto
  show ?thesis
    by (rule that [OF st' _ p(1)]) (use ex(1) p(2) in \<open>auto simp: list_ex_iff split: prod.splits\<close>)
qed

lemma active_until_least:
  assumes "block_consistent r" "has_active_block_at r now" "now \<le> t" "t < u"
    and "\<And>reason v. ar_blocked_reason r = Some reason \<Longrightarrow> ar_blocked_until r = Some v \<Longrightarrow> u \<le> v"
  shows "has_active_block_at r t"
proof (cases "ar_blocked_until r")
  case None
  with assms(2) show ?thesis by (auto simp: has_active_block_at_def)
next
  case (Some v)
  with assms(1) obtain reason where "ar_blocked_reason r = Some reason" by (auto simp: block_consistent_def)
  with assms(4,5) Some have "t < v" by fastforce
  with Some show ?thesis by (simp add: has_active_block_at_def)
qed

text \<open>
  The advice is exact. When no routeable account has a refresh in flight and the summary names an
  instant, the wait it gives ends at that instant, at which some account is eligible again, and up to
  that instant every routeable account is blocked.
\<close>

theorem summary_advice_exact:
  assumes "\<forall>r \<in> set (store_values st). block_consistent r"
    and "summarize_selection_failure E now0 now excluded st = Returned st' (Some s)"
    and "pbs_blocked_until s = Some u"
    and "\<not> list_ex ar_refresh_in_flight (filter (routeable excluded) (store_values st'))"
  shows "pbs_retry_after s = Some (nat (u - now)) \<and> now < u
    \<and> (\<exists>r \<in> set (store_values st'). routeable excluded r \<and> is_eligible u r)
    \<and> (\<forall>t. now \<le> t \<and> t < u
         \<longrightarrow> (\<forall>r \<in> set (store_values st'). routeable excluded r \<longrightarrow> has_active_block_at r t))"
proof -
  define rs where "rs = filter (routeable excluded) (store_values st')"
  let ?f = "\<lambda>r. map_option (\<lambda>reason. (reason, ar_blocked_until r)) (ar_blocked_reason r)"
  have idle: "\<not> ar_refresh_in_flight r" if "r \<in> set rs" for r
    using that assms(4) by (auto simp: rs_def list_ex_iff)
  from summarize_cases [OF assms(2,4)] obtain p where
    st': "st' = refresh_expired_blocks now0 st" and
    blocked: "\<forall>r \<in> set rs. ar_refresh_in_flight r \<or> has_active_block_at r now" and
    p: "min_by compare_block_priority
          (List.map_filter ?f (filter (\<lambda>r. \<not> ar_refresh_in_flight r) rs)) = Some p" and
    s: "s = \<lparr>pbs_blocked_reason = fst p, pbs_blocked_until = snd p,
          pbs_retry_after = Option.bind (snd p)
            (\<lambda>t. if now \<le> t then Some (nat (t - now)) else None)\<rparr>"
    unfolding rs_def by blast
  have u: "snd p = Some u" using s assms(3) by simp
  from block_priority.min_by_least [OF p] have
    mem: "p \<in> set (List.map_filter ?f (filter (\<lambda>r. \<not> ar_refresh_in_flight r) rs))" and
    least: "\<And>q. q \<in> set (List.map_filter ?f (filter (\<lambda>r. \<not> ar_refresh_in_flight r) rs))
              \<Longrightarrow> compare_block_priority p q \<noteq> Greater"
    by blast+
  from mem obtain r0 where r0: "r0 \<in> set rs" "?f r0 = Some p"
    by (auto simp: map_filter_mem)
  with u have until0: "ar_blocked_until r0 = Some u" by auto
  have "has_active_block_at r0 now" using blocked idle r0(1) by blast
  with until0 have later: "now < u" by (simp add: has_active_block_at_def)
  have elig: "is_eligible u r0"
    using r0(1) idle [OF r0(1)] until0 by (simp add: is_eligible_def rs_def routeable_def)
  have active: "has_active_block_at r t" if t: "now \<le> t" "t < u" and r: "r \<in> set rs" for t r
  proof (rule active_until_least [OF _ _ t])
    from r obtain r1 where "r1 \<in> set (store_values st)" "r = refresh_expired_record now0 r1"
      by (auto simp: rs_def st')
    with assms(1) show "block_consistent r" by simp
    show "has_active_block_at r now" using blocked idle [OF r] r by blast
    fix reason v assume "ar_blocked_reason r = Some reason" "ar_blocked_until r = Some v"
    then have "(reason, Some v) \<in> set (List.map_filter ?f (filter (\<lambda>r. \<not> ar_refresh_in_flight r) rs))"
      using r idle [OF r] by (auto simp: map_filter_mem intro!: bexI [of _ r])
    from least [OF this] u show "u \<le> v" by (auto simp: compare_block_priority_le)
  qed
  show ?thesis
    using s u later elig r0(1) active by (auto simp: rs_def)
qed

section \<open>Concrete selections\<close>

text \<open>Account \<open>a\<close> is rate limited until the fiftieth second, account \<open>b\<close> is free.\<close>

definition blocked_sample :: account_record where
  "blocked_sample = (new_account_record ''a'' [''d'', ''a.json'']
       \<lparr>af_refresh_token = ''t'', af_label = None, af_email = None\<rparr>)
     \<lparr>ar_blocked_reason := Some BrRateLimited, ar_blocked_source := Some LocalBackoff,
       ar_blocked_until := Some 50000000000, ar_routing_state := RsCooldown\<rparr>"

definition free_sample :: account_record where
  "free_sample = new_account_record ''b'' [''d'', ''b.json'']
     \<lparr>af_refresh_token = ''u'', af_label = None, af_email = None\<rparr>"

definition sample_store :: account_store where
  "sample_store =
     \<lparr>st_accounts_dir = [''d''], st_records = [(''a'', blocked_sample), (''b'', free_sample)],
      st_round_robin_cursor = 0\<rparr>"

definition sample_clock :: select_clock where
  "sample_clock = \<lparr>ck_expire = 0, ck_eligible = \<lambda>_. 0, ck_selected = 0, ck_token = 0\<rparr>"

lemma sample_wf: "wf_store sample_store"
  by (simp add: wf_store_def sample_store_def blocked_sample_def free_sample_def new_account_record_def)

lemma sample_select:
  "select_account sample_externals sample_clock RoundRobin 60 {} sample_store =
     Returned (records_insert ''b'' (mark_warming (mark_selected 0 free_sample))
                (sample_store\<lparr>st_round_robin_cursor := 1\<rparr>))
       (Inr \<lparr>sel_account_id = ''b'', sel_refresh_token = ''u'', sel_needs_refresh = True\<rparr>)"
proof -
  have a: "refresh_expired_record 0 blocked_sample = blocked_sample"
    "refresh_expired_record 0 free_sample = free_sample"
    by (simp_all add: refresh_expired_record_def blocked_sample_def free_sample_def new_account_record_def)
  have e: "refresh_expired_blocks 0 sample_store = sample_store"
    by (simp add: refresh_expired_blocks_def sample_store_def a)
  have c: "build_route_candidates (\<lambda>_. 0) {} sample_store
      = [\<lparr>rc_account_id = ''b'', rc_in_flight_requests = 0, rc_last_selected_at = None\<rparr>]"
    by (simp add: build_route_candidates_def sample_store_def store_values_def blocked_sample_def
        free_sample_def new_account_record_def is_eligible_def)
  have s: "select_candidate RoundRobin [\<lparr>rc_account_id = ''b'', rc_in_flight_requests = 0,
      rc_last_selected_at = None\<rparr>] 0 = (Some ''b'', 1)"
    by (simp add: select_candidate_def list_get_def sat_add_def)
  have g: "map_of (st_records sample_store) ''b'' = Some free_sample"
    "st_round_robin_cursor sample_store = 0"
    by (simp_all add: sample_store_def)
  have t: "token_needs_refresh sample_externals (mark_selected 0 free_sample) 60 0 = Some True"
    "ar_refresh_token free_sample = ''u''"
    by (simp_all add: token_needs_refresh_def mark_selected_def free_sample_def new_account_record_def)
  show ?thesis
    by (simp add: select_account_def sample_clock_def e c g s t records_get_def Let_def)
qed



theorem select_account_order_independent_witness:
  "same_outcome
     (select_account sample_externals sample_clock LeastInFlight 60 {} sample_store)
     (select_account sample_externals sample_clock LeastInFlight 60 {}
        (sample_store\<lparr>st_records := rev (st_records sample_store)\<rparr>))"
proof (rule select_account_order_independent [OF sample_wf])
  show "wf_store (sample_store\<lparr>st_records := rev (st_records sample_store)\<rparr>)"
    using sample_wf by (auto simp: wf_store_def rev_map [symmetric])
  have "map_of (rev (st_records sample_store)) = map_of (st_records sample_store)"
    by (auto simp: sample_store_def)
  then show "same_store sample_store (sample_store\<lparr>st_records := rev (st_records sample_store)\<rparr>)"
    by (auto simp: same_store_def records_get_def)
qed

definition blocked_store :: account_store where
  "blocked_store =
     \<lparr>st_accounts_dir = [''d''], st_records = [(''a'', blocked_sample)],
      st_round_robin_cursor = 0\<rparr>"

theorem summary_advice_exact_witness:
  "pbs_retry_after
     \<lparr>pbs_blocked_reason = BrRateLimited, pbs_blocked_until = Some 50000000000,
      pbs_retry_after = Some 40000000000\<rparr> = Some (nat (50000000000 - 10000000000))
   \<and> is_eligible 50000000000 blocked_sample \<and> has_active_block_at blocked_sample 49000000000"
proof -
  have e: "refresh_expired_blocks 0 blocked_store = blocked_store"
    by (simp add: refresh_expired_blocks_def blocked_store_def refresh_expired_record_def
        blocked_sample_def)
  have v: "store_values blocked_store = [blocked_sample]"
    by (simp add: blocked_store_def store_values_def)
  have r: "routeable {} blocked_sample" "\<not> ar_refresh_in_flight blocked_sample"
    "ar_blocked_reason blocked_sample = Some BrRateLimited"
    "ar_blocked_until blocked_sample = Some 50000000000" "block_consistent blocked_sample"
    by (simp_all add: routeable_def blocked_sample_def new_account_record_def block_consistent_def)
  have run: "summarize_selection_failure sample_externals 0 10000000000 {} blocked_store =
      Returned blocked_store (Some \<lparr>pbs_blocked_reason = BrRateLimited,
        pbs_blocked_until = Some 50000000000, pbs_retry_after = Some 40000000000\<rparr>)"
    by (simp add: summarize_selection_failure_def e v r has_active_block_at_def Let_def
        List.map_filter_simps)
  show ?thesis
    using summary_advice_exact [OF _ run] by (simp add: v r)
qed

end
