(* ===== verification/Account_Disk.thy ===== *)
theory Account_Disk
  imports File_System Account_Routing
begin

text \<open>
  \<open>src/accounts/disk.rs\<close>: account files, importing and removing accounts, and the synchronisation of
  the store with the accounts directory.
\<close>

section \<open>Account files\<close>

text \<open>The serde derive of \<open>AccountFile\<close>: absent fields are skipped on writing.\<close>

definition account_file_to_json :: "account_file \<Rightarrow> json" where
  "account_file_to_json f =
     JObject ([(''refresh_token'', JString (af_refresh_token f))]
       @ (case af_label f of None \<Rightarrow> [] | Some l \<Rightarrow> [(''label'', JString l)])
       @ (case af_email f of None \<Rightarrow> [] | Some e \<Rightarrow> [(''email'', JString e)]))"

fun option_string :: "json \<Rightarrow> string option option" where
  "option_string JNull = Some None"
| "option_string (JString s) = Some (Some s)"
| "option_string _ = None"

text \<open>
  On reading, a field that occurs twice is an error, an absent optional field or \<open>null\<close> is \<open>None\<close>,
  other members are ignored; a sequence is read by position.
\<close>

definition member :: "string \<Rightarrow> json_object \<Rightarrow> json list" where
  "member k m = map snd (filter (\<lambda>p. fst p = k) m)"

definition optional_member :: "json list \<Rightarrow> string option option" where
  "optional_member vs =
     (case vs of [] \<Rightarrow> Some None | [v] \<Rightarrow> option_string v | _ \<Rightarrow> None)"

definition build_account_file ::
  "json option \<Rightarrow> string option option \<Rightarrow> string option option \<Rightarrow> account_file option" where
  "build_account_file t l e =
     (case (t, l, e) of
        (Some (JString t), Some l, Some e) \<Rightarrow>
          Some \<lparr>af_refresh_token = t, af_label = l, af_email = e\<rparr>
      | _ \<Rightarrow> None)"

definition account_file_of_json :: "json \<Rightarrow> account_file option" where
  "account_file_of_json v =
     (case v of
        JObject m \<Rightarrow>
          build_account_file
            (case member ''refresh_token'' m of [t] \<Rightarrow> Some t | _ \<Rightarrow> None)
            (optional_member (member ''label'' m)) (optional_member (member ''email'' m))
      | JArray vs \<Rightarrow>
          if length vs \<le> 3
          then build_account_file (list_get vs 0) (optional_member (take 1 (drop 1 vs)))
                 (optional_member (drop 2 vs))
          else None
      | _ \<Rightarrow> None)"

definition account_file_of_bytes :: "externals \<Rightarrow> string \<Rightarrow> account_file option" where
  "account_file_of_bytes E b = Option.bind (json_stream E b) account_file_of_json"

definition account_file_bytes :: "externals \<Rightarrow> account_file \<Rightarrow> string" where
  "account_file_bytes E f = print_json_pretty E (account_file_to_json f)"

lemma account_file_roundtrip [simp]: "account_file_of_json (account_file_to_json f) = Some f"
  by (cases "af_label f"; cases "af_email f")
    (simp_all add: account_file_to_json_def account_file_of_json_def member_def
      optional_member_def build_account_file_def)

lemma sample_account_file_roundtrip [simp]:
  "json_stream sample_externals (print_json_pretty sample_externals (account_file_to_json f))
   = Some (account_file_to_json f)"
proof -
  obtain m where "account_file_to_json f = JObject (map (\<lambda>(k, v). (k, JString v)) m)"
  proof
    show "account_file_to_json f = JObject (map (\<lambda>(k, v). (k, JString v))
        ([(''refresh_token'', af_refresh_token f)]
         @ (case af_label f of None \<Rightarrow> [] | Some l \<Rightarrow> [(''label'', l)])
         @ (case af_email f of None \<Rightarrow> [] | Some e \<Rightarrow> [(''email'', e)])))"
      by (cases "af_label f"; cases "af_email f") (simp_all add: account_file_to_json_def)
  qed
  then show ?thesis by (simp add: sample_externals_def sample_roundtrip)
qed

section \<open>Writing\<close>

definition ensure_private_dir :: "faults \<Rightarrow> path \<Rightarrow> fs \<Rightarrow> unit io" where
  "ensure_private_dir F p fs =
     io_bind (sys_create_dir_all F p fs) (\<lambda>_. sys_set_permissions F p private_dir_mode)"

definition ensure_accounts_directories :: "faults \<Rightarrow> path \<Rightarrow> fs \<Rightarrow> unit io" where
  "ensure_accounts_directories F dir fs =
     io_bind (io_context ''create accounts dir'' (ensure_private_dir F dir fs))
       (\<lambda>_ fs. io_context ''create accounts trash dir''
                (ensure_private_dir F (dir @ [TRASH_DIR_NAME]) fs))"

definition write_private_file :: "faults \<Rightarrow> path \<Rightarrow> string \<Rightarrow> fs \<Rightarrow> unit io" where
  "write_private_file F p b fs =
     io_bind (if fs_exists fs p then sys_remove_file F p fs else (fs, Inr ()))
       (\<lambda>_ fs. io_bind (sys_create_new F p private_file_mode fs)
         (\<lambda>_ fs. io_bind (sys_write_all F p b fs) (\<lambda>_. sys_sync_all F p)))"

definition replace_account_file :: "faults \<Rightarrow> path \<Rightarrow> path \<Rightarrow> fs \<Rightarrow> unit io" where
  "replace_account_file F temp p fs = sys_rename F temp p fs"

definition write_account_file ::
  "externals \<Rightarrow> faults \<Rightarrow> nat \<Rightarrow> path \<Rightarrow> account_file \<Rightarrow> fs \<Rightarrow> unit io" where
  "write_account_file E F stamp p disk fs =
     (if p = [] then (fs, Inl ''account file has no parent directory'')
      else
        io_bind (io_context ''create account parent dir'' (ensure_private_dir F (butlast p) fs))
          (\<lambda>_ fs.
             let temp_path = temp_account_path stamp p
             in io_bind (io_context ''write temp account file''
                          (write_private_file F temp_path (account_file_bytes E disk) fs))
                  (\<lambda>_ fs. io_context ''atomically replace account file''
                            (replace_account_file F temp_path p fs))))"

text \<open>
  \<open>stamp\<close> is the clock read for a temporary name; \<open>trash_stamp\<close> those of the attempts at a name in
  the trash. \<open>None\<close> from \<open>unique_trash_path\<close> means that its fuel ran out; with more fuel than files
  it does not (\<open>unique_trash_path_returns\<close>).
\<close>

definition execute_account_disk_op ::
  "externals \<Rightarrow> faults \<Rightarrow> nat \<Rightarrow> (nat \<Rightarrow> nat) \<Rightarrow> account_disk_op \<Rightarrow> fs \<Rightarrow> unit io" where
  "execute_account_disk_op E F stamp trash_stamp op fs =
     (case op of
        OpWrite p disk \<Rightarrow> write_account_file E F stamp p disk fs
      | OpRemove p \<Rightarrow>
          if \<not> fs_exists fs p then (fs, Inr ())
          else io_context ''remove account file'' (sys_remove_file F p fs)
      | OpMoveToTrash source dir \<Rightarrow>
          io_bind (ensure_accounts_directories F dir fs)
            (\<lambda>_ fs.
               if \<not> fs_exists fs source then (fs, Inr ())
               else case unique_trash_path (length fs + 3) (fs_exists fs) trash_stamp dir source of
                 None \<Rightarrow> (fs, Inl ''no free name in the trash'')
               | Some target \<Rightarrow>
                   io_bind (io_context ''move invalid account file to trash''
                             (sys_rename F source target fs))
                     (\<lambda>_ fs. io_context ''tighten trashed account file permissions''
                               (sys_set_permissions F target private_file_mode fs))))"

section \<open>Records from disk\<close>

definition reload_record :: "path \<Rightarrow> account_file \<Rightarrow> account_record \<Rightarrow> account_record" where
  "reload_record path disk r =
     (let r1 = r\<lparr>ar_file_path := path, ar_label := af_label disk, ar_email := af_email disk\<rparr>
      in if \<not> ar_auth_invalid_tombstone r1 then r1\<lparr>ar_detached := False\<rparr> else r1)"

definition upsert_disk_record ::
  "string \<Rightarrow> path \<Rightarrow> account_file \<Rightarrow> account_store \<Rightarrow> account_store" where
  "upsert_disk_record aid path disk st =
     (case records_get st aid of
        Some r \<Rightarrow> records_insert aid (reload_record path disk r) st
      | None \<Rightarrow> records_insert aid (new_account_record aid path disk) st)"

section \<open>Importing and removing\<close>

definition find_account_id_by_refresh_token :: "account_store \<Rightarrow> string \<Rightarrow> string option" where
  "find_account_id_by_refresh_token st token =
     map_option ar_id
       (find (\<lambda>r. \<not> ar_detached r \<and> ar_refresh_token r = token) (store_values st))"

definition prepare_existing_account_metadata_update ::
  "account_store \<Rightarrow> string \<Rightarrow> string option \<Rightarrow> string option \<Rightarrow> string + import_account_plan" where
  "prepare_existing_account_metadata_update st aid label email =
     (case records_get st aid of
        None \<Rightarrow> Inl (unknown_account aid)
      | Some r \<Rightarrow>
          (let (next_label, changed1) =
                 (if label \<noteq> None \<and> ar_label r \<noteq> label then (label, True) else (ar_label r, False));
               (next_email, changed) =
                 (if email \<noteq> None \<and> ar_email r \<noteq> email then (email, True)
                  else (ar_email r, changed1));
               disk_op = (if changed \<and> \<not> ar_detached r
                 then Some (OpWrite (ar_file_path r)
                   \<lparr>af_refresh_token = ar_refresh_token r, af_label = next_label,
                    af_email = next_email\<rparr>)
                 else None)
           in Inr \<lparr>iap_account_id = aid, iap_already_exists = True,
                   iap_apply = (if changed then ImportUpdateMetadata aid next_label next_email
                                else ImportNone),
                   iap_disk_op = disk_op\<rparr>))"

definition prepare_import_account ::
  "externals \<Rightarrow> account_store \<Rightarrow> string \<Rightarrow> string option \<Rightarrow> string option
     \<Rightarrow> string + import_account_plan" where
  "prepare_import_account E st token label email =
     (case normalize_refresh_token token of
        Inl e \<Rightarrow> Inl e
      | Inr token \<Rightarrow>
          (let label = normalize_optional_metadata label;
               email = normalize_optional_metadata email
           in case find_account_id_by_refresh_token st token of
                Some existing_id \<Rightarrow>
                  prepare_existing_account_metadata_update st existing_id label email
              | None \<Rightarrow>
                  (let aid = stable_account_id E token;
                       path = st_accounts_dir st @ [aid @ ''.'' @ ACCOUNT_FILE_EXTENSION];
                       disk = \<lparr>af_refresh_token = token, af_label = label, af_email = email\<rparr>
                   in Inr \<lparr>iap_account_id = aid, iap_already_exists = False,
                           iap_apply = ImportInsert aid path disk,
                           iap_disk_op = Some (OpWrite path disk)\<rparr>)))"

definition apply_import_account_plan ::
  "import_account_plan \<Rightarrow> account_store \<Rightarrow> account_store \<times> (string + import_account_result)" where
  "apply_import_account_plan plan st =
     (let applied =
        (case iap_apply plan of
           ImportNone \<Rightarrow> Inr st
         | ImportInsert aid path disk \<Rightarrow> Inr (upsert_disk_record aid path disk st)
         | ImportUpdateMetadata aid label email \<Rightarrow>
             (case records_get st aid of
                None \<Rightarrow> Inl (unknown_account aid)
              | Some r \<Rightarrow> Inr (records_insert aid (r\<lparr>ar_label := label, ar_email := email\<rparr>) st)))
      in case applied of
           Inl e \<Rightarrow> (st, Inl e)
         | Inr st' \<Rightarrow>
             (case view st' (iap_account_id plan) of
                Inl e \<Rightarrow> (st', Inl e)
              | Inr v \<Rightarrow>
                  (st', Inr \<lparr>iar_account = v, iar_already_exists = iap_already_exists plan\<rparr>)))"

definition prepare_remove_account :: "account_store \<Rightarrow> string \<Rightarrow> remove_account_plan option" where
  "prepare_remove_account st aid =
     map_option (\<lambda>r. \<lparr>rap_account_id = aid, rap_disk_op = OpRemove (ar_file_path r)\<rparr>)
       (records_get st aid)"

definition apply_remove_account_plan :: "remove_account_plan \<Rightarrow> account_store \<Rightarrow> account_store" where
  "apply_remove_account_plan plan st =
     maybe_remove_detached (rap_account_id plan)
       (case records_get st (rap_account_id plan) of
          Some r \<Rightarrow> records_insert (rap_account_id plan) (r\<lparr>ar_detached := True\<rparr>) st
        | None \<Rightarrow> st)"

section \<open>Scanning\<close>

text \<open>One entry of the directory: skipped, failed, or read. Hash sets are lists without repetition.\<close>

definition scan_entry ::
  "externals \<Rightarrow> faults \<Rightarrow> path \<Rightarrow> fs \<times> disk_scan_snapshot \<Rightarrow> fs \<times> disk_scan_snapshot" where
  "scan_entry E F p s =
     (case s of (fs, snap) \<Rightarrow>
      if \<not> is_file fs p \<or> path_extension p \<noteq> Some ACCOUNT_FILE_EXTENSION then (fs, snap)
      else
        (let snap = snap\<lparr>ss_observed_paths := List.insert p (ss_observed_paths snap)\<rparr>
         in case file_stem p of
              None \<Rightarrow> (fs, snap)
            | Some aid \<Rightarrow>
                (let failed = snap\<lparr>ss_failed_file_ids := List.insert aid (ss_failed_file_ids snap)\<rparr>
                 in case sys_read_file F p fs of
                      (fs, Inl e) \<Rightarrow> (fs, failed)
                    | (fs, Inr b) \<Rightarrow>
                        (case account_file_of_bytes E b of
                           None \<Rightarrow> (fs, failed)
                         | Some disk \<Rightarrow>
                             (case normalize_refresh_token (af_refresh_token disk) of
                                Inl e \<Rightarrow> (fs, failed)
                              | Inr token \<Rightarrow>
                                  (fs, snap\<lparr>ss_entries := ss_entries snap
                                     @ [\<lparr>de_id = aid, de_path = p,
                                         de_disk = disk\<lparr>af_refresh_token := token\<rparr>\<rparr>]\<rparr>))))))"

definition scan_accounts_dir :: "externals \<Rightarrow> faults \<Rightarrow> path \<Rightarrow> fs \<Rightarrow> disk_scan_snapshot io" where
  "scan_accounts_dir E F dir fs =
     io_bind (ensure_accounts_directories F dir fs)
       (\<lambda>_ fs. io_bind (io_context ''read accounts dir'' (sys_read_dir F dir fs))
         (\<lambda>ps fs.
            (let (fs', snap) = fold (scan_entry E F) ps
                   (fs, \<lparr>ss_entries = [], ss_failed_file_ids = [], ss_observed_paths = []\<rparr>)
             in (fs', Inr snap))))"

section \<open>The plan of a synchronisation\<close>

definition prefer_record :: "account_record \<Rightarrow> account_record \<Rightarrow> ordering" where
  "prefer_record l r =
     then_with (cmp (ar_refresh_in_flight l) (ar_refresh_in_flight r))
       (then_with (cmp (ar_in_flight_requests l) (ar_in_flight_requests r))
         (then_with (cmp (ar_access_token l \<noteq> None) (ar_access_token r \<noteq> None))
           (then_with (cmp (ar_last_selected_at l) (ar_last_selected_at r))
             (cmp (ar_id r) (ar_id l)))))"

definition preferred_existing_record :: "account_store \<Rightarrow> string \<Rightarrow> account_record option" where
  "preferred_existing_record st token =
     max_by prefer_record
       (filter (\<lambda>r. \<not> ar_detached r \<and> ar_refresh_token r = token) (store_values st))"

definition canonical_of_record ::
  "account_record \<Rightarrow> string \<Rightarrow> disk_account_entry list \<Rightarrow> canonical_target" where
  "canonical_of_record r token grp =
     (let matched = find (\<lambda>e. de_id e = ar_id r) grp
      in \<lparr>ct_id = ar_id r, ct_path = ar_file_path r,
          ct_disk = (case matched of
             Some e \<Rightarrow> de_disk e
           | None \<Rightarrow> \<lparr>af_refresh_token = token, af_label = ar_label r, af_email = ar_email r\<rparr>),
          ct_matched_group_path = map_option de_path matched\<rparr>)"

definition canonical_of_entry :: "disk_account_entry \<Rightarrow> canonical_target" where
  "canonical_of_entry e =
     \<lparr>ct_id = de_id e, ct_path = de_path e, ct_disk = de_disk e,
      ct_matched_group_path = Some (de_path e)\<rparr>"

definition select_canonical_target ::
  "account_store \<Rightarrow> disk_account_entry list \<Rightarrow> sync_mode \<Rightarrow> canonical_target option" where
  "select_canonical_target st grp mode =
     (case grp of
        [] \<Rightarrow> None
      | e # _ \<Rightarrow>
          (let token = af_refresh_token (de_disk e)
           in case (if mode = Rescan then preferred_existing_record st token else None) of
                Some r \<Rightarrow> Some (canonical_of_record r token grp)
              | None \<Rightarrow> Some (canonical_of_entry e)))"

text \<open>
  The groups of a hash map come in an arbitrary order; here it is that of their first entries, and
  the entries of a scan come in the order the system lists them, so every order occurs.
\<close>

definition add_entry ::
  "disk_account_entry \<Rightarrow> (string \<times> disk_account_entry list) list
     \<Rightarrow> (string \<times> disk_account_entry list) list" where
  "add_entry e m =
     (let token = af_refresh_token (de_disk e)
      in AList.update token ((case map_of m token of Some g \<Rightarrow> g | None \<Rightarrow> []) @ [e]) m)"

definition entries_by_refresh_token ::
  "disk_account_entry list \<Rightarrow> (string \<times> disk_account_entry list) list" where
  "entries_by_refresh_token es = fold add_entry es []"

definition plan_group ::
  "account_store \<Rightarrow> path list \<Rightarrow> sync_mode \<Rightarrow> disk_account_entry list \<Rightarrow> disk_sync_plan
     \<Rightarrow> string + disk_sync_plan" where
  "plan_group st observed mode group0 plan =
     (let grp = sort_key de_id group0
      in case select_canonical_target st grp mode of
           None \<Rightarrow> Inl ''duplicate refresh token group unexpectedly empty''
         | Some canonical \<Rightarrow>
             (let merged = merge_duplicate_account_files (ct_disk canonical) grp;
                  writes = (if merged \<noteq> ct_disk canonical \<or> ct_path canonical \<notin> set observed
                            then [(ct_path canonical, merged)] else []);
                  removals = map de_path
                    (filter (\<lambda>d. ct_matched_group_path canonical \<noteq> Some (de_path d)) grp)
              in Inr (plan\<lparr>pl_writes := pl_writes plan @ writes,
                          pl_removals := pl_removals plan @ removals,
                          pl_seen_ids := List.insert (ct_id canonical) (pl_seen_ids plan),
                          pl_upserts := pl_upserts plan
                            @ [\<lparr>up_id = ct_id canonical, up_path = ct_path canonical,
                                up_disk = merged\<rparr>]\<rparr>)))"

fun plan_groups ::
  "account_store \<Rightarrow> path list \<Rightarrow> sync_mode \<Rightarrow> disk_account_entry list list \<Rightarrow> disk_sync_plan
     \<Rightarrow> string + disk_sync_plan" where
  "plan_groups st observed mode [] plan = Inr plan"
| "plan_groups st observed mode (g # gs) plan =
     (case plan_group st observed mode g plan of
        Inl e \<Rightarrow> Inl e
      | Inr plan' \<Rightarrow> plan_groups st observed mode gs plan')"

definition build_disk_sync_plan ::
  "account_store \<Rightarrow> disk_scan_snapshot \<Rightarrow> sync_mode \<Rightarrow> string + disk_sync_plan" where
  "build_disk_sync_plan st snap mode =
     plan_groups st (ss_observed_paths snap) mode
       (map snd (entries_by_refresh_token (ss_entries snap)))
       \<lparr>pl_mode = mode, pl_writes = [], pl_removals = [], pl_upserts = [], pl_seen_ids = [],
        pl_failed_file_ids = ss_failed_file_ids snap\<rparr>"

section \<open>Carrying it out\<close>

fun sync_writes :: "externals \<Rightarrow> faults \<Rightarrow> (path \<Rightarrow> nat) \<Rightarrow> (path \<times> account_file) list \<Rightarrow> fs \<Rightarrow> unit io"
where
  "sync_writes E F stamp [] fs = (fs, Inr ())"
| "sync_writes E F stamp ((p, disk) # ws) fs =
     io_bind (write_account_file E F (stamp p) p disk fs) (\<lambda>_. sync_writes E F stamp ws)"

fun sync_removals :: "faults \<Rightarrow> path list \<Rightarrow> fs \<Rightarrow> unit io" where
  "sync_removals F [] fs = (fs, Inr ())"
| "sync_removals F (p # ps) fs =
     (if \<not> fs_exists fs p then sync_removals F ps fs
      else io_bind (io_context ''remove duplicate refresh token account file''
                     (sys_remove_file F p fs))
             (\<lambda>_. sync_removals F ps))"

definition execute_disk_sync_fs ::
  "externals \<Rightarrow> faults \<Rightarrow> (path \<Rightarrow> nat) \<Rightarrow> disk_sync_plan \<Rightarrow> fs \<Rightarrow> unit io" where
  "execute_disk_sync_fs E F stamp plan fs =
     io_bind (sync_writes E F stamp (pl_writes plan) fs) (\<lambda>_. sync_removals F (pl_removals plan))"

definition sync_existing :: "disk_sync_plan \<Rightarrow> string \<Rightarrow> account_store \<Rightarrow> account_store" where
  "sync_existing plan aid st =
     (if aid \<in> set (pl_seen_ids plan) then st
      else if pl_mode plan = Rescan \<and> aid \<in> set (pl_failed_file_ids plan) then st
      else case records_get st aid of
        None \<Rightarrow> st
      | Some r \<Rightarrow>
          if ar_in_flight_requests r = 0 \<and> \<not> ar_refresh_in_flight r then records_remove aid st
          else records_insert aid (r\<lparr>ar_detached := True\<rparr>) st)"

definition apply_disk_sync_plan :: "disk_sync_plan \<Rightarrow> account_store \<Rightarrow> account_store" where
  "apply_disk_sync_plan plan st =
     (let st1 = fold (\<lambda>u. upsert_disk_record (up_id u) (up_path u) (up_disk u)) (pl_upserts plan) st
      in fold (sync_existing plan) (map fst (st_records st1)) st1)"

text \<open>
  The whole synchronisation. The store is read for the plan and written at the end; \<open>st'\<close> is the
  store at the end, when other tasks may have changed it in between.
\<close>

definition sync_accounts_from_disk ::
  "externals \<Rightarrow> faults \<Rightarrow> (path \<Rightarrow> nat) \<Rightarrow> path \<Rightarrow> account_store \<Rightarrow> account_store \<Rightarrow> sync_mode \<Rightarrow> fs
     \<Rightarrow> account_store io" where
  "sync_accounts_from_disk E F stamp dir st st' mode fs =
     io_bind (scan_accounts_dir E F dir fs)
       (\<lambda>snap fs.
          case build_disk_sync_plan st snap mode of
            Inl e \<Rightarrow> (fs, Inl e)
          | Inr plan \<Rightarrow>
              io_bind (execute_disk_sync_fs E F stamp plan fs)
                (\<lambda>_ fs. (fs, Inr (apply_disk_sync_plan plan st'))))"

definition startup_sync_accounts_from_disk ::
  "externals \<Rightarrow> faults \<Rightarrow> (path \<Rightarrow> nat) \<Rightarrow> path \<Rightarrow> account_store \<Rightarrow> account_store \<Rightarrow> fs
     \<Rightarrow> account_store io" where
  "startup_sync_accounts_from_disk E F stamp dir st st' fs =
     sync_accounts_from_disk E F stamp dir st st' Startup fs"

definition rescan_accounts_from_disk ::
  "externals \<Rightarrow> faults \<Rightarrow> (path \<Rightarrow> nat) \<Rightarrow> path \<Rightarrow> account_store \<Rightarrow> account_store \<Rightarrow> fs
     \<Rightarrow> account_store io" where
  "rescan_accounts_from_disk E F stamp dir st st' fs =
     sync_accounts_from_disk E F stamp dir st st' Rescan fs"

end
