(* ===== verification/Account_Persistence.thy ===== *)
theory Account_Persistence
  imports Account_Disk
begin

text \<open>
  What the code of \<open>src/accounts/disk.rs\<close> guarantees about files: writes are atomic, the merge of
  duplicate files at start-up loses no refresh token, importing is idempotent.
\<close>

section \<open>Writing a file\<close>

lemma map_of_io_bind:
  assumes "map_of (fst x) q = v" "\<And>a fs. x = (fs, Inr a) \<Longrightarrow> map_of fs q = v \<Longrightarrow> map_of (fst (k a fs)) q = v"
  shows "map_of (fst (io_bind x k)) q = v"
  by (rule io_bind_inv [where P = "\<lambda>fs. map_of fs q = v"]) (use assms in auto)

lemma ensure_private_dir_frame [fs_frame]:
  assumes "fs_exists fs q \<or> length d < length q" "q \<noteq> d"
  shows "map_of (fst (ensure_private_dir F d fs)) q = map_of fs q"
  unfolding ensure_private_dir_def
  by (rule map_of_io_bind) (simp_all add: fs_frame assms)

lemma write_private_file_frame [fs_frame]:
  assumes "q \<noteq> t"
  shows "map_of (fst (write_private_file F t b fs)) q = map_of fs q"
  unfolding write_private_file_def
  by (intro map_of_io_bind) (simp_all add: fs_frame assms)

lemma create_new_ok:
  "sys_create_new F p m fs = (fs', Inr u) \<Longrightarrow> map_of fs' p = Some (FileNode [] m)"
  by (auto simp: sys_create_new_def AList.update_conv' split: option.splits if_splits)

lemma write_all_ok:
  "sys_write_all F p b fs = (fs', Inr u) \<Longrightarrow> map_of fs p = Some (FileNode b' m)
     \<Longrightarrow> map_of fs' p = Some (FileNode b m)"
  by (auto simp: sys_write_all_def write_bytes_get split: option.splits)

lemma sync_all_ok: "sys_sync_all F p fs = (fs', Inr u) \<Longrightarrow> fs' = fs"
  by (simp add: sys_sync_all_def split: option.splits prod.splits)

lemma write_private_file_ok:
  assumes "write_private_file F t b fs = (fs', Inr u)"
  shows "map_of fs' t = Some (FileNode b private_file_mode)"
proof -
  from assms obtain fs1 fs2 fs3 where
    c: "sys_create_new F t private_file_mode fs1 = (fs2, Inr ())" and
    w: "sys_write_all F t b fs2 = (fs3, Inr ())" and
    s: "sys_sync_all F t fs3 = (fs', Inr u)"
    unfolding write_private_file_def io_bind_eq_Inr by auto
  from write_all_ok [OF w create_new_ok [OF c]] sync_all_ok [OF s] show ?thesis by simp
qed

lemma temp_account_path_last:
  "p \<noteq> [] \<Longrightarrow> temp_account_path stamp p
     = butlast p @ [''.'' @ last p @ ''.'' @ show_nat stamp @ ''.tmp'']"
  by (simp add: temp_account_path_def file_name_def)

lemma temp_account_path_neq:
  assumes "p \<noteq> []"
  shows "temp_account_path stamp p \<noteq> p"
proof
  assume "temp_account_path stamp p = p"
  then have "last (temp_account_path stamp p) = last p" by simp
  then have "length (''.'' @ last p @ ''.'' @ show_nat stamp @ ''.tmp'') = length (last p)"
    unfolding temp_account_path_last [OF assms] last_snoc by (rule arg_cong)
  then show False by simp
qed

lemma length_butlast_less: "p \<noteq> [] \<Longrightarrow> length (butlast p) < length p"
  by simp

text \<open>The state and the result of a write, with the temporary name apart.\<close>

lemma write_account_file_cases:
  assumes "p \<noteq> []"
  obtains (early) fs1 where "fst (write_account_file E F stamp p disk fs) = fs1"
      "\<exists>e. snd (write_account_file E F stamp p disk fs) = Inl e"
      "\<forall>q. q \<noteq> temp_account_path stamp p \<and> q \<noteq> butlast p \<and> (fs_exists fs q \<or> q = p)
         \<longrightarrow> map_of fs1 q = map_of fs q"
  | (renamed) fs1 where
      "map_of fs1 (temp_account_path stamp p)
         = Some (FileNode (account_file_bytes E disk) private_file_mode)"
      "\<forall>q. q \<noteq> temp_account_path stamp p \<and> q \<noteq> butlast p \<and> (fs_exists fs q \<or> q = p)
         \<longrightarrow> map_of fs1 q = map_of fs q"
      "write_account_file E F stamp p disk fs =
         io_context ''atomically replace account file''
           (sys_rename F (temp_account_path stamp p) p fs1)"
proof -
  let ?t = "temp_account_path stamp p"
  let ?b = "account_file_bytes E disk"
  obtain fs1 v1 where d: "ensure_private_dir F (butlast p) fs = (fs1, v1)" by fastforce
  have f1: "map_of fs1 q = map_of fs q" if "q \<noteq> butlast p" "fs_exists fs q \<or> q = p" for q
    using ensure_private_dir_frame [of fs q "butlast p" F] that d assms by auto
  show ?thesis
  proof (cases v1)
    case (Inl e)
    then show ?thesis
      using d f1 assms by (intro early [of fs1]) (auto simp: write_account_file_def)
  next
    case (Inr u1)
    obtain fs2 v2 where w: "write_private_file F ?t ?b fs1 = (fs2, v2)" by fastforce
    have f2: "map_of fs2 q = map_of fs q"
      if "q \<noteq> ?t" "q \<noteq> butlast p" "fs_exists fs q \<or> q = p" for q
      using write_private_file_frame [of q ?t F ?b fs1] f1 [of q] that w by auto
    show ?thesis
    proof (cases v2)
      case (Inl e)
      then show ?thesis
        using d w f2 Inr assms by (intro early [of fs2]) (auto simp: write_account_file_def)
    next
      case (Inr u2)
      show ?thesis
        by (rule renamed [of fs2])
          (use d w f2 Inr \<open>v1 = Inr u1\<close> assms write_private_file_ok [of F ?t ?b fs1 fs2 u2] in
            \<open>auto simp: write_account_file_def replace_account_file_def Let_def\<close>)
    qed
  qed
qed

text \<open>
  C13: writing an account file is atomic under every pattern of failures. On success the file holds
  exactly the new content with mode \<open>0o600\<close>; on every error, wherever it strikes, the file is what it
  was. Every other existing node is untouched, the temporary file and the parent directory apart.
\<close>

theorem write_account_file_atomic:
  "map_of (fst (write_account_file E F stamp p disk fs)) p =
     (case snd (write_account_file E F stamp p disk fs) of
        Inr _ \<Rightarrow> Some (FileNode (account_file_bytes E disk) private_file_mode)
      | Inl _ \<Rightarrow> map_of fs p)
   \<and> {q. fs_exists fs q \<and> map_of (fst (write_account_file E F stamp p disk fs)) q \<noteq> map_of fs q}
       \<subseteq> {p, butlast p, temp_account_path stamp p}"
proof (cases "p = []")
  case True
  then show ?thesis by (simp add: write_account_file_def)
next
  case False
  have neq: "temp_account_path stamp p \<noteq> p" "p \<noteq> butlast p"
    using temp_account_path_neq [OF False] length_butlast_less [OF False] less_irrefl
    by (simp, metis)
  show ?thesis
  proof (cases rule: write_account_file_cases [OF False, where E = E and F = F and stamp = stamp
        and disk = disk and fs = fs, case_names early renamed])
    case (early fs1)
    then show ?thesis using neq by auto
  next
    case (renamed fs1)
    let ?t = "temp_account_path stamp p"
    show ?thesis
    proof (cases "snd (sys_rename F ?t p fs1)")
      case (Inl e)
      with rename_error [OF Inl] renamed neq show ?thesis
        by (cases "sys_rename F ?t p fs1") auto
    next
      case (Inr u)
      have "map_of (fst (sys_rename F ?t p fs1)) q = map_of fs q"
        if "q \<notin> {p, butlast p, ?t}" "fs_exists fs q" for q
        using rename_frame [of q ?t p F fs1] renamed(2) that by auto
      with rename_ok [OF Inr] renamed Inr show ?thesis
        by (cases "sys_rename F ?t p fs1") auto
    qed
  qed
qed


section \<open>Merging duplicate files\<close>

abbreviation token_of :: "disk_account_entry \<Rightarrow> string" where
  "token_of e \<equiv> af_refresh_token (de_disk e)"

definition holds_token :: "externals \<Rightarrow> fs \<Rightarrow> path \<Rightarrow> string \<Rightarrow> bool" where
  "holds_token E fs p token \<longleftrightarrow>
     (\<exists>b disk. read_of fs p = Some b \<and> account_file_of_bytes E b = Some disk
        \<and> normalize_refresh_token (af_refresh_token disk) = Inr token)"

subsection \<open>The scan\<close>

definition scanned :: "externals \<Rightarrow> fs \<Rightarrow> path list \<Rightarrow> disk_account_entry list \<Rightarrow> bool" where
  "scanned E fs ps es \<longleftrightarrow>
     distinct (map de_path es)
     \<and> (\<forall>e \<in> set es. de_path e \<in> set ps \<and> holds_token E fs (de_path e) (token_of e)
          \<and> path_extension (de_path e) = Some ''json'')"

lemma read_file_ok: "sys_read_file F p fs = (fs', v) \<Longrightarrow> fs' = fs \<and> (\<forall>b. v = Inr b \<longrightarrow> read_of fs p = Some b)"
  by (auto simp: sys_read_file_def split: option.splits)

lemma scan_entry_cases:
  obtains "ss_entries (snd (scan_entry E F p (fs, snap))) = ss_entries snap"
    "fst (scan_entry E F p (fs, snap)) = fs"
  | e where "ss_entries (snd (scan_entry E F p (fs, snap))) = ss_entries snap @ [e]"
    "fst (scan_entry E F p (fs, snap)) = fs" "de_path e = p" "holds_token E fs p (token_of e)"
    "path_extension p = Some ''json''"
proof (cases "\<not> is_file fs p \<or> path_extension p \<noteq> Some ACCOUNT_FILE_EXTENSION \<or> file_stem p = None")
  case True
  then show ?thesis by (intro that(1)) (auto simp: scan_entry_def Let_def)
next
  case False
  then obtain aid where a: "is_file fs p" "path_extension p = Some ACCOUNT_FILE_EXTENSION"
      "file_stem p = Some aid" by auto
  obtain fs' v where r: "sys_read_file F p fs = (fs', v)" by fastforce
  note read = read_file_ok [OF r]
  show ?thesis
  proof (cases v)
    case (Inl err)
    then show ?thesis using a r read by (intro that(1)) (auto simp: scan_entry_def Let_def)
  next
    case (Inr b)
    show ?thesis
    proof (cases "account_file_of_bytes E b")
      case None
      then show ?thesis using a r read Inr by (intro that(1)) (auto simp: scan_entry_def Let_def)
    next
      case (Some disk)
      show ?thesis
      proof (cases "normalize_refresh_token (af_refresh_token disk)")
        case (Inl err)
        then show ?thesis
          using a r read Inr Some by (intro that(1)) (auto simp: scan_entry_def Let_def)
      next
        case (Inr token)
        let ?e = "\<lparr>de_id = aid, de_path = p, de_disk = disk\<lparr>af_refresh_token := token\<rparr>\<rparr>"
        show ?thesis
        proof (rule that(2) [of ?e])
          show "holds_token E fs p (token_of ?e)"
            using read \<open>v = Inr b\<close> Some Inr by (auto simp: holds_token_def)
        qed (use a r read \<open>v = Inr b\<close> Some Inr in
            \<open>auto simp: scan_entry_def Let_def ACCOUNT_FILE_EXTENSION_def\<close>)
      qed
    qed
  qed
qed

lemma scan_fold:
  assumes "distinct ps" "\<forall>e \<in> set (ss_entries snap). de_path e \<notin> set ps"
    "scanned E fs qs (ss_entries snap)" "set ps \<subseteq> set qs"
  shows "fst (fold (scan_entry E F) ps (fs, snap)) = fs
    \<and> scanned E fs qs (ss_entries (snd (fold (scan_entry E F) ps (fs, snap))))"
  using assms
proof (induction ps arbitrary: snap)
  case (Cons p ps)
  obtain snap' where s: "scan_entry E F p (fs, snap) = (fs, snap')"
      "ss_entries snap' = ss_entries snap \<or>
       (\<exists>e. ss_entries snap' = ss_entries snap @ [e] \<and> de_path e = p
          \<and> holds_token E fs p (token_of e) \<and> path_extension p = Some ''json'')"
    by (rule scan_entry_cases [of E F p fs snap]) (metis prod.collapse)+
  have "fst (fold (scan_entry E F) ps (fs, snap')) = fs
    \<and> scanned E fs qs (ss_entries (snd (fold (scan_entry E F) ps (fs, snap'))))"
  proof (rule Cons.IH)
    show "distinct ps" "set ps \<subseteq> set qs" using Cons.prems by auto
    have new: "\<forall>e \<in> set (ss_entries snap). de_path e \<noteq> p" using Cons.prems(2) by auto
    show "\<forall>e \<in> set (ss_entries snap'). de_path e \<notin> set ps" using Cons.prems s(2) by auto
    show "scanned E fs qs (ss_entries snap')"
      using s(2)
    proof
      assume "\<exists>e. ss_entries snap' = ss_entries snap @ [e] \<and> de_path e = p
          \<and> holds_token E fs p (token_of e) \<and> path_extension p = Some ''json''"
      then obtain e where "ss_entries snap' = ss_entries snap @ [e]" "de_path e = p"
          "holds_token E fs p (token_of e)" "path_extension p = Some ''json''" by blast
      with Cons.prems(3,4) new show ?thesis by (simp add: scanned_def image_iff) metis
    qed (use Cons.prems(3) in simp)
  qed
  with s(1) show ?case by simp
qed simp

lemma scan_accounts_dir_ok:
  assumes "scan_accounts_dir E F dir fs0 = (fs, Inr snap)"
  shows "\<exists>ps. scanned E fs ps (ss_entries snap) \<and> (\<forall>p \<in> set ps. p \<noteq> [] \<and> butlast p = dir)"
proof -
  from assms obtain fs1 fs2 ps where
    ps: "sys_read_dir F dir fs1 = (fs2, Inr ps)" and
    f: "fs = fst (fold (scan_entry E F) ps
          (fs2, \<lparr>ss_entries = [], ss_failed_file_ids = [], ss_observed_paths = []\<rparr>))"
      "snap = snd (fold (scan_entry E F) ps
          (fs2, \<lparr>ss_entries = [], ss_failed_file_ids = [], ss_observed_paths = []\<rparr>))"
    unfolding scan_accounts_dir_def io_bind_eq_Inr io_context_eq_Inr
    by (auto simp: case_prod_unfold Let_def)
  have d: "distinct ps" "\<forall>p \<in> set ps. p \<noteq> [] \<and> butlast p = dir"
    using ps by (auto simp: sys_read_dir_def split: option.splits if_splits)
  have "scanned E fs2 ps (ss_entries snap) \<and> fs = fs2"
    using scan_fold [OF d(1), of "\<lparr>ss_entries = [], ss_failed_file_ids = [], ss_observed_paths = []\<rparr>" E fs2 ps F]
    by (simp add: scanned_def flip: f)
  with d(2) show ?thesis by blast
qed


subsection \<open>The plan\<close>

definition grouped ::
  "disk_account_entry list \<Rightarrow> (string \<times> disk_account_entry list) list \<Rightarrow> bool" where
  "grouped es m \<longleftrightarrow>
     distinct (map fst m)
     \<and> (\<forall>t g. map_of m t = Some g \<longrightarrow> g \<noteq> [] \<and> (\<forall>e \<in> set g. token_of e = t \<and> e \<in> set es))
     \<and> (\<forall>e \<in> set es. \<exists>g. map_of m (token_of e) = Some g \<and> e \<in> set g)"

lemma map_of_add_entry:
  "map_of (add_entry e m) t =
     (if t = token_of e then Some ((case map_of m t of Some g \<Rightarrow> g | None \<Rightarrow> []) @ [e])
      else map_of m t)"
  by (simp add: add_entry_def Let_def AList.update_conv')

lemma grouped_add:
  assumes "grouped es m"
  shows "grouped (es @ [e]) (add_entry e m)"
proof -
  note g = assms [unfolded grouped_def]
  have "distinct (map fst (add_entry e m))"
    unfolding add_entry_def Let_def using g by (intro AList.distinct_update) blast
  moreover have "h \<noteq> [] \<and> (\<forall>d \<in> set h. token_of d = t \<and> d \<in> set (es @ [e]))"
    if "map_of (add_entry e m) t = Some h" for t h
  proof (cases "t = token_of e")
    case True
    with that have h: "h = (case map_of m t of Some g \<Rightarrow> g | None \<Rightarrow> []) @ [e]"
      by (simp add: map_of_add_entry)
    show ?thesis using g True unfolding h by (cases "map_of m t") auto
  next
    case False
    with that g show ?thesis by (simp add: map_of_add_entry)
  qed
  moreover have "\<exists>h. map_of (add_entry e m) (token_of d) = Some h \<and> d \<in> set h"
    if "d \<in> set (es @ [e])" for d
  proof (cases "d = e")
    case False
    with that have "d \<in> set es" by simp
    with g obtain h where h: "map_of m (token_of d) = Some h" "d \<in> set h" by blast
    show ?thesis
    proof (cases "token_of d = token_of e")
      case True
      with h have "map_of (add_entry e m) (token_of d) = Some (h @ [e])"
        by (simp add: map_of_add_entry)
      with h(2) show ?thesis by auto
    next
      case False
      with h show ?thesis by (simp add: map_of_add_entry)
    qed
  next
    case True
    have "map_of (add_entry e m) (token_of e)
        = Some ((case map_of m (token_of e) of Some g \<Rightarrow> g | None \<Rightarrow> []) @ [e])"
      by (simp only: map_of_add_entry if_True refl)
    with True show ?thesis by auto
  qed
  ultimately show ?thesis unfolding grouped_def by blast
qed

lemma grouped_entries: "grouped es (entries_by_refresh_token es)"
proof -
  have "grouped (xs @ es) (fold add_entry es m)" if "grouped xs m" for xs m
    using that
  proof (induction es arbitrary: xs m)
    case (Cons e es)
    from Cons.IH [OF grouped_add [OF Cons.prems]] show ?case by simp
  qed simp
  moreover have "grouped [] []" by (simp add: grouped_def)
  ultimately have "grouped ([] @ es) (fold add_entry es [])" by blast
  then show ?thesis by (simp add: entries_by_refresh_token_def)
qed

definition plan_sound :: "disk_account_entry list \<Rightarrow> disk_account_entry list list \<Rightarrow> disk_sync_plan \<Rightarrow> bool"
where
  "plan_sound es gs plan \<longleftrightarrow>
     (\<forall>(p, d) \<in> set (pl_writes plan). \<exists>e \<in> set es. p = de_path e \<and> af_refresh_token d = token_of e)
     \<and> (\<forall>p \<in> set (pl_removals plan). \<exists>g \<in> set gs. \<exists>e \<in> set g. p = de_path e)
     \<and> (\<forall>g \<in> set gs. \<exists>c \<in> set g. de_path c \<notin> set (pl_removals plan))"

lemma merge_keeps_token [simp]:
  "af_refresh_token (merge_duplicate_account_files base es) = af_refresh_token base"
  by (simp add: merge_duplicate_account_files_def Let_def)

lemma canonical_of_entry_simps [simp]:
  "ct_id (canonical_of_entry e) = de_id e" "ct_path (canonical_of_entry e) = de_path e"
  "ct_disk (canonical_of_entry e) = de_disk e"
  "ct_matched_group_path (canonical_of_entry e) = Some (de_path e)"
  by (simp_all add: canonical_of_entry_def)

text \<open>What the start-up plans for a group of files that share a token: one of them is kept.\<close>

lemma plan_group_startup_shape:
  assumes "plan_group st obs Startup g plan = Inr plan'"
  obtains c merged where "c \<in> set g" "af_refresh_token merged = token_of c"
    "set (pl_writes plan') \<subseteq> set (pl_writes plan) \<union> {(de_path c, merged)}"
    "set (pl_removals plan') = set (pl_removals plan) \<union> {de_path d | d. d \<in> set g \<and> de_path d \<noteq> de_path c}"
proof -
  from assms have "g \<noteq> []"
    by (auto simp: plan_group_def select_canonical_target_def Let_def)
  then obtain c cs where c: "sort_key de_id g = c # cs"
    by (cases "sort_key de_id g") (auto dest: arg_cong [where f = set])
  have gset: "set (c # cs) = set g" using c by (metis set_sort)
  define merged where "merged = merge_duplicate_account_files (de_disk c) (c # cs)"
  have plan': "plan' = plan\<lparr>pl_writes := pl_writes plan
         @ (if merged \<noteq> de_disk c \<or> de_path c \<notin> set obs then [(de_path c, merged)] else []),
       pl_removals := pl_removals plan
         @ map de_path (filter (\<lambda>d. de_path c \<noteq> de_path d) (c # cs)),
       pl_seen_ids := List.insert (de_id c) (pl_seen_ids plan),
       pl_upserts := pl_upserts plan @ [\<lparr>up_id = de_id c, up_path = de_path c, up_disk = merged\<rparr>]\<rparr>"
    using assms unfolding plan_group_def select_canonical_target_def c Let_def
    by (cases "merged \<noteq> de_disk c \<or> de_path c \<notin> set obs") (simp_all add: merged_def)
  show ?thesis
  proof
    show "c \<in> set g" using gset by auto
    show "af_refresh_token merged = token_of c" by (simp add: merged_def)
    show "set (pl_writes plan') \<subseteq> set (pl_writes plan) \<union> {(de_path c, merged)}"
      unfolding plan' by auto
    have "set (map de_path (filter (\<lambda>d. de_path c \<noteq> de_path d) (c # cs)))
        = de_path ` {d \<in> set g. de_path c \<noteq> de_path d}"
      by (simp only: set_map set_filter gset)
    then show "set (pl_removals plan') = set (pl_removals plan) \<union> {de_path d | d. d \<in> set g \<and> de_path d \<noteq> de_path c}"
      unfolding plan' by auto
  qed
qed

lemma plan_group_startup:
  assumes "plan_group st obs Startup g plan = Inr plan'" "plan_sound es gs plan"
    "set g \<subseteq> set es" "distinct (map de_path es)"
    "\<forall>h \<in> set gs. set h \<subseteq> set es \<and> set h \<inter> set g = {}"
  shows "plan_sound es (g # gs) plan'"
proof -
  obtain c merged where c: "c \<in> set g" "af_refresh_token merged = token_of c"
    and writes: "set (pl_writes plan') \<subseteq> set (pl_writes plan) \<union> {(de_path c, merged)}"
    and rem: "set (pl_removals plan') = set (pl_removals plan) \<union> {de_path d | d. d \<in> set g \<and> de_path d \<noteq> de_path c}"
    by (rule plan_group_startup_shape [OF assms(1)])
  have inj: "d = e" if "d \<in> set es" "e \<in> set es" "de_path d = de_path e" for d e
    using assms(4) that by (auto simp: distinct_map dest: inj_onD)
  have old: "de_path e \<notin> {de_path d | d. d \<in> set g \<and> de_path d \<noteq> de_path c}" if "e \<in> set h" "h \<in> set gs" for e h
    using assms(3,5) inj that by blast
  have new: "de_path c \<notin> set (pl_removals plan')"
  proof
    assume "de_path c \<in> set (pl_removals plan')"
    then have "de_path c \<in> set (pl_removals plan)" using rem by auto
    then obtain h e where "h \<in> set gs" "e \<in> set h" "de_path c = de_path e"
      using assms(2) unfolding plan_sound_def by blast
    then show False using assms(3,5) c(1) inj by blast
  qed
  have "\<exists>e \<in> set h. de_path e \<notin> set (pl_removals plan')" if h: "h \<in> set gs" for h
  proof -
    from assms(2) h obtain e where "e \<in> set h" "de_path e \<notin> set (pl_removals plan)"
      unfolding plan_sound_def by blast
    with old [OF _ h] show ?thesis unfolding rem by blast
  qed
  moreover have "\<forall>(p, d) \<in> set (pl_writes plan'). \<exists>e \<in> set es. p = de_path e \<and> af_refresh_token d = token_of e"
    using assms(2,3) c writes unfolding plan_sound_def by blast
  moreover have "\<forall>p \<in> set (pl_removals plan'). \<exists>g \<in> set (g # gs). \<exists>e \<in> set g. p = de_path e"
    using assms(2) unfolding rem plan_sound_def by auto
  ultimately show ?thesis using c(1) new unfolding plan_sound_def by auto
qed

lemma plan_groups_startup:
  assumes "plan_groups st obs Startup (map snd m) plan = Inr plan'"
    "plan_sound es (map snd pre) plan" "distinct (map de_path es)"
    "distinct (map fst (pre @ m))"
    "\<forall>(t, g) \<in> set (pre @ m). \<forall>e \<in> set g. token_of e = t \<and> e \<in> set es"
  shows "plan_sound es (map snd (rev m @ pre)) plan'"
  using assms
proof (induction m arbitrary: pre plan)
  case (Cons tg m)
  obtain t g where tg: "tg = (t, g)" by fastforce
  from Cons.prems(1) obtain plan1 where
    p: "plan_group st obs Startup g plan = Inr plan1"
       "plan_groups st obs Startup (map snd m) plan1 = Inr plan'"
    by (auto simp: tg split: sum.splits)
  have key: "t' \<noteq> t" if "(t', h) \<in> set pre" for t' h
    using Cons.prems(4) that by (force simp: tg)
  have "\<forall>h \<in> set (map snd pre). set h \<subseteq> set es \<and> set h \<inter> set g = {}"
  proof
    fix h assume "h \<in> set (map snd pre)"
    then obtain t' where h: "(t', h) \<in> set pre" by auto
    have "\<forall>e \<in> set h. token_of e = t' \<and> e \<in> set es" "\<forall>e \<in> set g. token_of e = t"
      using bspec [OF Cons.prems(5), of "(t', h)"] bspec [OF Cons.prems(5), of "(t, g)"] h
      by (simp_all add: tg)
    with key [OF h] show "set h \<subseteq> set es \<and> set h \<inter> set g = {}" by auto
  qed
  moreover have "set g \<subseteq> set es" using Cons.prems(5) by (auto simp: tg)
  ultimately have "plan_sound es (g # map snd pre) plan1"
    using plan_group_startup [OF p(1) Cons.prems(2)] Cons.prems(3) by blast
  then have "plan_sound es (map snd ((t, g) # pre)) plan1" by simp
  from Cons.IH [OF p(2) this Cons.prems(3)] Cons.prems(4,5)
  have "plan_sound es (map snd (rev m @ (t, g) # pre)) plan'" by (auto simp: tg)
  then show ?case by (simp add: tg)
qed simp

lemma build_startup_sound:
  assumes "build_disk_sync_plan st snap Startup = Inr plan"
    "distinct (map de_path (ss_entries snap))"
  defines "es \<equiv> ss_entries snap"
  shows "(\<forall>(p, d) \<in> set (pl_writes plan). \<exists>e \<in> set es. p = de_path e \<and> af_refresh_token d = token_of e)"
    "\<forall>e \<in> set es. \<exists>c \<in> set es. token_of c = token_of e \<and> de_path c \<notin> set (pl_removals plan)"
proof -
  let ?m = "entries_by_refresh_token es"
  note g = grouped_entries [of es, unfolded grouped_def]
  have mem: "\<forall>(t, h) \<in> set ([] @ ?m). \<forall>e \<in> set h. token_of e = t \<and> e \<in> set es"
    using g map_of_is_SomeI by fastforce
  have sound: "plan_sound es (map snd (rev ?m @ [])) plan"
  proof (rule plan_groups_startup [OF _ _ _ _ mem])
    show "plan_groups st (ss_observed_paths snap) Startup (map snd ?m)
       \<lparr>pl_mode = Startup, pl_writes = [], pl_removals = [], pl_upserts = [], pl_seen_ids = [],
        pl_failed_file_ids = ss_failed_file_ids snap\<rparr> = Inr plan"
      using assms(1) by (simp add: build_disk_sync_plan_def es_def)
    show "distinct (map de_path es)" using assms(2) by (simp add: es_def)
    show "distinct (map fst ([] @ ?m))" using g by simp
  qed (simp add: plan_sound_def)
  then show "\<forall>(p, d) \<in> set (pl_writes plan). \<exists>e \<in> set es. p = de_path e \<and> af_refresh_token d = token_of e"
    unfolding plan_sound_def by blast
  show "\<forall>e \<in> set es. \<exists>c \<in> set es. token_of c = token_of e \<and> de_path c \<notin> set (pl_removals plan)"
  proof
    fix e assume e: "e \<in> set es"
    with g obtain h where h: "map_of ?m (token_of e) = Some h" "e \<in> set h" by blast
    then have "h \<in> set (map snd (rev ?m @ []))" by (force dest: map_of_SomeD)
    with sound obtain c where "c \<in> set h" "de_path c \<notin> set (pl_removals plan)"
      unfolding plan_sound_def by blast
    with g h(1) show "\<exists>c \<in> set es. token_of c = token_of e \<and> de_path c \<notin> set (pl_removals plan)"
      by blast
  qed
qed

subsection \<open>Carrying it out\<close>

lemma temp_not_json:
  assumes "p \<noteq> []" "path_extension q = Some ''json''"
  shows "q \<noteq> temp_account_path stamp p"
proof
  assume "q = temp_account_path stamp p"
  then have "snd (split_extension (''.'' @ last p @ ''.'' @ show_nat stamp @ ''.tmp'')) = Some ''json''"
    using assms by (simp add: temp_account_path_last path_extension_def file_name_def)
  then show False by (simp add: split_extension_def Let_def split: if_splits)
qed


lemma read_of_cong: "map_of fs p = map_of fs' p \<Longrightarrow> holds_token E fs p t = holds_token E fs' p t"
  by (simp add: holds_token_def read_of_def)

definition all_held :: "externals \<Rightarrow> fs \<Rightarrow> disk_account_entry list \<Rightarrow> bool" where
  "all_held E fs es \<longleftrightarrow> (\<forall>e \<in> set es. holds_token E fs (de_path e) (token_of e))"

lemma holds_exists: "holds_token E fs p t \<Longrightarrow> fs_exists fs p"
  by (auto simp: holds_token_def read_of_def fs_exists_def split: option.splits)

lemma write_keeps_all_held:
  assumes rt: "\<forall>f. json_stream E (print_json_pretty E (account_file_to_json f))
                  = Some (account_file_to_json f)"
    and held: "all_held E fs es"
    and paths: "\<forall>e \<in> set es. de_path e \<noteq> [] \<and> butlast (de_path e) = dir
                  \<and> path_extension (de_path e) = Some ''json''"
    and distinct: "distinct (map de_path es)"
    and w: "e0 \<in> set es" "p = de_path e0" "af_refresh_token disk = token_of e0"
  shows "all_held E (fst (write_account_file E F stamp p disk fs)) es"
  unfolding all_held_def
proof
  fix e assume e: "e \<in> set es"
  let ?w = "write_account_file E F stamp p disk fs"
  have h: "holds_token E fs (de_path e) (token_of e)" using held e by (simp add: all_held_def)
  have p: "p \<noteq> []" "butlast p = dir" using paths w by auto
  note atomic = write_account_file_atomic [of E F stamp p disk fs]
  show "holds_token E (fst ?w) (de_path e) (token_of e)"
  proof (cases "de_path e = p")
    case True
    with w e distinct have "e = e0" by (auto simp: distinct_map dest: inj_onD)
    show ?thesis
    proof (cases "snd ?w")
      case (Inl err)
      with atomic True have "map_of (fst ?w) (de_path e) = map_of fs (de_path e)" by simp
      with h show ?thesis by (simp add: read_of_cong [of "fst ?w" "de_path e" fs])
    next
      case (Inr u)
      with atomic True
      have "read_of (fst ?w) (de_path e) = Some (account_file_bytes E disk)"
        by (simp add: read_of_def)
      moreover from h have "normalize_refresh_token (token_of e) = Inr (token_of e)"
        by (auto simp: holds_token_def dest: normalize_refresh_token_idem)
      moreover have "account_file_of_bytes E (account_file_bytes E disk) = Some disk"
        by (simp add: account_file_of_bytes_def account_file_bytes_def rt)
      ultimately show ?thesis using \<open>e = e0\<close> w(3) by (simp add: holds_token_def)
    qed
  next
    case False
    have "de_path e \<noteq> butlast p" using paths e p(2) by (metis length_butlast_less less_irrefl)
    moreover have "de_path e \<noteq> temp_account_path stamp p"
      using temp_not_json [OF p(1)] paths e by blast
    ultimately have "map_of (fst ?w) (de_path e) = map_of fs (de_path e)"
      using atomic False holds_exists [OF h] by blast
    with h show ?thesis by (simp add: read_of_cong [of "fst ?w" "de_path e" fs])
  qed
qed

lemma writes_keep_all_held:
  assumes rt: "\<forall>f. json_stream E (print_json_pretty E (account_file_to_json f))
                  = Some (account_file_to_json f)"
    and paths: "\<forall>e \<in> set es. de_path e \<noteq> [] \<and> butlast (de_path e) = dir
                  \<and> path_extension (de_path e) = Some ''json''"
    and distinct: "distinct (map de_path es)"
    and held: "all_held E fs es"
    and ws: "\<forall>(p, d) \<in> set ws. \<exists>e \<in> set es. p = de_path e \<and> af_refresh_token d = token_of e"
  shows "all_held E (fst (sync_writes E F stamp ws fs)) es"
  using held ws
proof (induction ws arbitrary: fs)
  case (Cons w ws)
  obtain p d where w: "w = (p, d)" by fastforce
  from Cons.prems(2) w obtain e0 where
    e0: "e0 \<in> set es" "p = de_path e0" "af_refresh_token d = token_of e0" by auto
  have rest: "\<forall>(p, d) \<in> set ws. \<exists>e \<in> set es. p = de_path e \<and> af_refresh_token d = token_of e"
    using Cons.prems(2) by simp
  show ?case
    unfolding w sync_writes.simps
  proof (rule io_bind_inv)
    show "all_held E (fst (write_account_file E F (stamp p) p d fs)) es"
      by (rule write_keeps_all_held [OF rt Cons.prems(1) paths distinct e0])
  qed (rule Cons.IH [OF _ rest])
qed simp

lemma removals_frame: "q \<notin> set ps \<Longrightarrow> map_of (fst (sync_removals F ps fs)) q = map_of fs q"
proof (induction ps arbitrary: fs)
  case (Cons p ps)
  have "map_of (fst (io_bind (io_context ''remove duplicate refresh token account file''
       (sys_remove_file F p fs)) (\<lambda>_. sync_removals F ps))) q = map_of fs q"
    by (rule map_of_io_bind) (use Cons in \<open>auto simp: remove_file_frame\<close>)
  with Cons show ?case by simp
qed simp

lemma execute_sync_keeps_token:
  assumes "\<forall>f. json_stream E (print_json_pretty E (account_file_to_json f))
                  = Some (account_file_to_json f)"
    and "\<forall>e \<in> set es. de_path e \<noteq> [] \<and> butlast (de_path e) = dir
                  \<and> path_extension (de_path e) = Some ''json''"
    and "distinct (map de_path es)" "all_held E fs es"
    and "\<forall>(p, d) \<in> set (pl_writes plan). \<exists>e \<in> set es. p = de_path e \<and> af_refresh_token d = token_of e"
    and "c \<in> set es" "de_path c \<notin> set (pl_removals plan)"
  shows "holds_token E (fst (execute_disk_sync_fs E F stamp plan fs)) (de_path c) (token_of c)"
proof -
  have w: "all_held E (fst (sync_writes E F stamp (pl_writes plan) fs)) es"
    by (rule writes_keep_all_held [OF assms(1-5)])
  show ?thesis
    unfolding execute_disk_sync_fs_def
  proof (rule io_bind_inv)
    show "holds_token E (fst (sync_writes E F stamp (pl_writes plan) fs)) (de_path c) (token_of c)"
      using w assms(6) by (simp add: all_held_def)
    fix a fs
    show "holds_token E fs (de_path c) (token_of c) \<Longrightarrow>
        holds_token E (fst (sync_removals F (pl_removals plan) fs)) (de_path c) (token_of c)"
      by (simp add: read_of_cong [OF removals_frame [OF assms(7)]])
  qed
qed

text \<open>
  C14: the start-up synchronisation, which merges the account files that share a refresh token, loses
  no token: whatever calls of the file system fail and wherever it stops, every token read by the
  scan is afterwards held by some file. The hypothesis is serde\_json's round trip.
\<close>

theorem startup_sync_keeps_tokens:
  assumes "\<forall>f. json_stream E (print_json_pretty E (account_file_to_json f))
                  = Some (account_file_to_json f)"
    and "scan_accounts_dir E F dir fs0 = (fs1, Inr snap)"
    and "e \<in> set (ss_entries snap)"
  shows "\<exists>p. holds_token E (fst (startup_sync_accounts_from_disk E F stamp dir st st' fs0)) p
               (token_of e)"
proof -
  let ?es = "ss_entries snap"
  from scan_accounts_dir_ok [OF assms(2)] obtain ps where
    scan: "scanned E fs1 ps ?es" "\<forall>p \<in> set ps. p \<noteq> [] \<and> butlast p = dir" by blast
  have paths: "\<forall>e \<in> set ?es. de_path e \<noteq> [] \<and> butlast (de_path e) = dir
                  \<and> path_extension (de_path e) = Some ''json''"
    and distinct: "distinct (map de_path ?es)" and held: "all_held E fs1 ?es"
    using scan by (auto simp: scanned_def all_held_def)
  have sync: "startup_sync_accounts_from_disk E F stamp dir st st' fs0 =
      (case build_disk_sync_plan st snap Startup of
        Inl err \<Rightarrow> (fs1, Inl err)
      | Inr plan \<Rightarrow> io_bind (execute_disk_sync_fs E F stamp plan fs1)
          (\<lambda>_ fs. (fs, Inr (apply_disk_sync_plan plan st'))))"
    using assms(2) by (simp add: startup_sync_accounts_from_disk_def sync_accounts_from_disk_def)
  show ?thesis
  proof (cases "build_disk_sync_plan st snap Startup")
    case (Inl err)
    with held assms(3) show ?thesis unfolding sync all_held_def by auto
  next
    case (Inr plan)
    note sound = build_startup_sound [OF Inr distinct]
    from sound(2) assms(3) obtain c where
      c: "c \<in> set ?es" "token_of c = token_of e" "de_path c \<notin> set (pl_removals plan)" by metis
    have "holds_token E (fst (io_bind (execute_disk_sync_fs E F stamp plan fs1)
        (\<lambda>_ fs. (fs, Inr (apply_disk_sync_plan plan st'))))) (de_path c) (token_of e)"
      using execute_sync_keeps_token [OF assms(1) paths distinct held sound(1) c(1,3)] c(2)
      by (intro io_bind_inv [where P = "\<lambda>fs. holds_token E fs (de_path c) (token_of e)"]) simp_all
    then show ?thesis unfolding sync Inr by auto
  qed
qed

section \<open>A concrete directory\<close>

definition no_faults :: faults where "no_faults c fs = None"

definition token_file :: "string \<Rightarrow> account_file" where
  "token_file t = \<lparr>af_refresh_token = t, af_label = None, af_email = None\<rparr>"

definition sample_fs :: "string \<Rightarrow> string \<Rightarrow> fs" where
  "sample_fs t u =
     [([''d''], DirNode 448), ([''d'', ''trash''], DirNode 448),
      ([''d'', ''a.json''], FileNode (account_file_bytes sample_externals (token_file t)) 384),
      ([''d'', ''b.json''], FileNode (account_file_bytes sample_externals (token_file u)) 384)]"

definition sample_entry :: "string \<Rightarrow> string \<Rightarrow> disk_account_entry" where
  "sample_entry n t = \<lparr>de_id = n, de_path = [''d'', n @ ''.json''], de_disk = token_file t\<rparr>"

definition sample_snapshot :: "string \<Rightarrow> string \<Rightarrow> disk_scan_snapshot" where
  "sample_snapshot t u =
     \<lparr>ss_entries = [sample_entry ''a'' t, sample_entry ''b'' u], ss_failed_file_ids = [],
      ss_observed_paths = [[''d'', ''b.json''], [''d'', ''a.json'']]\<rparr>"

lemma sample_bytes [simp]:
  "account_file_of_bytes sample_externals (account_file_bytes sample_externals f) = Some f"
  by (simp add: account_file_of_bytes_def account_file_bytes_def)

lemma sample_names:
  "split_extension ''a.json'' = (''a'', Some ''json'')"
  "split_extension ''b.json'' = (''b'', Some ''json'')"
  by code_simp+

lemma sample_fs_get:
  "map_of (sample_fs t u) [''d''] = Some (DirNode 448)"
  "map_of (sample_fs t u) [''d'', ''trash''] = Some (DirNode 448)"
  "map_of (sample_fs t u) [''d'', ''a.json'']
     = Some (FileNode (account_file_bytes sample_externals (token_file t)) 384)"
  "map_of (sample_fs t u) [''d'', ''b.json'']
     = Some (FileNode (account_file_bytes sample_externals (token_file u)) 384)"
  by (simp_all add: sample_fs_def)

lemma sample_dirs: "ensure_accounts_directories no_faults [''d''] (sample_fs t u) = (sample_fs t u, Inr ())"
  by (simp add: ensure_accounts_directories_def ensure_private_dir_def sys_create_dir_all_def
      missing_dirs_def fs_exists_def is_file_def sys_set_permissions_def no_faults_def sample_fs_def
      TRASH_DIR_NAME_def private_dir_mode_def with_mode_def make_dirs_def upt_rec numeral_2_eq_2)

lemma sample_ls:
  "sys_read_dir no_faults [''d''] (sample_fs t u)
   = (sample_fs t u, Inr [[''d'', ''trash''], [''d'', ''a.json''], [''d'', ''b.json'']])"
  by (simp add: sys_read_dir_def no_faults_def is_dir_def sample_fs_def)

lemma sample_scan:
  assumes "normalize_refresh_token t = Inr t" "normalize_refresh_token u = Inr u"
  shows "scan_accounts_dir sample_externals no_faults [''d''] (sample_fs t u)
         = (sample_fs t u, Inr (sample_snapshot t u))"
  by (simp add: scan_accounts_dir_def sample_dirs sample_ls Let_def scan_entry_def is_file_def
      path_extension_def file_stem_def file_name_def sample_names ACCOUNT_FILE_EXTENSION_def
      sys_read_file_def no_faults_def read_of_def sample_fs_get sample_snapshot_def sample_entry_def
      token_file_def assms)

lemma sample_normal: "normalize_refresh_token ''t'' = Inr ''t''" "normalize_refresh_token ''u'' = Inr ''u''"
  by (simp_all add: normalize_refresh_token_def str_trim_graphic is_graphic_def)

theorem startup_sync_keeps_tokens_witness:
  "\<exists>p. holds_token sample_externals
     (fst (startup_sync_accounts_from_disk sample_externals no_faults (\<lambda>_. 0) [''d'']
            (new_store [''d'']) (new_store [''d'']) (sample_fs ''t'' ''t''))) p ''t''"
  using startup_sync_keeps_tokens [of sample_externals no_faults "[''d'']" "sample_fs ''t'' ''t''"
      "sample_fs ''t'' ''t''" "sample_snapshot ''t'' ''t''" "sample_entry ''b'' ''t''" "\<lambda>_. 0"
      "new_store [''d'']" "new_store [''d'']"]
  by (simp add: sample_scan sample_normal) (simp add: sample_snapshot_def sample_entry_def token_file_def)

definition rotated_store :: account_store where
  "rotated_store =
     \<lparr>st_accounts_dir = [''d''],
      st_records = [(''a'', new_account_record ''a'' [''d'', ''a.json''] (token_file ''u''))],
      st_round_robin_cursor = 0\<rparr>"


section \<open>Importing\<close>

lemma find_id_some:
  assumes "wf_store st" "find_account_id_by_refresh_token st token = Some aid"
  obtains r where "records_get st aid = Some r" "\<not> ar_detached r" "ar_refresh_token r = token"
proof -
  from assms(2) obtain r where r: "find (\<lambda>r. \<not> ar_detached r \<and> ar_refresh_token r = token)
      (store_values st) = Some r" "aid = ar_id r"
    by (auto simp: find_account_id_by_refresh_token_def)
  then have "r \<in> set (store_values st)" "\<not> ar_detached r" "ar_refresh_token r = token"
    by (auto simp: find_Some_iff)
  with that wf_mem [OF assms(1)] r(2) show ?thesis by blast
qed

lemma store_values_update_same:
  assumes "records_get st aid = Some r" "f r' = f r"
  shows "map f (store_values (records_insert aid r' st)) = map f (store_values st)"
proof -
  have "map f (map snd (AList.update aid r' xs)) = map f (map snd xs)"
    if "map_of xs aid = Some r" for xs
    using that assms(2) by (induction xs) (auto split: if_splits)
  with assms(1) show ?thesis by (simp add: records_get_def store_values_def records_insert_def)
qed

lemma find_map_eq:
  assumes "map f xs = map f ys" "\<And>x. P x = Q (f x)" "\<And>x. g x = h (f x)"
  shows "map_option g (find P xs) = map_option g (find P ys)"
  using assms(1)
proof (induction xs arbitrary: ys)
  case (Cons x xs)
  then obtain y ys' where ys: "ys = y # ys'" "f x = f y" "map f xs = map f ys'" by (cases ys) auto
  with Cons.IH [of ys'] show ?case by (simp add: assms(2,3))
qed simp

lemma find_id_update_same:
  assumes "records_get st aid = Some r" "ar_id r' = ar_id r" "ar_detached r' = ar_detached r"
    "ar_refresh_token r' = ar_refresh_token r"
  shows "find_account_id_by_refresh_token (records_insert aid r' st) token
       = find_account_id_by_refresh_token st token"
  unfolding find_account_id_by_refresh_token_def
  by (rule find_map_eq [where f = "\<lambda>r. (ar_id r, ar_detached r, ar_refresh_token r)"
        and Q = "\<lambda>(i, d, t). \<not> d \<and> t = token" and h = fst])
    (use assms store_values_update_same [of st aid r "\<lambda>r. (ar_id r, ar_detached r, ar_refresh_token r)" r'] in auto)

lemma store_values_insert_new:
  "records_get st aid = None \<Longrightarrow> store_values (records_insert aid r st) = store_values st @ [r]"
proof -
  have "map snd (AList.update aid r xs) = map snd xs @ [r]" if "map_of xs aid = None" for xs
    using that by (induction xs) (auto split: if_splits)
  then show "records_get st aid = None \<Longrightarrow> ?thesis"
    by (simp add: records_get_def store_values_def records_insert_def)
qed

lemma find_id_insert_new:
  assumes "find_account_id_by_refresh_token st token = None" "records_get st aid = None"
    "ar_id r = aid" "\<not> ar_detached r" "ar_refresh_token r = token"
  shows "find_account_id_by_refresh_token (records_insert aid r st) token = Some aid"
proof -
  have "find P (xs @ [r]) = Some r" if "find P xs = None" "P r" for P xs
    using that by (induction xs) (auto split: if_splits)
  with assms show ?thesis
    by (simp add: find_account_id_by_refresh_token_def store_values_insert_new)
qed

text \<open>The metadata of an update are fixed points of the next one.\<close>

lemma metadata_update_again:
  assumes "records_get st aid = Some r"
    "ar_label r = (if l \<noteq> None then l else old_l)" "ar_email r = (if e \<noteq> None then e else old_e)"
  shows "prepare_existing_account_metadata_update st aid l e
    = Inr \<lparr>iap_account_id = aid, iap_already_exists = True, iap_apply = ImportNone, iap_disk_op = None\<rparr>"
  using assms by (auto simp: prepare_existing_account_metadata_update_def)

abbreviation import_found :: "string \<Rightarrow> import_account_plan" where
  "import_found aid \<equiv> \<lparr>iap_account_id = aid, iap_already_exists = True, iap_apply = ImportNone, iap_disk_op = None\<rparr>"

lemma import_new_again:
  assumes "prepare_import_account E st token label email = Inr plan" "normalize_refresh_token token = Inr t"
    and none: "find_account_id_by_refresh_token st t = None"
    and "iap_already_exists plan \<or> records_get st (iap_account_id plan) = None"
    and "apply_import_account_plan plan st = (st', Inr res)"
  shows "prepare_import_account E st' token label email = Inr (import_found (iap_account_id plan))"
proof -
  let ?l = "normalize_optional_metadata label" and ?e = "normalize_optional_metadata email"
  let ?aid = "stable_account_id E t"
  let ?path = "st_accounts_dir st @ [?aid @ ''.'' @ ACCOUNT_FILE_EXTENSION]"
  let ?disk = "\<lparr>af_refresh_token = t, af_label = ?l, af_email = ?e\<rparr>"
  let ?r = "new_account_record ?aid ?path ?disk"
  have plan: "plan = \<lparr>iap_account_id = ?aid, iap_already_exists = False,
      iap_apply = ImportInsert ?aid ?path ?disk, iap_disk_op = Some (OpWrite ?path ?disk)\<rparr>"
    using assms(1,2) none by (simp add: prepare_import_account_def Let_def)
  with assms(4) have fresh: "records_get st ?aid = None" by simp
  with plan assms(5) have st': "st' = records_insert ?aid ?r st"
    by (auto simp: apply_import_account_plan_def upsert_disk_record_def view_def)
  have "find_account_id_by_refresh_token st' t = Some ?aid"
    unfolding st' by (rule find_id_insert_new [OF none fresh]) (simp_all add: new_account_record_def)
  moreover have "prepare_existing_account_metadata_update st' ?aid ?l ?e = Inr (import_found ?aid)"
    by (rule metadata_update_again [where r = ?r and old_l = None and old_e = None])
      (simp_all add: st' new_account_record_def)
  ultimately show ?thesis using assms(2) plan by (simp add: prepare_import_account_def Let_def)
qed

lemma import_known_again:
  assumes "wf_store st" "prepare_import_account E st token label email = Inr plan"
    and t: "normalize_refresh_token token = Inr t"
    and some: "find_account_id_by_refresh_token st t = Some aid"
    and "apply_import_account_plan plan st = (st', Inr res)"
  shows "prepare_import_account E st' token label email = Inr (import_found (iap_account_id plan))"
proof -
  let ?l = "normalize_optional_metadata label" and ?e = "normalize_optional_metadata email"
  from find_id_some [OF assms(1) some] obtain r where
    r: "records_get st aid = Some r" "\<not> ar_detached r" "ar_refresh_token r = t" .
  have upd: "prepare_existing_account_metadata_update st aid ?l ?e = Inr plan"
    using assms(2) t some by (simp add: prepare_import_account_def Let_def)
  define nl where "nl = (if ?l \<noteq> None \<and> ar_label r \<noteq> ?l then ?l else ar_label r)"
  define ne where "ne = (if ?e \<noteq> None \<and> ar_email r \<noteq> ?e then ?e else ar_email r)"
  from upd r(1) have p: "iap_account_id plan = aid"
    "iap_apply plan = ImportUpdateMetadata aid nl ne \<or>
       iap_apply plan = ImportNone \<and> nl = ar_label r \<and> ne = ar_email r"
    by (auto simp: prepare_existing_account_metadata_update_def nl_def ne_def
        split: prod.splits if_splits)
  have st': "st' = records_insert aid (r\<lparr>ar_label := nl, ar_email := ne\<rparr>) st
      \<or> st' = st \<and> nl = ar_label r \<and> ne = ar_email r"
    using p assms(5) r(1) by (auto simp: apply_import_account_plan_def view_def)
  have "find_account_id_by_refresh_token st' t = Some aid"
    using st' some find_id_update_same [OF r(1), of "r\<lparr>ar_label := nl, ar_email := ne\<rparr>"] by auto
  moreover obtain r' where r': "records_get st' aid = Some r'" "ar_label r' = nl" "ar_email r' = ne"
    using st' r(1) by auto
  have "prepare_existing_account_metadata_update st' aid ?l ?e = Inr (import_found aid)"
    by (rule metadata_update_again [OF r'(1), where old_l = "ar_label r" and old_e = "ar_email r"])
      (auto simp: r' nl_def ne_def)
  ultimately show ?thesis using t p(1) by (simp add: prepare_import_account_def Let_def)
qed

text \<open>
  Importing is idempotent. After an import that found the account or whose id is not in the
  store, importing the same token and metadata again finds the account and neither changes the
  store nor writes a file.
\<close>

theorem import_idempotent:
  assumes "wf_store st"
    and "prepare_import_account E st token label email = Inr plan"
    and "iap_already_exists plan \<or> records_get st (iap_account_id plan) = None"
    and "apply_import_account_plan plan st = (st', Inr res)"
  shows "prepare_import_account E st' token label email
     = Inr \<lparr>iap_account_id = iap_account_id plan, iap_already_exists = True,
            iap_apply = ImportNone, iap_disk_op = None\<rparr>"
proof -
  from assms(2) obtain t where t: "normalize_refresh_token token = Inr t"
    by (auto simp: prepare_import_account_def split: sum.splits)
  show ?thesis
    by (cases "find_account_id_by_refresh_token st t")
      (use import_new_again [OF assms(2) t _ assms(3,4)] import_known_again [OF assms(1,2) t _ assms(4)] in simp_all)
qed

theorem import_idempotent_witness:
  "prepare_import_account sample_externals
     (records_insert (stable_account_id sample_externals ''t'')
       (new_account_record (stable_account_id sample_externals ''t'')
         [''d'', stable_account_id sample_externals ''t'' @ ''.json''] (token_file ''t''))
       (new_store [''d''])) ''t'' None None
   = Inr \<lparr>iap_account_id = stable_account_id sample_externals ''t'', iap_already_exists = True,
          iap_apply = ImportNone, iap_disk_op = None\<rparr>"
proof -
  let ?aid = "stable_account_id sample_externals ''t''"
  let ?disk = "\<lparr>af_refresh_token = ''t'', af_label = None, af_email = None\<rparr>"
  let ?path = "[''d'', ?aid @ ''.json'']"
  let ?plan = "\<lparr>iap_account_id = ?aid, iap_already_exists = False,
      iap_apply = ImportInsert ?aid ?path ?disk, iap_disk_op = Some (OpWrite ?path ?disk)\<rparr>"
  have prep: "prepare_import_account sample_externals (new_store [''d'']) ''t'' None None = Inr ?plan"
    by (simp add: prepare_import_account_def sample_normal normalize_optional_metadata_def
        find_account_id_by_refresh_token_def new_store_def store_values_def ACCOUNT_FILE_EXTENSION_def
        Let_def)
  have app: "apply_import_account_plan ?plan (new_store [''d''])
      = (records_insert ?aid (new_account_record ?aid ?path ?disk) (new_store [''d'']),
         Inr \<lparr>iar_account = account_view_from (new_account_record ?aid ?path ?disk),
              iar_already_exists = False\<rparr>)"
    by (simp add: apply_import_account_plan_def upsert_disk_record_def view_def)
  show ?thesis
    using import_idempotent [OF wf_new_store prep _ app] by (simp add: token_file_def)
qed


end
