(* ===== verification/Account_Machine.thy ===== *)
theory Account_Machine
  imports Account_Persistence
begin

text \<open>
  The account store as a state machine: every operation the program performs on it is a step, the
  invariants of the reachable stores follow from what each change of a record keeps (the locales
  \<open>record_op\<close> and \<open>counted_op\<close>), and a ghost counter of unsettled selections is simulated by the
  in-flight counters of the records.
\<close>

section \<open>Operations on one record\<close>

text \<open>
  Every operation of the store changes a record it looked up. What the store relies on is that the
  change keeps the id, the consistency of the block, and the ownership of a refresh; \<open>settles\<close> is
  what it takes from the requests in flight.
\<close>

definition refresh_owned :: "account_record \<Rightarrow> bool" where
  "refresh_owned r \<longleftrightarrow> (ar_refresh_in_flight r \<longrightarrow> ar_in_flight_requests r \<noteq> 0)"

definition good_record :: "account_record \<Rightarrow> bool" where
  "good_record r \<longleftrightarrow> block_consistent r \<and> refresh_owned r"

locale record_op =
  fixes f :: "account_record \<Rightarrow> account_record"
  assumes keeps_id: "ar_id (f r) = ar_id r"
begin

lemma wf_update:
  "wf_store st \<Longrightarrow> records_get st k = Some r \<Longrightarrow> wf_store (records_insert k (f r) st)"
  using keeps_id wf_get by (metis wf_insert)

end

locale counted_op = record_op +
  fixes settles :: nat
  assumes in_flight: "unat (ar_in_flight_requests (f r)) = unat (ar_in_flight_requests r) - settles"
    and keeps_good: "good_record r \<Longrightarrow> good_record (f r)"

lemma unat_sat_sub_one: "unat (sat_sub w 1) = unat w - 1" for w :: u32
  by (simp add: unat_sat_sub)

lemma owned_if_not_refreshing [simp]: "\<not> ar_refresh_in_flight r \<Longrightarrow> refresh_owned r"
  by (simp add: refresh_owned_def)

interpretation op_wake: counted_op "\<lambda>r. fst (apply_wake r)" 0
  by unfold_locales (simp_all add: apply_wake_def Let_def good_record_def refresh_owned_def)

interpretation op_success: counted_op "success_record now" 1 for now
  by unfold_locales (simp_all add: success_record_def Let_def unat_sat_sub_one good_record_def)

interpretation op_invalidate: counted_op "invalidate_record now" 0 for now
  by unfold_locales (simp_all add: invalidate_record_def Let_def good_record_def)

interpretation op_release: counted_op "release_record now" 1 for now
  by unfold_locales (simp_all add: release_record_def Let_def unat_sat_sub_one good_record_def)

interpretation op_refresh_success: counted_op "refresh_success_record now refreshed" 0 for now refreshed
  by unfold_locales (simp_all add: refresh_success_record_def Let_def good_record_def)

interpretation op_prepare_invalid: counted_op "prepare_auth_invalid_record now details" 1 for now details
  by unfold_locales (simp_all add: prepare_auth_invalid_record_def failure_header_def
      unat_sat_sub_one good_record_def)

interpretation op_finalize_invalid: counted_op finalize_auth_invalid_record 0
  by unfold_locales (simp_all add: finalize_auth_invalid_record_def good_record_def refresh_owned_def)

interpretation op_note_trash: counted_op "note_trash_failure_record now e" 0 for now e
  by unfold_locales (simp_all add: note_trash_failure_record_def Let_def good_record_def
      refresh_owned_def)

interpretation op_expire: counted_op "refresh_expired_record now" 0 for now
  by unfold_locales (simp_all add: good_record_def refresh_owned_def)

interpretation op_reload: counted_op "reload_record path disk" 0 for path disk
  by unfold_locales (simp_all add: reload_record_def Let_def good_record_def refresh_owned_def)

interpretation op_metadata: counted_op "\<lambda>r. r\<lparr>ar_label := l, ar_email := e\<rparr>" 0 for l e
  by unfold_locales (simp_all add: good_record_def refresh_owned_def)

interpretation op_detach: counted_op "\<lambda>r. r\<lparr>ar_detached := True\<rparr>" 0
  by unfold_locales (simp_all add: good_record_def refresh_owned_def)

lemma failure_header_simps [simp]:
  "ar_id (failure_header now details r) = ar_id r"
  "ar_refresh_in_flight (failure_header now details r) = False"
  "ar_in_flight_requests (failure_header now details r) = sat_sub (ar_in_flight_requests r) 1"
  "block_consistent (failure_header now details r) = block_consistent r"
  by (simp_all add: failure_header_def)

definition failure_frame :: "account_record \<Rightarrow> account_record \<Rightarrow> bool" where
  "failure_frame r r' \<longleftrightarrow> ar_id r' = ar_id r \<and> \<not> ar_refresh_in_flight r'
     \<and> ar_in_flight_requests r' = sat_sub (ar_in_flight_requests r) 1
     \<and> (block_consistent r \<longrightarrow> block_consistent r')"

lemma failure_frame_transition:
  "failure_frame r r' \<Longrightarrow> failure_frame r (apply_block_transition r' now t)"
  by (simp add: failure_frame_def)

lemma failure_frame_level:
  "failure_frame r r' \<Longrightarrow> failure_frame r (r'\<lparr>ar_local_backoff_level := l\<rparr>)"
  by (simp add: failure_frame_def)

lemma failure_frame_retryable:
  assumes "failure_frame r r'"
  shows "failure_frame r (outcome_state (apply_retryable_block E r' now reason d))"
  by (rule apply_retryable_block_cases [of E r' now reason d])
    (use assms in \<open>auto intro: failure_frame_transition failure_frame_level\<close>)

lemma failure_frame_fixed:
  assumes "failure_frame r r'"
  shows "failure_frame r (outcome_state (apply_fixed_block E r' now reason d))"
  by (rule apply_fixed_block_cases [of E r' now reason d])
    (use assms in \<open>auto intro: failure_frame_transition\<close>)

lemma failure_frame_state:
  "failure_frame r r' \<Longrightarrow> failure_frame r (r'\<lparr>ar_routing_state := s\<rparr>)"
  by (simp add: failure_frame_def)

lemma failure_frame_then_state:
  "failure_frame r (outcome_state x) \<Longrightarrow>
     failure_frame r (outcome_state (and_then x (\<lambda>r. Returned (r\<lparr>ar_routing_state := s\<rparr>))))"
  by (cases x) (auto intro: failure_frame_state)

lemma failure_frame_apply:
  "failure_frame r (outcome_state (apply_failure_record E now failure ra details r))"
proof -
  have h: "failure_frame r (failure_header now details r)" by (simp add: failure_frame_def)
  have tok: "failure_frame r (r'\<lparr>ar_access_token := None, ar_access_token_expires_at := None,
      ar_routing_state := s\<rparr>)" if "failure_frame r r'" for r' s
    using that by (simp add: failure_frame_def)
  have inv: "failure_frame r (apply_auth_invalid_block (r'\<lparr>ar_routing_state := s, ar_access_token := None,
      ar_access_token_expires_at := None\<rparr>))" if "failure_frame r r'" for r' s
    using that by (simp add: failure_frame_def)
  show ?thesis
    by (cases failure)
      (simp_all add: apply_failure_record_def Let_def h tok inv failure_frame_fixed
        failure_frame_retryable failure_frame_state failure_frame_then_state)
qed


section \<open>The store as a state machine\<close>

text \<open>
  One step for every operation the program performs on the store under its lock; the event says
  whether the step opened a request on an account (a selection) or settled one.
\<close>

datatype store_event = Selected string | Settled string | Internal

inductive store_step :: "externals \<Rightarrow> account_store \<Rightarrow> store_event \<Rightarrow> account_store \<Rightarrow> bool"
  for E where
  select_ok: "select_account E ck policy skew excluded st = Returned st' (Inr s)
     \<Longrightarrow> store_step E st (Selected (sel_account_id s)) st'"
| select_none: "select_account E ck policy skew excluded st = Returned st' (Inl e)
     \<Longrightarrow> store_step E st Internal st'"
| summarize: "store_step E st Internal
     (outcome_state (summarize_selection_failure E now0 now excluded st))"
| list: "store_step E st Internal (fst (list_accounts now st))"
| wake: "store_step E st Internal (fst (wake_account aid st))"
| wake_all: "store_step E st Internal (fst (wake_all_accounts st))"
| success: "store_step E st (Settled aid) (mark_request_success now aid st)"
| failure: "store_step E st (Settled aid)
     (outcome_state (mark_request_failure E now aid failure ra details st))"
| release: "store_step E st (Settled aid) (release_selection now aid st)"
| invalidate: "store_step E st Internal (invalidate_access_token now aid st)"
| refreshed: "store_step E st Internal
     (fst (finish_refresh_success_without_persist now aid refreshed st))"
| prepare_invalid: "store_step E st (Settled aid)
     (fst (prepare_auth_invalid_failure now aid details st))"
| finalize_invalid: "store_step E st Internal (fst (finalize_auth_invalid_failure aid st))"
| note_trash: "store_step E st Internal (note_auth_invalid_trash_failure now aid error st)"
| import_account: "store_step E st Internal (fst (apply_import_account_plan plan st))"
| remove_account: "store_step E st Internal (apply_remove_account_plan rplan st)"
| disk_sync: "store_step E st Internal (apply_disk_sync_plan splan st)"

inductive_cases store_step_cases: "store_step E st ev st'"

inductive store_run :: "externals \<Rightarrow> account_store \<Rightarrow> store_event list \<Rightarrow> account_store \<Rightarrow> bool"
  for E st where
  start: "store_run E st [] st"
| step: "store_run E st evs st1 \<Longrightarrow> store_step E st1 ev st2 \<Longrightarrow> store_run E st (evs @ [ev]) st2"

text \<open>
  The ghost state counts, per account, the selections not yet settled, in the range of the code's
  counter. The invariant relates it to the records.
\<close>

definition count_event :: "store_event \<Rightarrow> (string \<Rightarrow> nat) \<Rightarrow> (string \<Rightarrow> nat)" where
  "count_event ev out =
     (case ev of
        Selected k \<Rightarrow> out(k := min (out k + 1) (2 ^ 32 - 1))
      | Settled k \<Rightarrow> out(k := out k - 1)
      | Internal \<Rightarrow> out)"

definition in_flight_of :: "account_store \<Rightarrow> string \<Rightarrow> nat" where
  "in_flight_of st k =
     (case records_get st k of Some r \<Rightarrow> unat (ar_in_flight_requests r) | None \<Rightarrow> 0)"

definition good_store :: "account_store \<Rightarrow> bool" where
  "good_store st \<longleftrightarrow> wf_store st \<and> (\<forall>k r. records_get st k = Some r \<longrightarrow> good_record r)"

definition simulates :: "account_store \<Rightarrow> account_store \<Rightarrow> store_event \<Rightarrow> bool" where
  "simulates st st' ev \<longleftrightarrow> good_store st' \<and> in_flight_of st' = count_event ev (in_flight_of st)"

lemma good_storeI:
  "wf_store st \<Longrightarrow> (\<And>k r. records_get st k = Some r \<Longrightarrow> good_record r) \<Longrightarrow> good_store st"
  by (simp add: good_store_def)

lemma good_insert:
  "good_store st \<Longrightarrow> good_record r \<Longrightarrow> ar_id r = k \<Longrightarrow> good_store (records_insert k r st)"
  by (auto simp: good_store_def)

lemma good_remove: "good_store st \<Longrightarrow> good_store (records_remove k st)"
  by (auto simp: good_store_def split: if_splits)

lemma in_flight_insert:
  "in_flight_of (records_insert k r st) = (in_flight_of st)(k := unat (ar_in_flight_requests r))"
  by (auto simp: in_flight_of_def)

lemma in_flight_remove:
  "in_flight_of (records_remove k st) = (in_flight_of st)(k := 0)"
  by (auto simp: in_flight_of_def)

lemma maybe_remove_in_flight [simp]:
  "in_flight_of (maybe_remove_detached k st) = in_flight_of st"
  by (auto simp: maybe_remove_detached_def in_flight_remove in_flight_of_def split: option.split)

lemma maybe_remove_good [simp]: "good_store st \<Longrightarrow> good_store (maybe_remove_detached k st)"
  by (auto simp: maybe_remove_detached_def good_remove split: option.split)

context counted_op
begin

lemma good_update:
  assumes "good_store st" "records_get st k = Some r"
  shows "good_store (records_insert k (f r) st)"
proof (rule good_insert [OF assms(1)])
  show "good_record (f r)" using assms by (auto simp: good_store_def intro: keeps_good)
  show "ar_id (f r) = k" using assms wf_get by (auto simp: good_store_def keeps_id)
qed

lemma in_flight_update:
  "records_get st k = Some r \<Longrightarrow>
     in_flight_of (records_insert k (f r) st) = (in_flight_of st)(k := in_flight_of st k - settles)"
  by (simp add: in_flight_insert in_flight in_flight_of_def)

end

lemma in_flight_none: "records_get st k = None \<Longrightarrow> in_flight_of st k = 0"
  by (simp add: in_flight_of_def)

lemma upd_same: "f k = x \<Longrightarrow> f(k := x) = f"
  by auto

lemmas count_simps = count_event_def simulates_def upd_same

lemma simulates_refresh_expired:
  assumes "good_store st"
  shows "simulates st (refresh_expired_blocks now st) Internal"
proof -
  have "in_flight_of (refresh_expired_blocks now st) k = in_flight_of st k" for k
    by (cases "records_get st k") (simp_all add: in_flight_of_def)
  moreover have "good_store (refresh_expired_blocks now st)"
    using assms by (auto simp: good_store_def intro: op_expire.keeps_good)
  ultimately show ?thesis by (auto simp: simulates_def count_event_def)
qed

lemma simulates_success: "good_store st \<Longrightarrow> simulates st (mark_request_success now k st) (Settled k)"
  by (cases "records_get st k")
    (simp_all add: mark_request_success_def count_simps in_flight_none op_success.good_update
      op_success.in_flight_update)

lemma simulates_release: "good_store st \<Longrightarrow> simulates st (release_selection now k st) (Settled k)"
  by (cases "records_get st k")
    (simp_all add: release_selection_def count_simps in_flight_none op_release.good_update
      op_release.in_flight_update)

lemma simulates_invalidate: "good_store st \<Longrightarrow> simulates st (invalidate_access_token now k st) Internal"
  by (cases "records_get st k")
    (simp_all add: invalidate_access_token_def count_simps op_invalidate.good_update
      op_invalidate.in_flight_update)

lemma simulates_wake: "good_store st \<Longrightarrow> simulates st (fst (wake_account k st)) Internal"
proof (cases "records_get st k")
  case (Some r)
  assume g: "good_store st"
  have "fst (wake_account k st) = records_insert k (fst (apply_wake r)) st"
    by (simp add: wake_account_def Some case_prod_unfold Let_def)
  then show ?thesis
    using op_wake.good_update [OF g Some] op_wake.in_flight_update [OF Some]
    by (simp add: count_simps)
qed (simp add: wake_account_def count_simps)

lemma simulates_trans_internal:
  "simulates st st1 Internal \<Longrightarrow> simulates st1 st2 ev \<Longrightarrow> simulates st st2 ev"
  by (simp add: simulates_def count_event_def split: store_event.splits)

lemma simulates_refl: "good_store st \<Longrightarrow> simulates st st Internal"
  by (simp add: count_simps)

lemma simulates_good: "simulates st st' ev \<Longrightarrow> good_store st'"
  by (simp add: simulates_def)

lemma wake_all_loop_Cons:
  "fst (wake_all_loop (k # ks) st acc)
     = fst (wake_all_loop ks (fst (wake_account k st))
         (case records_get st k of None \<Rightarrow> acc | Some r \<Rightarrow> snd (wake_all_loop [k] st acc)))"
  by (simp add: wake_account_def case_prod_unfold Let_def split: option.split)

lemma simulates_wake_all_loop:
  "good_store st \<Longrightarrow> simulates st (fst (wake_all_loop ks st acc)) Internal"
proof (induction ks arbitrary: st acc)
  case Nil
  then show ?case by (simp add: simulates_refl)
next
  case (Cons k ks)
  show ?case
    unfolding wake_all_loop_Cons
    using simulates_trans_internal [OF simulates_wake [OF Cons.prems]
        Cons.IH [OF simulates_good [OF simulates_wake [OF Cons.prems]]]] .
qed

lemma simulates_failure:
  assumes "good_store st"
  shows "simulates st (outcome_state (mark_request_failure E now k failure ra details st)) (Settled k)"
proof (cases "records_get st k")
  case None
  with assms show ?thesis
    by (simp add: mark_request_failure_def apply_failure_def count_simps in_flight_none)
next
  case (Some r)
  let ?x = "apply_failure_record E now failure ra details r"
  have fr: "failure_frame r (outcome_state ?x)" by (rule failure_frame_apply)
  have "good_record r" "ar_id r = k"
    using assms Some wf_get by (auto simp: good_store_def)
  with fr have g: "good_store (records_insert k (outcome_state ?x) st)"
    by (intro good_insert assms) (simp_all add: failure_frame_def good_record_def)
  have n: "in_flight_of (records_insert k (outcome_state ?x) st)
      = (in_flight_of st)(k := in_flight_of st k - 1)"
    using fr Some by (simp add: in_flight_insert failure_frame_def unat_sat_sub_one in_flight_of_def)
  have "outcome_state (apply_failure E now k failure ra details st)
      = (if \<exists>s. ?x = Panicked s then records_insert k (outcome_state ?x) st
         else maybe_remove_detached k (records_insert k (outcome_state ?x) st))"
    by (cases ?x) (simp_all add: apply_failure_def Some)
  with g n show ?thesis
    by (simp add: mark_request_failure_def simulates_def count_event_def)
qed


lemma simulates_refreshed:
  "good_store st \<Longrightarrow> simulates st (fst (finish_refresh_success_without_persist now k refreshed st)) Internal"
  by (cases "records_get st k")
    (simp_all add: finish_refresh_success_without_persist_def Let_def count_simps
      op_refresh_success.good_update op_refresh_success.in_flight_update)

lemma simulates_prepare_invalid:
  "good_store st \<Longrightarrow> simulates st (fst (prepare_auth_invalid_failure now k details st)) (Settled k)"
  by (cases "records_get st k")
    (simp_all add: prepare_auth_invalid_failure_def Let_def count_simps in_flight_none
      op_prepare_invalid.good_update op_prepare_invalid.in_flight_update)

lemma simulates_finalize_invalid:
  "good_store st \<Longrightarrow> simulates st (fst (finalize_auth_invalid_failure k st)) Internal"
  by (cases "records_get st k")
    (simp_all add: finalize_auth_invalid_failure_def count_simps
      op_finalize_invalid.good_update op_finalize_invalid.in_flight_update)

lemma simulates_note_trash:
  "good_store st \<Longrightarrow> simulates st (note_auth_invalid_trash_failure now k e st) Internal"
  by (cases "records_get st k")
    (simp_all add: note_auth_invalid_trash_failure_def count_simps
      op_note_trash.good_update op_note_trash.in_flight_update)

lemma new_record_good: "good_record (new_account_record k path disk)"
  by (simp add: good_record_def block_consistent_def new_account_record_def)

lemma simulates_upsert: "good_store st \<Longrightarrow> simulates st (upsert_disk_record k path disk st) Internal"
proof (cases "records_get st k")
  case None
  assume g: "good_store st"
  have "unat (ar_in_flight_requests (new_account_record k path disk)) = 0"
    "ar_id (new_account_record k path disk) = k" by (simp_all add: new_account_record_def)
  with g None new_record_good show ?thesis
    by (simp add: upsert_disk_record_def count_simps in_flight_insert in_flight_none good_insert)
qed (simp add: upsert_disk_record_def count_simps op_reload.good_update op_reload.in_flight_update)

lemma simulates_import:
  "good_store st \<Longrightarrow> simulates st (fst (apply_import_account_plan plan st)) Internal"
proof (cases "iap_apply plan")
  case (ImportUpdateMetadata k l e)
  assume g: "good_store st"
  have "fst (apply_import_account_plan plan st) =
     (case records_get st k of None \<Rightarrow> st
      | Some r \<Rightarrow> records_insert k (r\<lparr>ar_label := l, ar_email := e\<rparr>) st)"
    by (simp add: apply_import_account_plan_def ImportUpdateMetadata split: option.split sum.split)
  with g show ?thesis
    by (cases "records_get st k")
      (simp_all add: count_simps op_metadata.good_update op_metadata.in_flight_update)
next
  case (ImportInsert k p d)
  assume g: "good_store st"
  have "fst (apply_import_account_plan plan st) = upsert_disk_record k p d st"
    by (simp add: apply_import_account_plan_def ImportInsert split: sum.split)
  with g simulates_upsert show ?thesis by simp
next
  case ImportNone
  assume g: "good_store st"
  have "fst (apply_import_account_plan plan st) = st"
    by (simp add: apply_import_account_plan_def ImportNone split: sum.split)
  with g simulates_refl show ?thesis by simp
qed

lemma simulates_detach:
  "good_store st \<Longrightarrow> records_get st k = Some r
     \<Longrightarrow> simulates st (records_insert k (r\<lparr>ar_detached := True\<rparr>) st) Internal"
  by (simp add: count_simps op_detach.good_update op_detach.in_flight_update)

lemma simulates_remove:
  "good_store st \<Longrightarrow> simulates st (apply_remove_account_plan plan st) Internal"
proof (cases "records_get st (rap_account_id plan)")
  case (Some r)
  assume g: "good_store st"
  with simulates_detach [OF g Some] show ?thesis
    by (simp add: apply_remove_account_plan_def Some simulates_def count_event_def)
qed (simp add: apply_remove_account_plan_def count_simps)

lemma simulates_sync_existing:
  assumes "good_store st"
  shows "simulates st (sync_existing plan k st) Internal"
proof (cases "records_get st k")
  case None
  with assms show ?thesis by (simp add: sync_existing_def simulates_refl)
next
  case (Some r)
  have "simulates st (records_remove k st) Internal" if "ar_in_flight_requests r = 0"
    using assms Some that
    by (simp add: simulates_def count_event_def good_remove in_flight_remove upd_same in_flight_of_def)
  with assms Some simulates_detach [OF assms Some] show ?thesis
    by (simp add: sync_existing_def simulates_refl)
qed

lemma simulates_fold:
  assumes "\<And>x st. good_store st \<Longrightarrow> simulates st (g x st) Internal" "good_store st"
  shows "simulates st (fold g xs st) Internal"
  using assms(2)
proof (induction xs arbitrary: st)
  case Nil
  then show ?case by (simp add: simulates_refl)
next
  case (Cons x xs)
  from simulates_trans_internal [OF assms(1) [OF Cons.prems]
      Cons.IH [OF simulates_good [OF assms(1) [OF Cons.prems]]]]
  show ?case by simp
qed

lemma simulates_disk_sync:
  assumes "good_store st"
  shows "simulates st (apply_disk_sync_plan plan st) Internal"
proof -
  let ?f = "\<lambda>u. upsert_disk_record (up_id u) (up_path u) (up_disk u)"
  let ?st1 = "fold ?f (pl_upserts plan) st"
  have a: "simulates st ?st1 Internal"
    by (rule simulates_fold [OF simulates_upsert assms])
  have b: "simulates ?st1 (fold (sync_existing plan) (map fst (st_records ?st1)) ?st1) Internal"
    by (rule simulates_fold [OF simulates_sync_existing simulates_good [OF a]])
  from simulates_trans_internal [OF a b] show ?thesis
    by (simp add: apply_disk_sync_plan_def Let_def)
qed

lemma same_records:
  assumes "records_get st2 = records_get st1" "wf_store st2" "good_store st1"
  shows "good_store st2" "in_flight_of st2 = in_flight_of st1"
  using assms by (simp_all add: good_store_def in_flight_of_def [abs_def])

text \<open>The record of the account that was selected, and is warming when its token needs a refresh.\<close>

lemma selected_record:
  fixes r now b
  defines "r' \<equiv> (if b then mark_warming (mark_selected now r) else mark_selected now r)"
  shows "ar_id r' = ar_id r"
    and "unat (ar_in_flight_requests r') = min (unat (ar_in_flight_requests r) + 1) (2 ^ 32 - 1)"
    and "good_record r \<Longrightarrow> good_record r'"
proof -
  show "ar_id r' = ar_id r" by (simp add: r'_def)
  show n: "unat (ar_in_flight_requests r') = min (unat (ar_in_flight_requests r) + 1) (2 ^ 32 - 1)"
    by (simp add: r'_def unat_sat_add)
  then have "ar_in_flight_requests r' \<noteq> 0" by (intro notI) simp
  then show "good_record r'" if "good_record r"
    using that by (auto simp: r'_def good_record_def refresh_owned_def mark_selected_def mark_warming_def)
qed

lemma simulates_select:
  assumes "good_store st"
    "select_account E ck policy skew excluded st = Returned st' v"
  shows "simulates st st' (case v of Inl e \<Rightarrow> Internal | Inr s \<Rightarrow> Selected (sel_account_id s))"
proof -
  have wf: "wf_store st" using assms(1) by (simp add: good_store_def)
  let ?st1 = "refresh_expired_blocks (ck_expire ck) st"
  have s1: "simulates st ?st1 Internal" by (rule simulates_refresh_expired [OF assms(1)])
  note same = same_records [OF _ _ simulates_good [OF s1]]
  show ?thesis
    using wf
  proof (cases rule: select_account_cases [where E = E and ck = ck and policy = policy
        and skew = skew and excluded = excluded])
    case (none st2)
    with assms(2) same [OF none(4,2)] s1 show ?thesis by (auto simp: simulates_def count_event_def)
  next
    case (picked st2 k r)
    from picked(7) assms(2) obtain b where
      v: "v = Inr \<lparr>sel_account_id = k, sel_refresh_token = ar_refresh_token r, sel_needs_refresh = b\<rparr>"
      and st': "st' = records_insert k (if b then mark_warming (mark_selected (ck_selected ck) r)
          else mark_selected (ck_selected ck) r) st2"
      by (auto split: option.splits)
    note st2 = same [OF picked(3,1)] and sel = selected_record [where b = b and now = "ck_selected ck" and r = r]
    have get: "records_get st2 k = Some r" using picked(3,5) by simp
    have "in_flight_of st2 k = unat (ar_in_flight_requests r)" by (simp add: in_flight_of_def get)
    then have n: "in_flight_of st k = unat (ar_in_flight_requests r)"
      using st2(2) s1 by (simp add: simulates_def count_event_def)
    have "good_record r" "ar_id r = k" using st2(1) get wf_get [OF picked(1) get] by (simp_all add: good_store_def)
    then have "good_store st'" unfolding st' using sel by (intro good_insert [OF st2(1)]) simp_all
    moreover have "in_flight_of st' = count_event (Selected k) (in_flight_of st)"
      using st2(2) s1 n sel(2) by (simp add: st' in_flight_insert count_event_def simulates_def)
    ultimately show ?thesis by (simp add: simulates_def v)
  qed
qed

lemma summarize_state:
  "outcome_state (summarize_selection_failure E now0 now excluded st) = refresh_expired_blocks now0 st"
  by (simp add: summarize_selection_failure_def Let_def split: option.split)

lemma list_state: "fst (list_accounts now st) = refresh_expired_blocks now st"
  by (simp add: list_accounts_def Let_def)

lemma store_step_simulates:
  assumes "store_step E st ev st'" "good_store st"
  shows "simulates st st' ev"
  using assms
proof cases
  case (select_ok ck policy skew excluded s)
  with simulates_select [OF assms(2)] show ?thesis by fastforce
next
  case (select_none ck policy skew excluded e)
  with simulates_select [OF assms(2)] show ?thesis by fastforce
qed (use assms(2) in \<open>simp_all add: summarize_state list_state simulates_refresh_expired
    simulates_wake wake_all_accounts_def simulates_wake_all_loop simulates_success simulates_failure
    simulates_release simulates_invalidate simulates_refreshed simulates_prepare_invalid
    simulates_finalize_invalid simulates_note_trash simulates_import simulates_remove
    simulates_disk_sync\<close>)


section \<open>Runs from the empty store\<close>

lemma good_new_store: "good_store (new_store dir)"
  by (simp add: good_store_def)

lemma run_good:
  "store_run E st evs st' \<Longrightarrow> good_store st \<Longrightarrow>
     good_store st' \<and> in_flight_of st' = fold count_event evs (in_flight_of st)"
proof (induction rule: store_run.induct)
  case (step evs st1 ev st2)
  then show ?case
    using store_step_simulates [of E st1 ev st2] by (simp add: simulates_def)
qed simp

text \<open>
  C18: in every store reachable from the empty one, each key is the id of exactly one record, the block
  fields of each record are consistent, and a refresh is in flight only on an account that has a
  request in flight.
\<close>

theorem reachable_store_good:
  assumes "store_run E (new_store dir) evs st"
  shows "wf_store st
    \<and> (\<forall>k r. records_get st k = Some r \<longrightarrow> block_consistent r \<and> refresh_owned r)"
  using run_good [OF assms good_new_store] by (auto simp: good_store_def good_record_def)

definition opened :: "string \<Rightarrow> store_event list \<Rightarrow> nat" where
  "opened k evs = count_list evs (Selected k)"

definition settled :: "string \<Rightarrow> store_event list \<Rightarrow> nat" where
  "settled k evs = count_list evs (Settled k)"

definition balanced :: "string \<Rightarrow> store_event list \<Rightarrow> bool" where
  "balanced k evs \<longleftrightarrow> (\<forall>n \<le> length evs. settled k (take n evs) \<le> opened k (take n evs))"

lemma counts_snoc:
  "opened k (evs @ [ev]) = opened k evs + (if ev = Selected k then 1 else 0)"
  "settled k (evs @ [ev]) = settled k evs + (if ev = Settled k then 1 else 0)"
  by (auto simp: opened_def settled_def)

lemma balanced_snoc:
  assumes "balanced k (evs @ [ev])"
  shows "balanced k evs" "settled k (evs @ [ev]) \<le> opened k (evs @ [ev])"
proof -
  show "balanced k evs"
    unfolding balanced_def
  proof (intro allI impI)
    fix n assume "n \<le> length evs"
    with assms [unfolded balanced_def, rule_format, of n]
    show "settled k (take n evs) \<le> opened k (take n evs)" by simp
  qed
  show "settled k (evs @ [ev]) \<le> opened k (evs @ [ev])"
    using assms [unfolded balanced_def, rule_format, of "length (evs @ [ev])"] by simp
qed

lemma count_event_apply:
  "count_event (Selected j) out k = (if k = j then min (out k + 1) (2 ^ 32 - 1) else out k)"
  "count_event (Settled j) out k = (if k = j then out k - 1 else out k)"
  "count_event Internal out k = out k"
  by (simp_all add: count_event_def)

lemma fold_count_event:
  "balanced k evs \<Longrightarrow> opened k evs < 2 ^ 32 \<Longrightarrow>
     fold count_event evs (\<lambda>_. 0) k = opened k evs - settled k evs"
proof (induction evs rule: rev_induct)
  case Nil
  show ?case by (simp add: opened_def settled_def)
next
  case (snoc ev evs)
  note b = balanced_snoc [OF snoc.prems(1)]
  have "settled k evs \<le> opened k evs"
    using b(1) [unfolded balanced_def, rule_format, of "length evs"] by simp
  moreover have "fold count_event evs (\<lambda>_. 0) k = opened k evs - settled k evs"
    using snoc.IH [OF b(1)] snoc.prems(2) by (simp add: counts_snoc split: if_splits)
  ultimately show ?case
    using b(2) snoc.prems(2)
    by (cases ev) (auto simp: counts_snoc count_event_apply split: if_splits)
qed

text \<open>
  C10: the accounting of requests. In any run from the empty store in which no account is settled more
  often than selected and fewer than \<open>2\<^sup>3\<^sup>2\<close> selections name it, the counter of a record is the number
  of its unsettled selections, through imports, removals, disk synchronisations and failures; so once
  all are settled, no request and no refresh is left in flight on any account.
\<close>

theorem in_flight_accounting:
  assumes "store_run E (new_store dir) evs st" "balanced k evs" "opened k evs < 2 ^ 32"
    and "records_get st k = Some r"
  shows "unat (ar_in_flight_requests r) = opened k evs - settled k evs
    \<and> (opened k evs = settled k evs \<longrightarrow> \<not> ar_refresh_in_flight r)"
proof -
  note run = run_good [OF assms(1) good_new_store]
  have "in_flight_of (new_store dir) = (\<lambda>_. 0)" by (simp add: in_flight_of_def [abs_def])
  with run have "in_flight_of st k = opened k evs - settled k evs"
    using fold_count_event [OF assms(2,3)] by simp
  then have n: "unat (ar_in_flight_requests r) = opened k evs - settled k evs"
    using assms(4) by (simp add: in_flight_of_def)
  have "refresh_owned r" using run assms(4) by (auto simp: good_store_def good_record_def)
  then have "ar_refresh_in_flight r \<Longrightarrow> unat (ar_in_flight_requests r) \<noteq> 0"
    by (simp add: refresh_owned_def unat_eq_0)
  with n show ?thesis by auto
qed

text \<open>A run: account \<open>b\<close> is read from disk, selected with a refresh, and its request succeeds.\<close>

definition one_plan :: disk_sync_plan where
  "one_plan =
     \<lparr>pl_mode = Startup, pl_writes = [], pl_removals = [],
      pl_upserts = [\<lparr>up_id = ''b'', up_path = [''d'', ''b.json''], up_disk = token_file ''u''\<rparr>],
      pl_seen_ids = [''b''], pl_failed_file_ids = []\<rparr>"

definition one_store :: account_store where
  "one_store =
     \<lparr>st_accounts_dir = [''d''], st_records = [(''b'', free_sample)], st_round_robin_cursor = 0\<rparr>"

definition busy_store :: account_store where
  "busy_store = records_insert ''b'' (mark_warming (mark_selected 0 free_sample))
                  (one_store\<lparr>st_round_robin_cursor := 1\<rparr>)"

lemma sample_sync: "apply_disk_sync_plan one_plan (new_store [''d'']) = one_store"
  by (simp add: apply_disk_sync_plan_def one_plan_def upsert_disk_record_def records_insert_def
      new_store_def one_store_def free_sample_def token_file_def sync_existing_def Let_def
      records_get_def)

lemma sample_pool_select:
  assumes "''b'' \<notin> X"
  shows "select_account (sample_externals\<lparr>parse_json := f\<rparr>) sample_clock RoundRobin 60 X one_store =
     Returned busy_store
       (Inr \<lparr>sel_account_id = ''b'', sel_refresh_token = ''u'', sel_needs_refresh = True\<rparr>)"
proof -
  have a: "refresh_expired_record 0 free_sample = free_sample"
    by (simp add: refresh_expired_record_def free_sample_def new_account_record_def)
  have e: "refresh_expired_blocks 0 one_store = one_store"
    by (simp add: refresh_expired_blocks_def one_store_def a)
  have c: "build_route_candidates (\<lambda>_. 0) X one_store
      = [\<lparr>rc_account_id = ''b'', rc_in_flight_requests = 0, rc_last_selected_at = None\<rparr>]"
    by (simp add: build_route_candidates_def one_store_def store_values_def
        free_sample_def new_account_record_def is_eligible_def assms)
  have s: "select_candidate RoundRobin [\<lparr>rc_account_id = ''b'', rc_in_flight_requests = 0,
      rc_last_selected_at = None\<rparr>] 0 = (Some ''b'', 1)"
    by (simp add: select_candidate_def list_get_def sat_add_def)
  have g: "map_of (st_records one_store) ''b'' = Some free_sample"
    "st_round_robin_cursor one_store = 0"
    by (simp_all add: one_store_def)
  have t: "token_needs_refresh (sample_externals\<lparr>parse_json := f\<rparr>) (mark_selected 0 free_sample) 60 0 = Some True"
    "ar_refresh_token free_sample = ''u''"
    by (simp_all add: token_needs_refresh_def mark_selected_def free_sample_def new_account_record_def)
  show ?thesis
    by (simp add: select_account_def sample_clock_def e c g s t records_get_def busy_store_def Let_def)
qed

lemma sample_select_one:
  "select_account sample_externals sample_clock RoundRobin 60 {} one_store =
     Returned busy_store
       (Inr \<lparr>sel_account_id = ''b'', sel_refresh_token = ''u'', sel_needs_refresh = True\<rparr>)"
  using sample_pool_select [of "{}" "parse_json sample_externals"] by simp

lemma sample_run:
  "store_run sample_externals (new_store [''d'']) [Internal, Selected ''b''] busy_store"
proof -
  have "store_run sample_externals (new_store [''d'']) ([] @ [Internal]) one_store"
    by (rule store_run.step [OF store_run.start])
      (use store_step.disk_sync [of sample_externals "new_store [''d'']" one_plan] in
        \<open>simp add: sample_sync\<close>)
  then have "store_run sample_externals (new_store [''d'']) (([] @ [Internal]) @ [Selected ''b'']) busy_store"
    by (rule store_run.step)
      (use store_step.select_ok [OF sample_select_one] in simp)
  then show ?thesis by simp
qed

theorem reachable_store_good_witness:
  "wf_store busy_store \<and> block_consistent (mark_warming (mark_selected 0 free_sample))
    \<and> refresh_owned (mark_warming (mark_selected 0 free_sample))"
proof -
  have "records_get busy_store ''b'' = Some (mark_warming (mark_selected 0 free_sample))"
    by (simp add: busy_store_def)
  then show ?thesis using reachable_store_good [OF sample_run] by blast
qed

theorem in_flight_accounting_witness:
  "unat (ar_in_flight_requests (mark_warming (mark_selected 0 free_sample))) = 1"
proof -
  have "balanced ''b'' [Internal, Selected ''b'']"
    by (auto simp: balanced_def settled_def opened_def le_Suc_eq numeral_2_eq_2)
  moreover have "records_get busy_store ''b'' = Some (mark_warming (mark_selected 0 free_sample))"
    by (simp add: busy_store_def)
  ultimately show ?thesis
    using in_flight_accounting [OF sample_run, of "''b''"]
    by (simp add: opened_def settled_def del: mark_keeps)
qed


end
