(* ===== verification/Account_Failures.thy ===== *)
theory Account_Failures
  imports Account_Machine
begin

text \<open>
  How long a failure keeps an account from being selected (\<open>src/accounts/lifecycle.rs\<close>), and four
  places where the code guarantees less than it means to.
\<close>

section \<open>How long a failure blocks an account\<close>

text \<open>The wait that each class of failure imposes, from the level of the local back-off.\<close>

definition failure_wait :: "failure_class \<Rightarrow> duration option \<Rightarrow> u32 \<Rightarrow> duration option" where
  "failure_wait failure retry_after level =
     (case failure of
        AccessTokenRejected \<Rightarrow> Some (from_secs 60)
      | RateLimited \<Rightarrow> Some (case retry_after of Some d \<Rightarrow> d | None \<Rightarrow> from_secs (min (2 ^ unat level) 1800))
      | QuotaExhausted \<Rightarrow> Some (case retry_after of Some d \<Rightarrow> d | None \<Rightarrow> from_secs (min (2 ^ unat level) 1800))
      | RiskControlled \<Rightarrow> Some (from_secs 1800)
      | TemporaryFailure \<Rightarrow> Some (case retry_after of Some d \<Rightarrow> d | None \<Rightarrow> from_secs 60)
      | _ \<Rightarrow> None)"

text \<open>chrono: the largest \<open>TimeDelta\<close> is below \<open>i64::MAX\<close> seconds.\<close>

definition chrono_bounds :: "externals \<Rightarrow> bool" where
  "chrono_bounds E \<longleftrightarrow> int (max_delta E) < (2 ^ 63 - 1) * 1000000000"

lemma duration_from_std_bounded:
  "chrono_bounds E \<Longrightarrow> duration_from_std E d = (if d \<le> max_delta E then Some (int d) else None)"
  by (simp add: duration_from_std_def duration_seconds_def chrono_bounds_def)

lemma time_add_Some: "time_add E t d = Some u \<Longrightarrow> u = t + d"
  by (simp add: time_add_def split: if_splits)

lemma timed_strength:
  "block_strength_at now r \<noteq> BlockedForever \<Longrightarrow> now \<le> t \<Longrightarrow> t < rb_until c \<Longrightarrow>
     block_strength_at t (apply_block_transition r now (Timed c)) \<noteq> Unblocked
     \<and> ar_blocked_until (apply_block_transition r now (Timed c)) \<noteq> None"
  by (cases "ar_blocked_until r")
    (auto simp: apply_block_transition.simps(4) Let_def block_strength_at_def until_strength_def
      has_active_block_at_def split: if_splits)

definition blocked_through :: "time \<Rightarrow> account_record \<Rightarrow> bool" where
  "blocked_through t r \<longleftrightarrow> block_strength_at t r \<noteq> Unblocked \<and> ar_blocked_until r \<noteq> None"

lemma blocked_through_not_eligible: "blocked_through t r \<Longrightarrow> \<not> is_eligible t r"
  by (auto simp: blocked_through_def is_eligible_iff)

lemma blocked_through_state [simp]:
  "blocked_through t (r\<lparr>ar_routing_state := s\<rparr>) = blocked_through t r"
  by (cases "ar_blocked_until r") (auto simp: blocked_through_def block_strength_at_def)

lemma strength_update [simp]:
  "block_strength_at now (r\<lparr>ar_local_backoff_level := l\<rparr>) = block_strength_at now r"
  "block_strength_at now (r\<lparr>ar_routing_state := s\<rparr>) = block_strength_at now r"
  "block_strength_at now (r\<lparr>ar_access_token := a\<rparr>) = block_strength_at now r"
  "block_strength_at now (r\<lparr>ar_access_token_expires_at := x\<rparr>) = block_strength_at now r"
  "block_strength_at now (failure_header now details r) = block_strength_at now r"
  by (cases "ar_blocked_until r"; auto simp: block_strength_at_def failure_header_def)+

lemma fixed_blocks:
  assumes "apply_fixed_block E r now reason d = Returned r' ()"
    "block_strength_at now r \<noteq> BlockedForever" "now \<le> t" "t < now + d"
  shows "blocked_through t r'"
proof -
  from assms(1) obtain u where u: "time_add E now d = Some u"
    "r' = apply_block_transition r now (Timed \<lparr>rb_reason = reason, rb_source = FixedPolicy, rb_until = u\<rparr>)"
    by (auto simp: apply_fixed_block_def split: option.splits)
  with time_add_Some [OF u(1)] assms timed_strength [OF assms(2,3), of "\<lparr>rb_reason = reason, rb_source = FixedPolicy, rb_until = u\<rparr>"]
  show ?thesis by (simp add: blocked_through_def)
qed

lemma retryable_blocks:
  assumes "chrono_bounds E" "apply_retryable_block E r now reason ra = Returned r' ()"
    "block_strength_at now r \<noteq> BlockedForever" "now \<le> t"
    "t < now + int (case ra of Some d \<Rightarrow> d
                    | None \<Rightarrow> from_secs (min (2 ^ unat (ar_local_backoff_level r)) 1800))"
  shows "blocked_through t r'"
proof -
  define d where "d = (case ra of Some d \<Rightarrow> d | None \<Rightarrow> next_local_backoff (ar_local_backoff_level r))"
  define r1 where "r1 = (case ra of Some d \<Rightarrow> r
    | None \<Rightarrow> r\<lparr>ar_local_backoff_level := sat_add (ar_local_backoff_level r) 1\<rparr>)"
  have t: "t < now + int d"
    using assms(5) by (simp add: d_def next_local_backoff_closed split: option.splits)
  from assms(2) obtain u s where u: "Option.bind (duration_from_std E d) (time_add E now) = Some u"
    "r' = apply_block_transition r1 now (Timed \<lparr>rb_reason = reason, rb_source = s, rb_until = u\<rparr>)"
    by (auto simp: apply_retryable_block_def build_retryable_block_def d_def r1_def Let_def
        split: option.splits)
  from u(1) assms(1) have "u = now + int d"
    by (auto simp: duration_from_std_bounded bind_eq_Some_conv dest: time_add_Some split: if_splits)
  moreover have "block_strength_at now r1 \<noteq> BlockedForever"
    using assms(3) by (simp add: r1_def split: option.split)
  ultimately show ?thesis
    using t assms(4) timed_strength [of now r1 t "\<lparr>rb_reason = reason, rb_source = s, rb_until = u\<rparr>"]
    by (simp add: blocked_through_def u(2))
qed


lemma level_header [simp]:
  "ar_local_backoff_level (failure_header now details r) = ar_local_backoff_level r"
  by (simp add: failure_header_def)

lemma cooldown_blocks:
  assumes "chrono_bounds E" "and_then (apply_retryable_block E r now reason ra)
      (\<lambda>r _. Returned (r\<lparr>ar_routing_state := s\<rparr>) ()) = Returned r' ()"
    "block_strength_at now r \<noteq> BlockedForever" "now \<le> t"
    "t < now + int (case ra of Some d \<Rightarrow> d
                    | None \<Rightarrow> from_secs (min (2 ^ unat (ar_local_backoff_level r)) 1800))"
  shows "blocked_through t r'"
proof -
  from assms(2) obtain r2 where r2: "apply_retryable_block E r now reason ra = Returned r2 ()"
    "r' = r2\<lparr>ar_routing_state := s\<rparr>"
    by (cases "apply_retryable_block E r now reason ra") auto
  with retryable_blocks [OF assms(1) r2(1) assms(3-5)] show ?thesis by simp
qed

lemma failed_record_blocked:
  assumes "chrono_bounds E" "apply_failure_record E now failure ra details r = Returned r1 ()"
    and "failure_wait failure ra (ar_local_backoff_level r) = Some w"
    and "block_strength_at now r \<noteq> BlockedForever" "now \<le> t" "t < now + int w"
  shows "blocked_through t r1"
proof -
  let ?h = "failure_header now details r"
  note simps = apply_failure_record_def failure_wait_def from_secs_def Let_def
    TEMPORARY_FAILURE_COOLDOWN_SECONDS_def RISK_COOLDOWN_SECONDS_def
  show ?thesis
  proof (cases failure)
    case AccessTokenRejected
    with assms show ?thesis
      by (intro fixed_blocks [of E "?h\<lparr>ar_access_token := None, ar_access_token_expires_at := None,
            ar_routing_state := RsTemporarilyUnavailable\<rparr>"]) (auto simp: simps)
  next
    case RiskControlled
    with assms show ?thesis
      by (intro fixed_blocks [of E "?h\<lparr>ar_routing_state := RsRiskControlled\<rparr>"]) (auto simp: simps)
  next
    case RateLimited
    with assms show ?thesis
      by (intro cooldown_blocks [OF assms(1), of ?h now BrRateLimited ra RsCooldown])
        (auto simp: apply_failure_record_def failure_wait_def Let_def split: option.splits)
  next
    case QuotaExhausted
    with assms show ?thesis
      by (intro cooldown_blocks [OF assms(1), of ?h now BrQuotaExhausted ra RsCooldown])
        (auto simp: apply_failure_record_def failure_wait_def Let_def split: option.splits)
  next
    case TemporaryFailure
    let ?t = "?h\<lparr>ar_routing_state := RsTemporarilyUnavailable\<rparr>"
    show ?thesis
    proof (cases ra)
      case None
      with TemporaryFailure assms show ?thesis
        by (intro fixed_blocks [of E ?t]) (auto simp: simps)
    next
      case (Some d)
      with TemporaryFailure assms show ?thesis
        by (intro retryable_blocks [OF assms(1), of ?t now BrTemporarilyUnavailable ra])
          (auto simp: apply_failure_record_def failure_wait_def Let_def)
    qed
  qed (use assms(3) in \<open>simp_all add: failure_wait_def\<close>)
qed

text \<open>
  C12: an account that failed is not selected before its wait is over. For every class of failure that
  imposes one (the upstream's Retry-After, the back-off, or the fixed cool-down), unless the account
  was blocked for good, the record left by \<open>mark_request_failure\<close> is ineligible at every instant
  before the failure's wait has passed.
\<close>

theorem failure_blocks_until:
  assumes "chrono_bounds E" "records_get st k = Some r" "wf_store st"
    and "mark_request_failure E now k failure ra details st = Returned st' ()"
    and "failure_wait failure ra (ar_local_backoff_level r) = Some w"
    and "block_strength_at now r \<noteq> BlockedForever"
    and "now \<le> t" "t < now + int w" "records_get st' k = Some r'"
  shows "\<not> is_eligible t r'"
proof -
  from assms(2,4) obtain r1 where r1: "apply_failure_record E now failure ra details r = Returned r1 ()"
    "st' = maybe_remove_detached k (records_insert k r1 st)"
    by (cases "apply_failure_record E now failure ra details r")
      (auto simp: mark_request_failure_def apply_failure_def)
  with assms(9) have "r' = r1" by (auto simp: maybe_remove_detached_def split: if_splits)
  with failed_record_blocked [OF assms(1) r1(1) assms(5-8)] show ?thesis
    by (simp add: blocked_through_not_eligible)
qed

lemma rate_limited_free:
  "mark_request_failure sample_externals 0 ''b'' RateLimited (Some 7) ''x''
     (records_insert ''b'' free_sample (new_store [''d'']))
   = Returned (records_insert ''b''
       ((failure_header 0 ''x'' free_sample)
          \<lparr>ar_blocked_reason := Some BrRateLimited, ar_blocked_source := Some UpstreamRetryAfter,
            ar_blocked_until := Some 7, ar_routing_state := RsCooldown\<rparr>)
       (records_insert ''b'' free_sample (new_store [''d'']))) ()"
  by (simp add: mark_request_failure_def apply_failure_def apply_failure_record_def
      apply_retryable_block_def build_retryable_block_def duration_from_std_def time_add_def
      sample_externals_def failure_header_def free_sample_def new_account_record_def
      apply_block_transition.simps(4) has_active_block_at_def maybe_remove_detached_def Let_def)

theorem failure_blocks_until_witness:
  "\<not> is_eligible 6 ((failure_header 0 ''x'' free_sample)
          \<lparr>ar_blocked_reason := Some BrRateLimited, ar_blocked_source := Some UpstreamRetryAfter,
            ar_blocked_until := Some 7, ar_routing_state := RsCooldown\<rparr>)"
proof -
  have "chrono_bounds sample_externals" by (simp add: chrono_bounds_def sample_externals_def)
  moreover have "wf_store (records_insert ''b'' free_sample (new_store [''d'']))"
    by (intro wf_insert wf_new_store) (simp add: free_sample_def new_account_record_def)
  moreover have "block_strength_at 0 free_sample \<noteq> BlockedForever"
    by (simp add: block_strength_at_def free_sample_def new_account_record_def)
  moreover have "failure_wait RateLimited (Some 7) (ar_local_backoff_level free_sample) = Some 7"
    by (simp add: failure_wait_def)
  ultimately show ?thesis
    using failure_blocks_until [OF _ _ _ rate_limited_free, where t = 6 and w = 7] by simp
qed

section \<open>What the code does not guarantee\<close>



text \<open>
  C25: an account found invalid whose file could not be moved to the trash stays in the store; when a
  request already in flight on it then fails with a rate limit, the account is eligible at once: the
  routing state is overwritten and \<open>is_eligible\<close> does not look at a block without an end.
\<close>

theorem auth_invalid_revived:
  assumes "records_get st k = Some r" "\<not> ar_detached r"
    and "ar_blocked_reason r = Some BrAuthInvalid" "ar_blocked_until r = None"
    and "mark_request_failure E now k RateLimited ra details st = Returned st' ()"
  shows "\<exists>r'. records_get st' k = Some r' \<and> ar_blocked_reason r' = Some BrAuthInvalid
           \<and> is_eligible t r'"
proof -
  let ?h = "failure_header now details r"
  from assms(1,5) obtain r1 where r1: "apply_failure_record E now RateLimited ra details r = Returned r1 ()"
    "st' = maybe_remove_detached k (records_insert k r1 st)"
    by (cases "apply_failure_record E now RateLimited ra details r")
      (auto simp: mark_request_failure_def apply_failure_def)
  from r1(1) obtain c r2 where r2: "r1 = (apply_block_transition r2 now (Timed c))\<lparr>ar_routing_state := RsCooldown\<rparr>"
    "r2 = ?h \<or> r2 = ?h\<lparr>ar_local_backoff_level := sat_add (ar_local_backoff_level ?h) 1\<rparr>"
    by (cases rule: apply_retryable_block_cases [of E ?h now BrRateLimited ra])
      (auto simp: apply_failure_record_def Let_def)
  from r2(2) have b: "ar_blocked_until r2 = None" "ar_blocked_reason r2 = Some BrAuthInvalid"
    "\<not> ar_detached r2" "\<not> ar_refresh_in_flight r2"
    using assms(2-4) by (auto simp: failure_header_def)
  then have "apply_block_transition r2 now (Timed c) = r2"
    by (simp add: apply_block_transition.simps(4) has_active_block_at_def)
  with r2(1) b have "is_eligible t r1" "ar_blocked_reason r1 = Some BrAuthInvalid" "\<not> ar_detached r1"
    by (simp_all add: is_eligible_def)
  with r1(2) show ?thesis by (simp add: maybe_remove_detached_def)
qed

theorem auth_invalid_revived_witness:
  "\<exists>r'. records_get (outcome_state (mark_request_failure sample_externals 0 ''b'' RateLimited (Some 7) ''x''
       (records_insert ''b'' (prepare_auth_invalid_record 0 ''x'' free_sample) one_store))) ''b'' = Some r'
     \<and> ar_blocked_reason r' = Some BrAuthInvalid \<and> is_eligible 0 r'"
proof -
  let ?st = "records_insert ''b'' (prepare_auth_invalid_record 0 ''x'' free_sample) one_store"
  obtain st' where run: "mark_request_failure sample_externals 0 ''b'' RateLimited (Some 7) ''x'' ?st
      = Returned st' ()"
    by (simp add: mark_request_failure_def apply_failure_def apply_failure_record_def
      apply_retryable_block_def build_retryable_block_def duration_from_std_def time_add_def
      sample_externals_def Let_def)
  let ?r = "prepare_auth_invalid_record 0 ''x'' free_sample"
  have "\<not> ar_detached ?r" "ar_blocked_reason ?r = Some BrAuthInvalid" "ar_blocked_until ?r = None"
    by (simp_all add: prepare_auth_invalid_record_def failure_header_def free_sample_def
        new_account_record_def)
  from auth_invalid_revived [OF _ this run, where t = 0] show ?thesis by (simp add: run)
qed

text \<open>
  C26: the flag of a refresh in flight is shared by all requests of the account: when a request that
  did not need the refresh is released, the flag is cleared although the refresh of another request
  is still running, and the account can be selected again.
\<close>

theorem release_clears_foreign_refresh:
  assumes "records_get st k = Some r" "ar_refresh_in_flight r" "2 \<le> unat (ar_in_flight_requests r)"
    and "\<not> ar_detached r" "ar_routing_state r = RsWarming" "ar_blocked_until r = None"
  shows "\<exists>r'. records_get (release_selection now k st) k = Some r'
           \<and> unat (ar_in_flight_requests r') = unat (ar_in_flight_requests r) - 1
           \<and> 1 \<le> unat (ar_in_flight_requests r') \<and> \<not> ar_refresh_in_flight r' \<and> is_eligible t r'"
  using assms
  by (auto simp: release_selection_def release_record_def maybe_remove_detached_def is_eligible_def
      unat_sat_sub Let_def)

theorem release_clears_foreign_refresh_witness:
  "\<exists>r'. records_get (release_selection 0 ''b''
       (records_insert ''b'' (free_sample\<lparr>ar_refresh_in_flight := True, ar_in_flight_requests := 2,
          ar_routing_state := RsWarming\<rparr>) one_store)) ''b'' = Some r' \<and> is_eligible 0 r'"
  using release_clears_foreign_refresh
    [of "records_insert ''b'' (free_sample\<lparr>ar_refresh_in_flight := True, ar_in_flight_requests := 2,
          ar_routing_state := RsWarming\<rparr>) one_store" "''b''"
        "free_sample\<lparr>ar_refresh_in_flight := True, ar_in_flight_requests := 2,
          ar_routing_state := RsWarming\<rparr>" 0 0]
  by (auto simp: free_sample_def new_account_record_def)



section \<open>A refresh that is abandoned\<close>

text \<open>
  The future of a handler is dropped when its caller disconnects, and while it awaits the refresh of
  a token nothing settles the selection then. What everybody else does to the account are the steps
  that do not belong to a request on it: those that leave its record alone, and those that go over all
  records or are asked for by an administrator.
\<close>

inductive bystander :: "externals \<Rightarrow> string \<Rightarrow> account_store \<Rightarrow> account_store \<Rightarrow> bool"
  for E k where
  elsewhere: "store_step E st ev st' \<Longrightarrow> records_get st' k = records_get st k \<Longrightarrow> bystander E k st st'"
| selecting: "select_account E ck policy skew excluded st = Returned st' v \<Longrightarrow> bystander E k st st'"
| summarizing: "bystander E k st (outcome_state (summarize_selection_failure E now0 now excluded st))"
| listing: "bystander E k st (fst (list_accounts now st))"
| waking: "bystander E k st (fst (wake_account aid st))"
| waking_all: "bystander E k st (fst (wake_all_accounts st))"
| importing: "bystander E k st (fst (apply_import_account_plan plan st))"
| removing: "bystander E k st (apply_remove_account_plan rplan st)"
| syncing: "bystander E k st (apply_disk_sync_plan splan st)"

lemma bystander_step: "bystander E k st st' \<Longrightarrow> \<exists>ev. store_step E st ev st'"
proof (induction rule: bystander.induct)
  case (selecting ck policy skew excluded st st' v)
  then show ?case
    by (cases v) (blast intro: store_step.select_ok store_step.select_none)+
qed (blast intro: store_step.intros)+

definition refreshing :: "string \<Rightarrow> account_store \<Rightarrow> bool" where
  "refreshing k st \<longleftrightarrow> (\<exists>r. records_get st k = Some r \<and> ar_refresh_in_flight r)"

lemma refreshing_insert:
  "refreshing k st \<Longrightarrow> records_get st j = Some r \<Longrightarrow> (ar_refresh_in_flight r \<Longrightarrow> ar_refresh_in_flight r')
     \<Longrightarrow> refreshing k (records_insert j r' st)"
  by (auto simp: refreshing_def)

lemma refreshing_maybe_remove: "refreshing k st \<Longrightarrow> refreshing k (maybe_remove_detached j st)"
  by (auto simp: refreshing_def maybe_remove_detached_def split: option.splits)

lemma refreshing_expire: "refreshing k st \<Longrightarrow> refreshing k (refresh_expired_blocks now st)"
  by (auto simp: refreshing_def)

lemma refreshing_wake: "refreshing k st \<Longrightarrow> refreshing k (fst (wake_account j st))"
  by (auto simp: wake_account_def apply_wake_def clear_block_def Let_def case_prod_unfold split: option.splits
      intro: refreshing_insert)

lemma refreshing_wake_loop: "refreshing k st \<Longrightarrow> refreshing k (fst (wake_all_loop ids st acc))"
proof (induction ids arbitrary: st acc)
  case (Cons j ids)
  show ?case unfolding wake_all_loop_Cons using Cons.IH refreshing_wake [OF Cons.prems] by blast
qed simp

lemma refreshing_upsert: "refreshing k st \<Longrightarrow> refreshing k (upsert_disk_record j path disk st)"
  by (auto simp: upsert_disk_record_def refreshing_def reload_record_def Let_def split: option.splits)

lemma refreshing_import: "refreshing k st \<Longrightarrow> refreshing k (fst (apply_import_account_plan plan st))"
  by (auto simp: apply_import_account_plan_def Let_def refreshing_upsert split: import_apply.splits option.splits sum.splits
      intro: refreshing_insert)

lemma refreshing_remove: "refreshing k st \<Longrightarrow> refreshing k (apply_remove_account_plan plan st)"
  by (auto simp: apply_remove_account_plan_def split: option.splits intro!: refreshing_maybe_remove
      intro: refreshing_insert)

lemma refreshing_existing: "refreshing k st \<Longrightarrow> refreshing k (sync_existing plan j st)"
  by (auto simp: sync_existing_def refreshing_def split: option.splits)

lemma refreshing_fold: "(\<And>x st. refreshing k st \<Longrightarrow> refreshing k (g x st)) \<Longrightarrow> refreshing k st
    \<Longrightarrow> refreshing k (fold g xs st)"
  by (induction xs arbitrary: st) auto

lemma refreshing_sync: "refreshing k st \<Longrightarrow> refreshing k (apply_disk_sync_plan plan st)"
  unfolding apply_disk_sync_plan_def Let_def
  by (intro refreshing_fold refreshing_existing refreshing_upsert)

lemma selecting_other:
  assumes "wf_store st" "refreshing k st" "select_account E ck policy skew excluded st = Returned st' v"
  shows "refreshing k st' \<and> (\<forall>s. v = Inr s \<longrightarrow> sel_account_id s \<noteq> k)"
  using assms(1)
proof (cases rule: select_account_cases [where E = E and ck = ck and policy = policy
      and skew = skew and excluded = excluded])
  case (none st2)
  with assms(2,3) refreshing_expire [OF assms(2)] show ?thesis by (auto simp: refreshing_def)
next
  case (picked st2 j r)
  have busy: "refreshing k (refresh_expired_blocks (ck_expire ck) st)" by (rule refreshing_expire [OF assms(2)])
  with picked(5,6) have "j \<noteq> k" by (auto simp: refreshing_def is_eligible_def)
  with picked(3,7) assms(3) busy show ?thesis
    by (auto simp: refreshing_def split: option.splits)
qed

lemma bystander_refreshing:
  assumes "bystander E k st st'" "good_store st" "refreshing k st"
  shows "refreshing k st'"
  using assms
proof cases
  case (elsewhere ev)
  with assms(3) show ?thesis by (simp add: refreshing_def)
next
  case (selecting ck policy skew excluded v)
  with assms selecting_other show ?thesis by (auto simp: good_store_def)
qed (use assms(3) in \<open>simp_all add: summarize_state list_state wake_all_accounts_def refreshing_expire
    refreshing_wake refreshing_wake_loop refreshing_import refreshing_remove refreshing_sync\<close>)

lemma bystanders_refreshing:
  "(bystander E k)\<^sup>*\<^sup>* st st' \<Longrightarrow> good_store st \<Longrightarrow> refreshing k st \<Longrightarrow> good_store st' \<and> refreshing k st'"
proof (induction rule: rtranclp_induct)
  case (step st1 st2)
  then show ?case
    using bystander_step [of E k st1 st2] store_step_simulates simulates_good bystander_refreshing by blast
qed simp

text \<open>
  C39: a caller that disconnects while the token of its account is being refreshed makes the account
  useless. Its selection is not settled then, and unless another request on the same account was in
  flight, whatever is done afterwards, in any order and number, leaves the record with a refresh in
  flight: selections, waking, removing and importing the account, and synchronisations with the disk.
  It is eligible at no time and never selected again.
\<close>

theorem abandoned_refresh_is_for_ever:
  assumes "store_run E (new_store dir) evs st0"
    and "select_account E ck policy skew excluded st0 = Returned st (Inr s)" "sel_needs_refresh s"
    and "(bystander E (sel_account_id s))\<^sup>*\<^sup>* st st'"
  shows "(\<exists>r. records_get st' (sel_account_id s) = Some r \<and> ar_refresh_in_flight r
      \<and> (\<forall>now. \<not> is_eligible now r))
    \<and> (\<forall>ck policy skew excluded st'' s'. select_account E ck policy skew excluded st' = Returned st'' (Inr s')
          \<longrightarrow> sel_account_id s' \<noteq> sel_account_id s)"
proof -
  have good: "good_store st0" using run_good [OF assms(1) good_new_store] by blast
  then have wf: "wf_store st0" by (simp add: good_store_def)
  from wf have busy: "refreshing (sel_account_id s) st"
  proof (cases rule: select_account_cases [where E = E and ck = ck and policy = policy
      and skew = skew and excluded = excluded])
    case (picked st2 j r)
    with assms(2,3) show ?thesis by (auto simp: refreshing_def mark_warming_def split: option.splits if_splits)
  qed (use assms(2) in simp)
  have "good_store st" using simulates_select [OF good assms(2)] by (rule simulates_good)
  from bystanders_refreshing [OF assms(4) this busy]
  have "wf_store st'" "refreshing (sel_account_id s) st'" by (auto simp: good_store_def)
  then show ?thesis
    using selecting_other by (auto simp: refreshing_def is_eligible_def)
qed

theorem abandoned_refresh_is_for_ever_witness:
  "\<exists>r. records_get (fst (wake_account ''b'' busy_store)) ''b'' = Some r \<and> (\<forall>now. \<not> is_eligible now r)"
proof -
  have run: "store_run sample_externals (new_store [''d'']) ([] @ [Internal]) one_store"
    by (rule store_run.step [OF store_run.start])
      (use store_step.disk_sync [of sample_externals "new_store [''d'']" one_plan] in
        \<open>simp add: sample_sync\<close>)
  have "(bystander sample_externals ''b'')\<^sup>*\<^sup>* busy_store (fst (wake_account ''b'' busy_store))"
    by (blast intro: bystander.waking)
  with abandoned_refresh_is_for_ever [OF run sample_select_one, where st' = "fst (wake_account ''b'' busy_store)"]
  show ?thesis by auto
qed

end
