(* ===== verification/App_State.thy ===== *)
theory App_State
  imports Account_Failures
begin

text \<open>
  \<open>src/app/mod.rs\<close>: the operations of the application on the account store and the accounts
  directory. The store is behind a lock that is released between the parts of an operation; what
  other tasks do in between is the argument \<open>w_interfere\<close>, any function of the store and the disk.
  The log of store events is a ghost: it records which selections and settlements the modelled code
  itself performs.
\<close>

record 'fs world_state =
  ws_store :: account_store
  ws_fs :: 'fs
  ws_log :: "store_event list"

text \<open>
  The surroundings of one request: what other tasks do before the \<open>j\<close>-th lock of step \<open>i\<close>, the clock
  there, the effect of a disk operation.
\<close>

record 'fs world =
  w_interfere :: "nat \<Rightarrow> nat \<Rightarrow> account_store \<times> 'fs \<Rightarrow> account_store \<times> 'fs"
  w_select_clock :: "nat \<Rightarrow> select_clock"
  w_time :: "nat \<Rightarrow> nat \<Rightarrow> time"
  w_run_op :: "account_disk_op \<Rightarrow> 'fs \<Rightarrow> 'fs \<times> (string + unit)"

definition interfere :: "'fs world \<Rightarrow> nat \<Rightarrow> nat \<Rightarrow> 'fs world_state \<Rightarrow> 'fs world_state" where
  "interfere W i j s =
     (let (st, fs) = w_interfere W i j (ws_store s, ws_fs s)
      in s\<lparr>ws_store := st, ws_fs := fs\<rparr>)"

definition put_store :: "store_event \<Rightarrow> account_store \<Rightarrow> 'fs world_state \<Rightarrow> 'fs world_state" where
  "put_store ev st s = s\<lparr>ws_store := st, ws_log := ws_log s @ [ev]\<rparr>"

definition run_account_disk_op ::
  "'fs world \<Rightarrow> account_disk_op \<Rightarrow> 'fs world_state \<Rightarrow> 'fs world_state \<times> (string + unit)" where
  "run_account_disk_op W op s =
     (let (fs, r) = w_run_op W op (ws_fs s) in (s\<lparr>ws_fs := fs\<rparr>, r))"

section \<open>Operations\<close>

definition app_import_account ::
  "externals \<Rightarrow> 'fs world \<Rightarrow> nat \<Rightarrow> string \<Rightarrow> string option \<Rightarrow> string option \<Rightarrow> 'fs world_state
     \<Rightarrow> 'fs world_state \<times> (string + import_account_result)" where
  "app_import_account E W i token label email s0 =
     (let s = interfere W i 0 s0
      in case prepare_import_account E (ws_store s) token label email of
           Inl e \<Rightarrow> (s, Inl e)
         | Inr plan \<Rightarrow>
             (let (s1, r) = (case iap_disk_op plan of
                  Some op \<Rightarrow> run_account_disk_op W op s | None \<Rightarrow> (s, Inr ()))
              in case r of
                   Inl e \<Rightarrow> (s1, Inl e)
                 | Inr _ \<Rightarrow>
                     (let s2 = interfere W i 1 s1;
                          (st, res) = apply_import_account_plan plan (ws_store s2)
                      in (put_store Internal st s2, res))))"

definition app_remove_account ::
  "'fs world \<Rightarrow> nat \<Rightarrow> string \<Rightarrow> 'fs world_state \<Rightarrow> 'fs world_state \<times> (string + bool)" where
  "app_remove_account W i aid s0 =
     (let s = interfere W i 0 s0
      in case prepare_remove_account (ws_store s) aid of
           None \<Rightarrow> (s, Inr False)
         | Some plan \<Rightarrow>
             (case run_account_disk_op W (rap_disk_op plan) s of
                (s1, Inl e) \<Rightarrow> (s1, Inl e)
              | (s1, Inr _) \<Rightarrow>
                  (let s2 = interfere W i 1 s1
                   in (put_store Internal (apply_remove_account_plan plan (ws_store s2)) s2, Inr True))))"

text \<open>The value is the warning about a file that could not be written.\<close>

definition app_finish_refresh_success ::
  "'fs world \<Rightarrow> nat \<Rightarrow> string \<Rightarrow> refreshed_account \<Rightarrow> 'fs world_state
     \<Rightarrow> 'fs world_state \<times> (string + string option)" where
  "app_finish_refresh_success W i aid refreshed s0 =
     (let s = interfere W i 1 s0;
          (st, res) = finish_refresh_success_without_persist (w_time W i 1) aid refreshed (ws_store s);
          s1 = put_store Internal st s
      in case res of
           Inl e \<Rightarrow> (s1, Inl e)
         | Inr None \<Rightarrow> (s1, Inr None)
         | Inr (Some op) \<Rightarrow>
             (case run_account_disk_op W op s1 of
                (s2, Inl e) \<Rightarrow> (s2, Inr (Some (''persist account file failed: '' @ e)))
              | (s2, Inr _) \<Rightarrow> (s2, Inr None)))"

fun put_outcome ::
  "store_event \<Rightarrow> (account_store, unit) outcome \<Rightarrow> 'fs world_state
     \<Rightarrow> ('fs world_state, unit) outcome" where
  "put_outcome ev (Returned st u) s = Returned (put_store ev st s) u"
| "put_outcome ev (Panicked st) s = Panicked (put_store ev st s)"

definition app_finish_refresh_failure ::
  "externals \<Rightarrow> 'fs world \<Rightarrow> nat \<Rightarrow> string \<Rightarrow> failure_class \<Rightarrow> duration option \<Rightarrow> string
     \<Rightarrow> 'fs world_state \<Rightarrow> ('fs world_state, string + unit) outcome" where
  "app_finish_refresh_failure E W i aid failure retry_after details s0 =
     (let s = interfere W i 1 s0
      in if failure = AuthInvalid then
           (case prepare_auth_invalid_failure (w_time W i 1) aid details (ws_store s) of
              (st, Inl e) \<Rightarrow> Returned (s\<lparr>ws_store := st\<rparr>) (Inl e)
            | (st, Inr plan) \<Rightarrow>
                (let s1 = put_store (Settled aid) st s;
                     (s2, r) = (case aip_trash_op plan of
                        Some op \<Rightarrow> run_account_disk_op W op s1 | None \<Rightarrow> (s1, Inr ()));
                     s3 = interfere W i 2 s2
                 in case r of
                      Inl e \<Rightarrow>
                        Returned (put_store Internal
                          (note_auth_invalid_trash_failure (w_time W i 2) (aip_account_id plan) e
                            (ws_store s3)) s3) (Inr ())
                    | Inr _ \<Rightarrow>
                        (let (st', res) = finalize_auth_invalid_failure (aip_account_id plan) (ws_store s3)
                         in Returned (put_store Internal st' s3) res)))
         else and_then
           (put_outcome (Settled aid)
             (mark_request_failure E (w_time W i 1) aid failure retry_after details (ws_store s)) s)
           (\<lambda>s' _. Returned s' (Inr ())))"

section \<open>What an operation settles\<close>

definition accounting :: "'fs world_state \<Rightarrow> store_event list" where
  "accounting s = filter (\<lambda>e. e \<noteq> Internal) (ws_log s)"

lemma accounting_simps [simp]:
  "accounting (interfere W i j s) = accounting s"
  "accounting (put_store ev st s) = accounting s @ (if ev = Internal then [] else [ev])"
  "accounting (fst (run_account_disk_op W op s)) = accounting s"
  by (simp_all add: accounting_def interfere_def put_store_def run_account_disk_op_def
      case_prod_unfold Let_def)

lemma accounting_store [simp]: "accounting (s\<lparr>ws_store := st\<rparr>) = accounting s"
  by (simp add: accounting_def)

lemma run_op_accounting: "run_account_disk_op W op s = (s', r) \<Longrightarrow> accounting s' = accounting s"
  using accounting_simps(3) [of W op s] by simp

lemma refresh_success_accounting:
  "accounting (fst (app_finish_refresh_success W i aid refreshed s)) = accounting s"
  by (auto simp: app_finish_refresh_success_def Let_def case_prod_unfold run_op_accounting
      split: sum.split option.split)

lemma outcome_state_and_then_Returned [simp]:
  "outcome_state (and_then x (\<lambda>s' _. Returned s' v)) = outcome_state x"
  by (cases x) simp_all

lemma put_outcome_accounting [simp]:
  "accounting (outcome_state (put_outcome (Settled aid) x s)) = accounting s @ [Settled aid]"
  by (cases x) simp_all

lemma refresh_invalid_eq:
  assumes "prepare_auth_invalid_failure (w_time W i 1) aid details (ws_store (interfere W i 1 s))
      = (st, Inr plan)"
    and "(case aip_trash_op plan of
          Some op \<Rightarrow> run_account_disk_op W op (put_store (Settled aid) st (interfere W i 1 s))
        | None \<Rightarrow> (put_store (Settled aid) st (interfere W i 1 s), Inr ())) = (s2, r2)"
  shows "app_finish_refresh_failure E W i aid AuthInvalid ra details s =
        (let s3 = interfere W i 2 s2
         in case r2 of
              Inl e \<Rightarrow>
                Returned (put_store Internal
                  (note_auth_invalid_trash_failure (w_time W i 2) (aip_account_id plan) e
                    (ws_store s3)) s3) (Inr ())
            | Inr _ \<Rightarrow>
                (let (st', res) = finalize_auth_invalid_failure (aip_account_id plan) (ws_store s3)
                 in Returned (put_store Internal st' s3) res))"
  unfolding app_finish_refresh_failure_def Let_def if_True assms(1) prod.case sum.case
  by (simp only: refl if_True assms prod.case sum.case)

text \<open>
  A failed refresh settles the request exactly once, unless the record has disappeared.
\<close>

lemma refresh_failure_accounting:
  "accounting (outcome_state (app_finish_refresh_failure E W i aid failure ra details s))
     = accounting s @ [Settled aid]
   \<or> (\<exists>s' e. app_finish_refresh_failure E W i aid failure ra details s = Returned s' (Inl e)
        \<and> accounting s' = accounting s \<and> records_get (ws_store s') aid = None)"
proof (cases "failure = AuthInvalid")
  case False
  then show ?thesis by (simp add: app_finish_refresh_failure_def Let_def)
next
  case True
  let ?s = "interfere W i 1 s"
  show ?thesis
  proof (cases "records_get (ws_store ?s) aid")
    case None
    then show ?thesis
      by (simp add: True app_finish_refresh_failure_def prepare_auth_invalid_failure_def Let_def)
  next
    case (Some r)
    obtain st plan where prep: "prepare_auth_invalid_failure (w_time W i 1) aid details (ws_store ?s)
        = (st, Inr plan)"
      using Some by (simp add: prepare_auth_invalid_failure_def Let_def)
    obtain s2 r2 where run: "(case aip_trash_op plan of
          Some op \<Rightarrow> run_account_disk_op W op (put_store (Settled aid) st ?s)
        | None \<Rightarrow> (put_store (Settled aid) st ?s, Inr ())) = (s2, r2)" by fastforce
    then have "accounting s2 = accounting s @ [Settled aid]"
      by (auto dest: run_op_accounting split: option.splits)
    moreover note refresh_invalid_eq [OF prep run, of E ra]
    ultimately show ?thesis
      by (cases r2) (simp_all add: True Let_def case_prod_unfold)
  qed
qed

end
