(* ===== verification/Failure_Payload.thy ===== *)
theory Failure_Payload
  imports Error_Semantics
begin

text \<open>
  \<open>src/responses/failure.rs\<close>: what the gateway tells its own caller when a request fails: the kind of
  failure, the payload and the text of the synthetic events.
\<close>

section \<open>The code\<close>

definition GATEWAY_UNAVAILABLE_CODE :: string where
  "GATEWAY_UNAVAILABLE_CODE = ''server_is_overloaded''"

definition GATEWAY_UNAVAILABLE_MESSAGE :: string where
  "GATEWAY_UNAVAILABLE_MESSAGE = ''No account available right now. Try again later.''"

datatype downstream_kind = CallerError | GatewayUnavailable

text \<open>\<open>SyntheticResponseFailedPayload\<close> has the fields of the structured payload.\<close>

type_synonym synthetic_payload = structured_payload

definition extract_http_retry_after ::
  "externals \<Rightarrow> time \<Rightarrow> header_map option \<Rightarrow> string option \<Rightarrow> duration option" where
  "extract_http_retry_after E now headers body =
     es_retry_after (analyze_request_http E now 502 headers body)"

fun extract_retry_after :: "externals \<Rightarrow> time \<Rightarrow> transport_error \<Rightarrow> duration option" where
  "extract_retry_after E now (Http _ _ headers body) = extract_http_retry_after E now headers body"
| "extract_retry_after E now _ = None"

definition opt_field :: "string \<Rightarrow> ('a \<Rightarrow> json) \<Rightarrow> 'a option \<Rightarrow> json_object" where
  "opt_field k f v = (case v of Some x \<Rightarrow> [(k, f x)] | None \<Rightarrow> [])"

definition or_else :: "'a option \<Rightarrow> 'a \<Rightarrow> 'a" where
  "or_else v d = (case v of Some x \<Rightarrow> x | None \<Rightarrow> d)"

definition synthetic_response_failed_json ::
  "time \<Rightarrow> string option \<Rightarrow> int \<Rightarrow> synthetic_payload \<Rightarrow> json" where
  "synthetic_response_failed_json now response_id sequence_number p =
     (let rid = or_else response_id (''resp_gateway_'' @ show_int (now div 1000));
          error_object =
            [(''code'', JString (or_else (p_code p) ''internal_server_error'')),
             (''message'', JString (or_else (p_message p) ''Upstream request failed.''))]
            @ opt_field ''type'' JString (p_error_type p)
            @ opt_field ''plan_type'' JString (p_plan_type p)
            @ opt_field ''resets_at'' (JNumber \<circ> JInt) (p_resets_at p)
            @ opt_field ''resets_in_seconds'' (JNumber \<circ> JInt) (p_resets_in_seconds p)
      in JObject
        [(''type'', JString ''response.failed''),
         (''sequence_number'', JNumber (JInt sequence_number)),
         (''response'', JObject
           [(''id'', JString rid), (''object'', JString ''response''),
            (''created_at'', JNumber (JInt (time_secs now))), (''status'', JString ''failed''),
            (''background'', JBool False), (''error'', JObject error_object),
            (''incomplete_details'', JNull)])])"

definition nl :: string where
  "nl = [char_of (10 :: nat)]"

definition render_synthetic_response_failed_event_with_metadata ::
  "externals \<Rightarrow> time \<Rightarrow> string option \<Rightarrow> int \<Rightarrow> synthetic_payload \<Rightarrow> string" where
  "render_synthetic_response_failed_event_with_metadata E now response_id sequence_number p =
     ''event: response.failed'' @ nl @ ''data: ''
       @ print_json E (synthetic_response_failed_json now response_id sequence_number p) @ nl @ nl"

text \<open>\<open>i64\<close> addition in a release build wraps.\<close>

definition i64_wrap :: "int \<Rightarrow> int" where
  "i64_wrap n = (n + 2 ^ 63) mod 2 ^ 64 - 2 ^ 63"

definition i64_saturate :: "int \<Rightarrow> int" where
  "i64_saturate n = max (- (2 ^ 63)) (min n (2 ^ 63 - 1))"

definition render_synthetic_response_failed_event ::
  "externals \<Rightarrow> time \<Rightarrow> string option \<Rightarrow> int option \<Rightarrow> synthetic_payload \<Rightarrow> string" where
  "render_synthetic_response_failed_event E now last_response_id last_sequence_number p =
     render_synthetic_response_failed_event_with_metadata E now last_response_id
       (i64_wrap (or_else last_sequence_number (- 1) + 1)) p"

definition render_openai_stream_error_event_with_sequence ::
  "externals \<Rightarrow> int \<Rightarrow> synthetic_payload \<Rightarrow> string" where
  "render_openai_stream_error_event_with_sequence E sequence_number p =
     ''event: error'' @ nl @ ''data: ''
       @ print_json E (JObject
           [(''type'', JString ''error''),
            (''code'', JString (or_else (p_code p) ''internal_server_error'')),
            (''message'', JString (or_else (p_message p) ''Upstream request failed.'')),
            (''sequence_number'', JNumber (JInt sequence_number))]) @ nl @ nl"

definition render_openai_stream_error_event ::
  "externals \<Rightarrow> int option \<Rightarrow> synthetic_payload \<Rightarrow> string" where
  "render_openai_stream_error_event E last_sequence_number p =
     render_openai_stream_error_event_with_sequence E
       (max (i64_saturate (or_else last_sequence_number (- 1) + 1)) 0) p"

definition gateway_unavailable_payload :: synthetic_payload where
  "gateway_unavailable_payload =
     default_payload\<lparr>p_code := Some GATEWAY_UNAVAILABLE_CODE,
                     p_message := Some GATEWAY_UNAVAILABLE_MESSAGE\<rparr>"

definition downstream_failure_kind :: "failure_class \<Rightarrow> downstream_kind" where
  "downstream_failure_kind failure =
     (case failure of RequestRejected \<Rightarrow> CallerError | _ \<Rightarrow> GatewayUnavailable)"

definition downstream_failure_kind_from_status ::
  "status \<Rightarrow> failure_class \<Rightarrow> downstream_kind" where
  "downstream_failure_kind_from_status status failure =
     (if status = 403 then GatewayUnavailable else downstream_failure_kind failure)"

definition downstream_failure_kind_for_http ::
  "externals \<Rightarrow> status \<Rightarrow> string option \<Rightarrow> downstream_kind" where
  "downstream_failure_kind_for_http E status body =
     downstream_failure_kind_from_status status (classify_request_http E status body)"

definition is_gateway_unavailable_status_failure :: "status \<Rightarrow> failure_class \<Rightarrow> bool" where
  "is_gateway_unavailable_status_failure status failure =
     (downstream_failure_kind_from_status status failure = GatewayUnavailable)"

definition fallback_error_code_for_http :: "externals \<Rightarrow> status \<Rightarrow> string option \<Rightarrow> string" where
  "fallback_error_code_for_http E status body =
     (case classify_request_http E status body of
        AccessTokenRejected \<Rightarrow> ''invalid_api_key''
      | AuthInvalid \<Rightarrow> ''invalid_api_key''
      | RateLimited \<Rightarrow> ''rate_limit_exceeded''
      | QuotaExhausted \<Rightarrow> ''insufficient_quota''
      | RiskControlled \<Rightarrow> ''forbidden''
      | RequestRejected \<Rightarrow>
          (if status = 400 then ''invalid_request_error''
           else if status = 403 then ''forbidden''
           else if status = 404 then ''not_found''
           else if status = 408 then ''request_timeout''
           else if status = 409 then ''conflict''
           else if 500 \<le> status \<and> status \<le> 599 then ''internal_server_error''
           else ''http_error'')
      | _ \<Rightarrow>
          (if status = 408 then ''request_timeout''
           else if 500 \<le> status \<and> status \<le> 599 then ''internal_server_error''
           else ''http_error''))"

fun fallback_error_code :: "externals \<Rightarrow> transport_error \<Rightarrow> string" where
  "fallback_error_code E (Http status _ _ body) = fallback_error_code_for_http E status body"
| "fallback_error_code E Timeout = ''request_timeout''"
| "fallback_error_code E (Network _) = ''network_error''"
| "fallback_error_code E (Build _) = ''internal_server_error''"
| "fallback_error_code E RetryLimit = ''retry_limit_reached''"

definition fallback_error_message_for_http ::
  "externals \<Rightarrow> status \<Rightarrow> duration option \<Rightarrow> string" where
  "fallback_error_message_for_http E status retry_after =
     (case retry_after of
        Some delay \<Rightarrow>
          if status = 429
          then ''Rate limit reached. Please try again in '' @ show_secs E delay @ ''s.''
          else ''Upstream request failed with status '' @ show_nat status @ ''.''
      | None \<Rightarrow> ''Upstream request failed with status '' @ show_nat status @ ''.'')"

definition fallback_error_message ::
  "externals \<Rightarrow> transport_error \<Rightarrow> duration option \<Rightarrow> string" where
  "fallback_error_message E error retry_after =
     (case error of
        Http status _ _ _ \<Rightarrow> fallback_error_message_for_http E status retry_after
      | _ \<Rightarrow> transport_display E error)"

fun extract_synthetic_response_failed_payload :: "externals \<Rightarrow> transport_error \<Rightarrow> synthetic_payload"
where
  "extract_synthetic_response_failed_payload E (Http _ _ _ body) = parse_structured_error_body E body"
| "extract_synthetic_response_failed_payload E _ = default_payload"

definition with_fallback :: "synthetic_payload \<Rightarrow> string \<Rightarrow> string \<Rightarrow> synthetic_payload" where
  "with_fallback p code message =
     p\<lparr>p_code := opt_or (p_code p) (Some code), p_message := opt_or (p_message p) (Some message)\<rparr>"

definition synthetic_response_failed_payload_from_transport ::
  "externals \<Rightarrow> time \<Rightarrow> transport_error \<Rightarrow> synthetic_payload" where
  "synthetic_response_failed_payload_from_transport E now error =
     with_fallback (extract_synthetic_response_failed_payload E error) (fallback_error_code E error)
       (fallback_error_message E error (extract_retry_after E now error))"

definition synthetic_response_failed_payload_from_http_failure ::
  "externals \<Rightarrow> status \<Rightarrow> string option \<Rightarrow> duration option \<Rightarrow> synthetic_payload" where
  "synthetic_response_failed_payload_from_http_failure E status body retry_after =
     with_fallback (parse_structured_error_body E body) (fallback_error_code_for_http E status body)
       (fallback_error_message_for_http E status retry_after)"

section \<open>Facts\<close>

text \<open>
  A failure is the caller's fault exactly when the answer was not a 403 and the request was
  rejected; the test used before a stream starts, on the status and the class alone, agrees with the
  one on the whole answer, and the payload for the caller always carries a code and a message.
\<close>

theorem caller_error_iff:
  "(downstream_failure_kind_for_http E status body = CallerError
      \<longleftrightarrow> status \<noteq> 403 \<and> classify_request_http E status body = RequestRejected)
   \<and> (is_gateway_unavailable_status_failure status (classify_request_http E status body)
      \<longleftrightarrow> downstream_failure_kind_for_http E status body = GatewayUnavailable)
   \<and> (\<exists>c m. p_code (synthetic_response_failed_payload_from_http_failure E status body ra) = Some c
          \<and> p_message (synthetic_response_failed_payload_from_http_failure E status body ra) = Some m)"
proof -
  have "\<exists>c. opt_or v (Some d) = Some c" for v :: "string option" and d by (cases v) auto
  then show ?thesis
    by (auto simp: downstream_failure_kind_for_http_def downstream_failure_kind_from_status_def
        downstream_failure_kind_def is_gateway_unavailable_status_failure_def
        synthetic_response_failed_payload_from_http_failure_def with_fallback_def
        split: failure_class.splits)
qed

lemma map_of_opt_field:
  "map_of (opt_field k f v) x = (if x = k then map_option f v else None)"
  by (cases v) (auto simp: opt_field_def)

lemma bind_map_comp:
  "Option.bind (map_option f v) g = Option.bind v (\<lambda>x. g (f x))"
  by (cases v) simp_all

lemma bind_as_str: "Option.bind v (\<lambda>x. as_str (JString x)) = v"
  by (cases v) simp_all

definition synthetic_error_object :: "synthetic_payload \<Rightarrow> json_object" where
  "synthetic_error_object p =
     [(''code'', JString (or_else (p_code p) ''internal_server_error'')),
      (''message'', JString (or_else (p_message p) ''Upstream request failed.''))]
     @ opt_field ''type'' JString (p_error_type p)
     @ opt_field ''plan_type'' JString (p_plan_type p)
     @ opt_field ''resets_at'' (JNumber \<circ> JInt) (p_resets_at p)
     @ opt_field ''resets_in_seconds'' (JNumber \<circ> JInt) (p_resets_in_seconds p) @ []"

lemma synthetic_error_object_lookup:
  "map_of (synthetic_error_object p) ''code'' = Some (JString (or_else (p_code p) ''internal_server_error''))"
  "map_of (synthetic_error_object p) ''message'' = Some (JString (or_else (p_message p) ''Upstream request failed.''))"
  "map_of (synthetic_error_object p) ''type'' = map_option JString (p_error_type p)"
  "map_of (synthetic_error_object p) ''plan_type'' = map_option JString (p_plan_type p)"
  "map_of (synthetic_error_object p) ''resets_at'' = map_option (JNumber \<circ> JInt) (p_resets_at p)"
  "map_of (synthetic_error_object p) ''resets_in_seconds''
     = map_option (JNumber \<circ> JInt) (p_resets_in_seconds p)"
  by (simp_all add: synthetic_error_object_def map_add_def map_of_opt_field split: option.split)

lemma parse_synthetic_error_object:
  "parse_structured_error_value (JObject (synthetic_error_object p))
     = p\<lparr>p_code := Some (or_else (p_code p) ''internal_server_error''),
         p_message := Some (or_else (p_message p) ''Upstream request failed.''),
         p_resets_at := Option.bind (p_resets_at p) (\<lambda>i. as_i64 (JNumber (JInt i))),
         p_resets_in_seconds := Option.bind (p_resets_in_seconds p) (\<lambda>i. as_i64 (JNumber (JInt i)))\<rparr>"
  by (simp add: parse_structured_error_value_def jget_str_def jget_i64_def jget_def bind_map_comp
      bind_as_str synthetic_error_object_lookup del: as_i64.simps)

lemma synthetic_response_failed_json_object:
  "synthetic_response_failed_json now rid n p =
     JObject
       [(''type'', JString ''response.failed''),
        (''sequence_number'', JNumber (JInt n)),
        (''response'', JObject
          [(''id'', JString (or_else rid (''resp_gateway_'' @ show_int (now div 1000)))),
           (''object'', JString ''response''),
           (''created_at'', JNumber (JInt (time_secs now))), (''status'', JString ''failed''),
           (''background'', JBool False), (''error'', JObject (synthetic_error_object p)),
           (''incomplete_details'', JNull)])]"
  by (simp add: synthetic_response_failed_json_def synthetic_error_object_def Let_def)

text \<open>
  The event rendered for a failed response is well formed for every payload: the object the caller
  parses is of type \<open>response.failed\<close>, has the next sequence number and repeats the payload's code and
  message, with defaults when they are missing.
\<close>

theorem response_failed_event_fields:
  "let v = synthetic_response_failed_json now rid n p in
     jget_str v ''type'' = Some ''response.failed'' \<and> jget v ''sequence_number'' = Some (JNumber (JInt n))
     \<and> Option.bind (jget v ''response'') (\<lambda>r. jget_str r ''status'') = Some ''failed''
     \<and> parse_structured_error_value
         (or_else (Option.bind (jget v ''response'') (\<lambda>r. jget r ''error'')) JNull)
       = p\<lparr>p_code := Some (or_else (p_code p) ''internal_server_error''),
           p_message := Some (or_else (p_message p) ''Upstream request failed.''),
           p_resets_at := Option.bind (p_resets_at p) (\<lambda>i. as_i64 (JNumber (JInt i))),
           p_resets_in_seconds := Option.bind (p_resets_in_seconds p) (\<lambda>i. as_i64 (JNumber (JInt i)))\<rparr>"
proof -
  let ?v = "synthetic_response_failed_json now rid n p"
  have j: "jget ?v ''type'' = Some (JString ''response.failed'')"
      "jget ?v ''sequence_number'' = Some (JNumber (JInt n))"
    unfolding synthetic_response_failed_json_object jget_def by simp_all
  have "\<exists>r. jget ?v ''response'' = Some r \<and> jget r ''status'' = Some (JString ''failed'')
      \<and> jget r ''error'' = Some (JObject (synthetic_error_object p))"
    unfolding synthetic_response_failed_json_object jget_def by simp
  then obtain r where r: "jget ?v ''response'' = Some r" "jget r ''status'' = Some (JString ''failed'')"
      "jget r ''error'' = Some (JObject (synthetic_error_object p))" by blast
  have "or_else (Some x) y = x" for x y :: json by (simp add: or_else_def)
  then show ?thesis
    unfolding Let_def jget_str_def j r bind.bind_lunit
    by (simp only: as_str.simps parse_synthetic_error_object simp_thms)
qed

end
