(* ===== verification/Retry_Loop.thy ===== *)
theory Retry_Loop
  imports Codaze_Base
begin

text \<open>
  The retry loops of the gateway: a step either asks for another round with a new state or ends the
  loop with a result. The loops have no bound in the code; \<open>run_loop\<close> has fuel, and the locale says
  when the fuel is enough.
\<close>

fun run_loop :: "nat \<Rightarrow> (nat \<Rightarrow> 's \<Rightarrow> 's + 'r) \<Rightarrow> nat \<Rightarrow> 's \<Rightarrow> 'r option" where
  "run_loop 0 step i s = None"
| "run_loop (Suc fuel) step i s =
     (case step i s of Inl s' \<Rightarrow> run_loop fuel step (Suc i) s' | Inr r \<Rightarrow> Some r)"

text \<open>What is kept by every round and implied by the last one holds of the result.\<close>

lemma run_loop_induct:
  assumes run: "run_loop fuel step i s = Some r" and init: "P s"
    and again: "\<And>j s s'. P s \<Longrightarrow> step j s = Inl s' \<Longrightarrow> P s'"
    and finish: "\<And>j s r. P s \<Longrightarrow> step j s = Inr r \<Longrightarrow> Q r"
  shows "Q r"
  using run init
proof (induction fuel arbitrary: i s)
  case (Suc fuel)
  show ?case
  proof (cases "step i s")
    case (Inl s')
    with Suc.prems(1) have "run_loop fuel step (Suc i) s' = Some r" by simp
    from Suc.IH [OF this again [OF Suc.prems(2) Inl]] show ?thesis .
  next
    case (Inr r')
    with Suc.prems(1) have "r' = r" by simp
    with finish [OF Suc.prems(2) Inr] show ?thesis by simp
  qed
qed simp

text \<open>
  A loop whose rounds keep an invariant and use up a budget returns, and what it returns is the
  result of one round from a state that satisfies the invariant.
\<close>

locale budgeted_loop =
  fixes step :: "nat \<Rightarrow> 's \<Rightarrow> 's + 'r" and inv :: "'s \<Rightarrow> bool" and budget :: "'s \<Rightarrow> nat"
  assumes round: "inv s \<Longrightarrow> step i s = Inl s' \<Longrightarrow> inv s' \<and> budget s' < budget s"
begin

lemma returns: "inv s \<Longrightarrow> budget s < fuel \<Longrightarrow> \<exists>r. run_loop fuel step i s = Some r"
proof (induction fuel arbitrary: i s)
  case (Suc fuel)
  show ?case
  proof (cases "step i s")
    case (Inl s')
    from round [OF Suc.prems(1) Inl] Suc.prems(2) have "inv s'" "budget s' < fuel" by auto
    from Suc.IH [OF this] Inl show ?thesis by simp
  qed simp
qed simp

lemma last_round:
  "run_loop fuel step i s = Some r \<Longrightarrow> inv s \<Longrightarrow> \<exists>j s'. inv s' \<and> step j s' = Inr r"
  by (rule run_loop_induct [where P = inv]) (blast dest: round)+

end

end
