(* ===== verification/Failover.thy ===== *)
theory Failover
  imports App_State Failure_Payload Retry_Loop
begin

text \<open>
  \<open>src/failover.rs\<close>: one request of a caller is tried on one account after the other. A round selects
  an account, refreshes its token when needed, sends the request, and settles the selection. What the
  upstream answers in each round is an argument; so is what other tasks do between two locks
  (\<open>world\<close>). A panic of the store ends the task where it strikes.
\<close>

section \<open>Types\<close>

datatype success_disposition = ReleaseImmediately | HoldUntilCaller

record 'v routed_execution =
  re_account_id :: string
  re_value :: 'v

datatype account_settlement =
  SettleSuccess
| SettleRelease
| SettleFailure failure_class "duration option" string

record refresh_failure =
  rf_status :: status
  rf_body :: string
  rf_class :: failure_class
  rf_retry_after :: "duration option"

datatype failover_failure =
  FoRefresh refresh_failure
| FoTransport transport_error
| FoPoolBlocked pool_block_summary
| FoCallerJson status string
| FoInternal status string

text \<open>The locals of the loop, with the caller's set of tried accounts.\<close>

record failover_state =
  fo_tried :: "string set"
  fo_forced :: "string set"
  fo_pool_summary :: "pool_block_summary option"
  fo_retryable :: "failover_failure option"

text \<open>The upstream, in each round: the answer to a token refresh and to the request.\<close>

record 'v upstream =
  up_refresh :: "nat \<Rightarrow> string \<Rightarrow> refresh_failure + refreshed_account"
  up_execute :: "nat \<Rightarrow> upstream_account \<Rightarrow> transport_error + 'v"

text \<open>What the routine is called with beside the upstream.\<close>

record fo_config =
  fc_policy :: routing_policy
  fc_refresh_skew :: int
  fc_disposition :: success_disposition

section \<open>Helpers\<close>

definition should_failover_failure_class :: "failure_class \<Rightarrow> bool" where
  "should_failover_failure_class failure =
     (case failure of
        AccessTokenRejected \<Rightarrow> True | AuthInvalid \<Rightarrow> True | RateLimited \<Rightarrow> True
      | QuotaExhausted \<Rightarrow> True | RiskControlled \<Rightarrow> True | TemporaryFailure \<Rightarrow> True
      | _ \<Rightarrow> False)"

definition failure_class_debug :: "failure_class \<Rightarrow> string" where
  "failure_class_debug failure =
     (case failure of
        AccessTokenRejected \<Rightarrow> ''AccessTokenRejected'' | AuthInvalid \<Rightarrow> ''AuthInvalid''
      | RateLimited \<Rightarrow> ''RateLimited'' | QuotaExhausted \<Rightarrow> ''QuotaExhausted''
      | RiskControlled \<Rightarrow> ''RiskControlled'' | TemporaryFailure \<Rightarrow> ''TemporaryFailure''
      | RequestRejected \<Rightarrow> ''RequestRejected'' | InternalFailure \<Rightarrow> ''InternalFailure'')"

definition status_display :: "externals \<Rightarrow> status \<Rightarrow> string" where
  "status_display E status =
     show_nat status @ '' ''
       @ (case canonical_reason E status of Some r \<Rightarrow> r | None \<Rightarrow> ''<unknown status code>'')"

definition extract_failure_reason :: "externals \<Rightarrow> transport_error \<Rightarrow> failure_class \<Rightarrow> string" where
  "extract_failure_reason E error failure =
     failure_class_debug failure @ '': '' @
     (case error of
        Http status _ _ body \<Rightarrow>
          ''status='' @ status_display E status @ '' body='' @ (case body of Some b \<Rightarrow> b | None \<Rightarrow> [])
      | _ \<Rightarrow> transport_display E error)"

fun apply_account_settlement ::
  "externals \<Rightarrow> time \<Rightarrow> string \<Rightarrow> account_settlement \<Rightarrow> account_store
     \<Rightarrow> (account_store, unit) outcome" where
  "apply_account_settlement E now aid SettleSuccess st = Returned (mark_request_success now aid st) ()"
| "apply_account_settlement E now aid SettleRelease st = Returned (release_selection now aid st) ()"
| "apply_account_settlement E now aid (SettleFailure failure ra details) st =
     mark_request_failure E now aid failure ra details st"

text \<open>The last retryable response is handed over and not used.\<close>

definition resolve_selection_failure ::
  "externals \<Rightarrow> time \<Rightarrow> time \<Rightarrow> selection_failure \<Rightarrow> string set \<Rightarrow> pool_block_summary option
     \<Rightarrow> failover_failure option \<Rightarrow> account_store \<Rightarrow> (account_store, failover_failure) outcome" where
  "resolve_selection_failure E now0 now error excluded last_summary last_retryable st =
     (case error of
        InternalSelection e \<Rightarrow> Returned st (FoInternal 500 e)
      | NoEligibleAccount \<Rightarrow>
          and_then (summarize_selection_failure E now0 now excluded st)
            (\<lambda>st' s. Returned st' (FoPoolBlocked
               (case s of
                  Some summary \<Rightarrow> summary
                | None \<Rightarrow> or_else last_summary
                    \<lparr>pbs_blocked_reason = BrTemporarilyUnavailable, pbs_blocked_until = None,
                     pbs_retry_after = None\<rparr>))))"

definition apply_refresh_failure ::
  "externals \<Rightarrow> 'fs world \<Rightarrow> nat \<Rightarrow> string \<Rightarrow> refresh_failure \<Rightarrow> 'fs world_state
     \<Rightarrow> ('fs world_state, failover_failure + unit) outcome" where
  "apply_refresh_failure E W i aid error s =
     and_then
       (app_finish_refresh_failure E W i aid (rf_class error) (rf_retry_after error)
         (''refresh failed: status='' @ status_display E (rf_status error) @ '' body='' @ rf_body error) s)
       (\<lambda>s' r. Returned s' (case r of Inl e \<Rightarrow> Inl (FoInternal 500 e) | Inr _ \<Rightarrow> Inr ()))"

section \<open>A round\<close>

datatype 'v fo_verdict =
  Again failover_state
| Done failover_state "failover_failure + 'v routed_execution"

definition put_tried :: "string \<Rightarrow> failover_state \<Rightarrow> failover_state" where
  "put_tried aid fo = fo\<lparr>fo_tried := insert aid (fo_tried fo)\<rparr>"

text \<open>The three lock scopes in which a selection is given back or settled.\<close>

definition release_at :: "'fs world \<Rightarrow> nat \<Rightarrow> nat \<Rightarrow> string \<Rightarrow> 'fs world_state \<Rightarrow> 'fs world_state" where
  "release_at W i j aid s0 =
     (let s = interfere W i j s0
      in put_store (Settled aid) (release_selection (w_time W i j) aid (ws_store s)) s)"

definition invalidate_and_release_at ::
  "'fs world \<Rightarrow> nat \<Rightarrow> nat \<Rightarrow> string \<Rightarrow> 'fs world_state \<Rightarrow> 'fs world_state" where
  "invalidate_and_release_at W i j aid s0 =
     (let s = interfere W i j s0;
          s1 = put_store Internal (invalidate_access_token (w_time W i j) aid (ws_store s)) s
      in put_store (Settled aid) (release_selection (w_time W i j) aid (ws_store s1)) s1)"

definition fail_at ::
  "externals \<Rightarrow> 'fs world \<Rightarrow> nat \<Rightarrow> nat \<Rightarrow> string \<Rightarrow> failure_class \<Rightarrow> duration option \<Rightarrow> string
     \<Rightarrow> 'fs world_state \<Rightarrow> ('fs world_state, unit) outcome" where
  "fail_at E W i j aid failure ra details s =
     put_outcome (Settled aid)
       (mark_request_failure E (w_time W i j) aid failure ra details (ws_store s)) s"

definition fo_select ::
  "externals \<Rightarrow> fo_config \<Rightarrow> 'fs world \<Rightarrow> nat \<Rightarrow> failover_state \<Rightarrow> 'fs world_state
     \<Rightarrow> ('fs world_state, failover_failure + account_selection) outcome" where
  "fo_select E C W i fo s0 =
     (let s = interfere W i 0 s0
      in case select_account E (w_select_clock W i) (fc_policy C) (fc_refresh_skew C) (fo_tried fo)
                (ws_store s) of
           Panicked st \<Rightarrow> Panicked (s\<lparr>ws_store := st\<rparr>)
         | Returned st (Inr sel) \<Rightarrow> Returned (put_store (Selected (sel_account_id sel)) st s) (Inr sel)
         | Returned st (Inl e) \<Rightarrow>
             and_then
               (map_state (\<lambda>st'. put_store Internal st' s)
                 (resolve_selection_failure E (w_time W i 0) (w_time W i 7) e (fo_tried fo)
                   (fo_pool_summary fo) (fo_retryable fo) st))
               (\<lambda>s' f. Returned s' (Inl f)))"

text \<open>The refresh of the token: \<open>None\<close> when the round goes on.\<close>

definition fo_refresh ::
  "externals \<Rightarrow> 'fs world \<Rightarrow> 'v upstream \<Rightarrow> nat \<Rightarrow> account_selection \<Rightarrow> failover_state
     \<Rightarrow> 'fs world_state \<Rightarrow> ('fs world_state, 'v fo_verdict option) outcome" where
  "fo_refresh E W U i sel fo s =
     (if \<not> sel_needs_refresh sel then Returned s None
      else case up_refresh U i (sel_refresh_token sel) of
        Inr refreshed \<Rightarrow>
          (case app_finish_refresh_success W i (sel_account_id sel) refreshed s of
             (s1, Inr _) \<Rightarrow> Returned s1 None
           | (s1, Inl e) \<Rightarrow>
               Returned (release_at W i 3 (sel_account_id sel) s1)
                 (Some (Done fo (Inl (FoInternal 500 e)))))
      | Inl err \<Rightarrow>
          and_then (apply_refresh_failure E W i (sel_account_id sel) err s)
            (\<lambda>s1 r. Returned s1 (Some (case r of
               Inl f \<Rightarrow> Done fo (Inl f)
             | Inr _ \<Rightarrow>
                 (let failure = rf_class err;
                      fo1 = (if failure = AuthInvalid
                        then fo\<lparr>fo_pool_summary := Some \<lparr>pbs_blocked_reason = BrAuthInvalid,
                                 pbs_blocked_until = None, pbs_retry_after = None\<rparr>\<rparr>
                        else fo)
                  in if failure = RequestRejected \<or> failure = InternalFailure
                     then Done fo (Inl (FoRefresh err))
                     else if should_failover_failure_class failure
                     then Again ((put_tried (sel_account_id sel) fo1)\<lparr>fo_retryable := Some (FoRefresh err)\<rparr>)
                     else Done fo1 (Inl (FoRefresh err)))))))"

definition fo_failed ::
  "externals \<Rightarrow> 'fs world \<Rightarrow> nat \<Rightarrow> string \<Rightarrow> transport_error \<Rightarrow> failover_state \<Rightarrow> 'fs world_state
     \<Rightarrow> ('fs world_state, 'v fo_verdict) outcome" where
  "fo_failed E W i aid error fo s0 =
     (let failure = classify_request_error E error;
          details = extract_failure_reason E error failure;
          retry_after = extract_retry_after E (w_time W i 5) error;
          again = Again ((put_tried aid fo)\<lparr>fo_retryable := Some (FoTransport error)\<rparr>);
          stop = Done fo (Inl (FoTransport error))
      in if failure = AccessTokenRejected then
           (if aid \<in> fo_forced fo then
              (let s = interfere W i 6 s0;
                   s1 = put_store Internal (invalidate_access_token (w_time W i 6) aid (ws_store s)) s
               in and_then (fail_at E W i 6 aid failure retry_after details s1) (\<lambda>s2 _. Returned s2 again))
            else Returned (invalidate_and_release_at W i 6 aid s0)
                   (Again (fo\<lparr>fo_forced := insert aid (fo_forced fo)\<rparr>)))
         else if failure = RequestRejected \<or> failure = InternalFailure then
           and_then (fail_at E W i 6 aid failure retry_after details (interfere W i 6 s0))
             (\<lambda>s2 _. Returned s2 stop)
         else
           and_then (fail_at E W i 6 aid failure retry_after details (interfere W i 6 s0))
             (\<lambda>s2 _. Returned s2 (if should_failover_failure_class failure then again else stop)))"

definition fo_execute ::
  "externals \<Rightarrow> fo_config \<Rightarrow> 'fs world \<Rightarrow> 'v upstream \<Rightarrow> nat \<Rightarrow> string \<Rightarrow> failover_state
     \<Rightarrow> 'fs world_state \<Rightarrow> ('fs world_state, 'v fo_verdict) outcome" where
  "fo_execute E C W U i aid fo s0 =
     (let s = interfere W i 4 s0
      in case upstream_account_of (ws_store s) aid of
           Inl MissingAccessToken \<Rightarrow>
             Returned (invalidate_and_release_at W i 5 aid s) (Again (put_tried aid fo))
         | Inl MissingRecord \<Rightarrow> Returned (release_at W i 5 aid s) (Again (put_tried aid fo))
         | Inr account \<Rightarrow>
             (case up_execute U i account of
                Inl error \<Rightarrow> fo_failed E W i aid error fo s
              | Inr v \<Rightarrow>
                  Returned
                    (if fc_disposition C = ReleaseImmediately
                     then (let s1 = interfere W i 5 s
                           in put_store (Settled aid)
                                (mark_request_success (w_time W i 5) aid (ws_store s1)) s1)
                     else s)
                    (Done fo (Inr \<lparr>re_account_id = aid, re_value = v\<rparr>))))"

definition failover_round ::
  "externals \<Rightarrow> fo_config \<Rightarrow> 'fs world \<Rightarrow> 'v upstream \<Rightarrow> nat \<Rightarrow> failover_state \<Rightarrow> 'fs world_state
     \<Rightarrow> ('fs world_state, 'v fo_verdict) outcome" where
  "failover_round E C W U i fo s =
     and_then (fo_select E C W i fo s)
       (\<lambda>s1 r. case r of
          Inl f \<Rightarrow> Returned s1 (Done fo (Inl f))
        | Inr sel \<Rightarrow>
            and_then (fo_refresh E W U i sel fo s1)
              (\<lambda>s2 v. case v of
                 Some verdict \<Rightarrow> Returned s2 verdict
               | None \<Rightarrow> fo_execute E C W U i (sel_account_id sel) fo s2))"

section \<open>The loop\<close>

type_synonym ('fs, 'v) fo_result =
  "('fs world_state, string set \<times> (failover_failure + 'v routed_execution)) outcome"

definition failover_step ::
  "externals \<Rightarrow> fo_config \<Rightarrow> 'fs world \<Rightarrow> 'v upstream \<Rightarrow> nat \<Rightarrow> failover_state \<times> 'fs world_state
     \<Rightarrow> (failover_state \<times> 'fs world_state) + ('fs, 'v) fo_result" where
  "failover_step E C W U i x =
     (case x of (fo, s) \<Rightarrow>
        (case failover_round E C W U i fo s of
           Returned s' (Again fo') \<Rightarrow> Inl (fo', s')
         | Returned s' (Done fo' r) \<Rightarrow> Inr (Returned s' (fo_tried fo', r))
         | Panicked s' \<Rightarrow> Inr (Panicked s')))"

definition execute_with_failover_from ::
  "nat \<Rightarrow> externals \<Rightarrow> fo_config \<Rightarrow> 'fs world \<Rightarrow> 'v upstream \<Rightarrow> string set \<Rightarrow> 'fs world_state
     \<Rightarrow> ('fs, 'v) fo_result option" where
  "execute_with_failover_from fuel E C W U tried s =
     run_loop fuel (failover_step E C W U) 0
       (\<lparr>fo_tried = tried, fo_forced = {}, fo_pool_summary = None, fo_retryable = None\<rparr>, s)"

definition execute_with_failover ::
  "nat \<Rightarrow> externals \<Rightarrow> fo_config \<Rightarrow> 'fs world \<Rightarrow> 'v upstream \<Rightarrow> 'fs world_state
     \<Rightarrow> ('fs, 'v) fo_result option" where
  "execute_with_failover fuel E C W U s = execute_with_failover_from fuel E C W U {} s"

end
