(* ===== verification/Failover_Bounds.thy ===== *)
theory Failover_Bounds
  imports Failover
begin

text \<open>
  The failover loop returns, tries no account too often, and settles every selection it makes.
\<close>

section \<open>What the operations keep\<close>

text \<open>
  The accounts a run can ever meet lie in a set \<open>X\<close>; \<open>confined\<close> says that the other tasks keep the
  store good and inside \<open>X\<close>.
\<close>

definition pool :: "string set \<Rightarrow> account_store \<Rightarrow> bool" where
  "pool X st \<longleftrightarrow> good_store st \<and> (\<forall>k. records_get st k \<noteq> None \<longrightarrow> k \<in> X)"

definition confined :: "string set \<Rightarrow> 'fs world \<Rightarrow> bool" where
  "confined X W \<longleftrightarrow> (\<forall>i j st fs. pool X st \<longrightarrow> pool X (fst (w_interfere W i j (st, fs))))"

definition shrinks :: "account_store \<Rightarrow> account_store \<Rightarrow> bool" where
  "shrinks st st' \<longleftrightarrow> (\<forall>k. records_get st' k \<noteq> None \<longrightarrow> records_get st k \<noteq> None)"

lemma pool_step: "pool X st \<Longrightarrow> simulates st st' ev \<Longrightarrow> shrinks st st' \<Longrightarrow> pool X st'"
  unfolding pool_def shrinks_def using simulates_good by blast

lemma shrinks_refl [simp]: "shrinks st st"
  by (simp add: shrinks_def)

lemma shrinks_trans: "shrinks a b \<Longrightarrow> shrinks b c \<Longrightarrow> shrinks a c"
  by (simp add: shrinks_def)

lemma shrinks_insert: "records_get st k \<noteq> None \<Longrightarrow> shrinks st (records_insert k r st)"
  by (simp add: shrinks_def)

lemma shrinks_maybe_remove: "shrinks st (maybe_remove_detached k st)"
  by (simp add: shrinks_def maybe_remove_detached_def split: option.split)

lemma shrinks_insert_remove:
  "records_get st k \<noteq> None \<Longrightarrow> shrinks st (maybe_remove_detached k (records_insert k r st))"
  by (rule shrinks_trans [OF shrinks_insert shrinks_maybe_remove])

named_theorems pool_keeps

lemma pool_release [pool_keeps]: "pool X st \<Longrightarrow> pool X (release_selection now k st)"
  by (rule pool_step, assumption, rule simulates_release, simp add: pool_def)
    (simp add: release_selection_def shrinks_maybe_remove shrinks_insert_remove split: option.split)

lemma pool_success [pool_keeps]: "pool X st \<Longrightarrow> pool X (mark_request_success now k st)"
  by (rule pool_step, assumption, rule simulates_success, simp add: pool_def)
    (simp add: mark_request_success_def shrinks_insert_remove split: option.split)

lemma pool_invalidate [pool_keeps]: "pool X st \<Longrightarrow> pool X (invalidate_access_token now k st)"
  by (rule pool_step, assumption, rule simulates_invalidate, simp add: pool_def)
    (simp add: invalidate_access_token_def shrinks_insert_remove split: option.split)

lemma pool_failure [pool_keeps]:
  assumes "pool X st"
  shows "pool X (outcome_state (mark_request_failure E now k failure ra details st))"
proof (rule pool_step [OF assms simulates_failure])
  show "good_store st" using assms by (simp add: pool_def)
  show "shrinks st (outcome_state (mark_request_failure E now k failure ra details st))"
  proof (cases "records_get st k")
    case (Some r)
    then show ?thesis
      by (cases "apply_failure_record E now failure ra details r")
        (simp_all add: mark_request_failure_def apply_failure_def shrinks_insert shrinks_insert_remove)
  qed (simp add: mark_request_failure_def apply_failure_def)
qed

lemma pool_refreshed [pool_keeps]:
  "pool X st \<Longrightarrow> pool X (fst (finish_refresh_success_without_persist now k refreshed st))"
  by (rule pool_step, assumption, rule simulates_refreshed, simp add: pool_def)
    (simp add: finish_refresh_success_without_persist_def Let_def shrinks_insert_remove
      split: option.split)

lemma pool_prepare_invalid [pool_keeps]:
  "pool X st \<Longrightarrow> pool X (fst (prepare_auth_invalid_failure now k details st))"
  by (rule pool_step, assumption, rule simulates_prepare_invalid, simp add: pool_def)
    (simp add: prepare_auth_invalid_failure_def Let_def shrinks_insert split: option.split)

lemma pool_finalize_invalid [pool_keeps]:
  "pool X st \<Longrightarrow> pool X (fst (finalize_auth_invalid_failure k st))"
  by (rule pool_step, assumption, rule simulates_finalize_invalid, simp add: pool_def)
    (simp add: finalize_auth_invalid_failure_def shrinks_insert_remove split: option.split)

lemma pool_note_trash [pool_keeps]:
  "pool X st \<Longrightarrow> pool X (note_auth_invalid_trash_failure now k e st)"
  by (rule pool_step, assumption, rule simulates_note_trash, simp add: pool_def)
    (simp add: note_auth_invalid_trash_failure_def shrinks_insert split: option.split)

lemma pool_expire [pool_keeps]: "pool X st \<Longrightarrow> pool X (refresh_expired_blocks now st)"
  by (rule pool_step, assumption, rule simulates_refresh_expired, simp add: pool_def)
    (simp add: shrinks_def)

lemma select_phase:
  assumes "pool X st" "select_account E ck policy skew excluded st = Returned st' v"
  shows "pool X st' \<and> (case v of Inl e \<Rightarrow> True
      | Inr sel \<Rightarrow> sel_account_id sel \<in> X \<and> sel_account_id sel \<notin> excluded)"
proof -
  have wf: "wf_store st" using assms(1) by (simp add: pool_def good_store_def)
  note sim = simulates_select [OF _ assms(2)]
  let ?st1 = "refresh_expired_blocks (ck_expire ck) st"
  have dom1: "records_get ?st1 j \<noteq> None \<Longrightarrow> j \<in> X" for j
    using assms(1) pool_expire [of X st "ck_expire ck"] by (auto simp: pool_def)
  have good: "good_store st'"
    using sim assms(1) simulates_good by (auto simp: pool_def)
  show ?thesis
    using wf
  proof (cases rule: select_account_cases [where E = E and ck = ck and policy = policy
        and skew = skew and excluded = excluded])
    case (none st2)
    with assms(2) have "records_get st' = records_get ?st1" "v = Inl NoEligibleAccount" by auto
    with good dom1 show ?thesis by (auto simp: pool_def)
  next
    case (picked st2 k r)
    from picked(7) assms(2) obtain m b where
      "v = Inr \<lparr>sel_account_id = k, sel_refresh_token = ar_refresh_token r, sel_needs_refresh = b\<rparr>"
      "st' = records_insert k m st2"
      by (auto split: option.splits)
    moreover have "k \<in> X" using dom1 picked(5) by auto
    ultimately show ?thesis using good dom1 picked(3,4) by (auto simp: pool_def split: if_splits)
  qed
qed

section \<open>The phases of a round\<close>

lemma ws_store_simps [simp]:
  "ws_store (put_store ev st s) = st"
  "ws_store (fst (run_account_disk_op W op s)) = ws_store s"
  by (simp_all add: put_store_def run_account_disk_op_def case_prod_unfold Let_def)

lemma pool_interfere [pool_keeps]:
  "confined X W \<Longrightarrow> pool X (ws_store s) \<Longrightarrow> pool X (ws_store (interfere W i j s))"
  unfolding confined_def interfere_def by (simp add: case_prod_unfold Let_def)

lemma outcome_state_and_then [simp]:
  "outcome_state (and_then x (\<lambda>s a. Returned s (f s a))) = outcome_state x"
  by (cases x) simp_all

lemma put_outcome_store: "ws_store (outcome_state (put_outcome ev x s)) = outcome_state x"
  by (cases x) simp_all

lemma release_at_keeps:
  "accounting (release_at W i j k s) = accounting s @ [Settled k]"
  "accounting (invalidate_and_release_at W i j k s) = accounting s @ [Settled k]"
  "confined X W \<Longrightarrow> pool X (ws_store s) \<Longrightarrow> pool X (ws_store (release_at W i j k s))"
  "confined X W \<Longrightarrow> pool X (ws_store s) \<Longrightarrow> pool X (ws_store (invalidate_and_release_at W i j k s))"
  by (simp_all add: release_at_def invalidate_and_release_at_def Let_def pool_keeps)

lemma fail_at_keeps:
  "accounting (outcome_state (fail_at E W i j k f ra d s)) = accounting s @ [Settled k]"
  "pool X (ws_store s) \<Longrightarrow> pool X (ws_store (outcome_state (fail_at E W i j k f ra d s)))"
  by (simp_all add: fail_at_def put_outcome_store pool_keeps)

lemma refresh_success_pool:
  assumes "confined X W" "pool X (ws_store s)"
  shows "pool X (ws_store (fst (app_finish_refresh_success W i k refreshed s)))"
proof -
  obtain st res where f: "finish_refresh_success_without_persist (w_time W i 1) k refreshed
      (ws_store (interfere W i 1 s)) = (st, res)" by fastforce
  have "pool X st"
    using pool_refreshed [OF pool_interfere [OF assms, of i 1], of "w_time W i 1" k refreshed] f by simp
  moreover have "ws_store (fst (app_finish_refresh_success W i k refreshed s)) = st"
    by (simp add: app_finish_refresh_success_def Let_def f case_prod_unfold del: One_nat_def
        split: sum.split option.split)
  ultimately show ?thesis by simp
qed

lemma refresh_failure_pool:
  assumes "confined X W" "pool X (ws_store s)"
  shows "pool X (ws_store (outcome_state (app_finish_refresh_failure E W i k f ra d s)))"
proof (cases "f = AuthInvalid")
  case False
  then show ?thesis
    by (simp add: app_finish_refresh_failure_def Let_def put_outcome_store pool_keeps assms)
next
  case True
  let ?s = "interfere W i 1 s"
  obtain st r where prep: "prepare_auth_invalid_failure (w_time W i 1) k d (ws_store ?s) = (st, r)"
    by fastforce
  then have p: "pool X st"
    using pool_prepare_invalid [OF pool_interfere [OF assms, of i 1], of "w_time W i 1" k d] by simp
  show ?thesis
  proof (cases r)
    case (Inl e)
    with p show ?thesis
      by (simp add: app_finish_refresh_failure_def Let_def True prep del: One_nat_def)
  next
    case (Inr plan)
    obtain s2 r2 where run: "(case aip_trash_op plan of
          Some op \<Rightarrow> run_account_disk_op W op (put_store (Settled k) st ?s)
        | None \<Rightarrow> (put_store (Settled k) st ?s, Inr ())) = (s2, r2)" by fastforce
    then have "ws_store s2 = st"
      using ws_store_simps(2) [of W _ "put_store (Settled k) st ?s"]
      by (auto split: option.splits) (metis fst_conv ws_store_simps)
    then have "pool X (ws_store (interfere W i 2 s2))" using p by (simp add: pool_keeps assms)
    then show ?thesis
      unfolding True refresh_invalid_eq [OF prep [unfolded Inr] run, of E ra]
      by (cases r2) (simp_all add: Let_def case_prod_unfold pool_keeps)
  qed
qed

lemma fo_select_phase:
  assumes "confined X W" "pool X (ws_store s)" "fo_select E C W i fo s = Returned s1 r"
  shows "pool X (ws_store s1) \<and> (case r of
      Inl f \<Rightarrow> accounting s1 = accounting s
    | Inr sel \<Rightarrow> accounting s1 = accounting s @ [Selected (sel_account_id sel)]
        \<and> sel_account_id sel \<in> X \<and> sel_account_id sel \<notin> fo_tried fo)"
proof -
  let ?s = "interfere W i 0 s"
  have p: "pool X (ws_store ?s)" by (rule pool_interfere [OF assms(1,2)])
  show ?thesis
  proof (cases "select_account E (w_select_clock W i) (fc_policy C) (fc_refresh_skew C) (fo_tried fo)
      (ws_store ?s)")
    case (Panicked st)
    with assms(3) show ?thesis by (simp add: fo_select_def Let_def)
  next
    case (Returned st v)
    note ph = select_phase [OF p Returned]
    show ?thesis
    proof (cases v)
      case (Inr sel)
      with assms(3) Returned ph show ?thesis by (auto simp: fo_select_def Let_def)
    next
      case (Inl e)
      let ?x = "resolve_selection_failure E (w_time W i 0) (w_time W i 7) e (fo_tried fo)
          (fo_pool_summary fo) (fo_retryable fo) st"
      have "pool X (outcome_state ?x)"
        using ph Inl pool_expire
        by (simp add: resolve_selection_failure_def summarize_state split: selection_failure.split)
      with assms(3) Returned Inl show ?thesis
        by (cases ?x) (auto simp: fo_select_def Let_def)
    qed
  qed
qed

text \<open>
  What a round does with the account \<open>k\<close> it selected: another round settles it once and puts it into
  one of the two sets; the last round settles it once, unless the caller holds it on success, or the
  record has disappeared when the invalid token is to be noted.
\<close>

definition held_or_gone ::
  "fo_config \<Rightarrow> account_store \<Rightarrow> string \<Rightarrow> failover_failure + 'v routed_execution \<Rightarrow> bool" where
  "held_or_gone C st k r \<longleftrightarrow>
     (case r of
        Inr x \<Rightarrow> re_account_id x = k \<and> fc_disposition C = HoldUntilCaller
      | Inl f \<Rightarrow> records_get st k = None \<and> (\<exists>e. f = FoInternal 500 e))"

definition round_settles ::
  "fo_config \<Rightarrow> failover_state \<Rightarrow> string \<Rightarrow> store_event list \<Rightarrow> 'fs world_state \<Rightarrow> 'v fo_verdict \<Rightarrow> bool"
where
  "round_settles C fo k log s v \<longleftrightarrow>
     (case v of
        Again fo' \<Rightarrow> accounting s = log @ [Settled k] \<and>
          (fo_tried fo' = insert k (fo_tried fo) \<and> fo_forced fo' = fo_forced fo
           \<or> k \<notin> fo_forced fo \<and> fo_forced fo' = insert k (fo_forced fo) \<and> fo_tried fo' = fo_tried fo)
      | Done fo' r \<Rightarrow> fo_tried fo' = fo_tried fo \<and> fo_forced fo' = fo_forced fo \<and>
          (accounting s = log @ [Settled k]
             \<and> (\<forall>x. r = Inr x \<longrightarrow> re_account_id x = k \<and> fc_disposition C = ReleaseImmediately)
           \<or> accounting s = log \<and> held_or_gone C (ws_store s) k r))"

lemma put_tried_simps [simp]:
  "fo_tried (put_tried k fo) = insert k (fo_tried fo)"
  "fo_forced (put_tried k fo) = fo_forced fo"
  by (simp_all add: put_tried_def)

lemma and_then_Returned:
  "and_then x f = Returned s' v \<longleftrightarrow> (\<exists>s a. x = Returned s a \<and> f s a = Returned s' v)"
  by (cases x) simp_all

lemma outcome_state_eq: "x = Returned s a \<Longrightarrow> outcome_state x = s"
  by simp

lemma fo_failed_phase:
  assumes "confined X W" "pool X (ws_store s0)" "fo_failed E W i k error fo s0 = Returned s v"
  shows "pool X (ws_store s) \<and> round_settles C fo k (accounting s0) s v"
proof -
  define f where "f = classify_request_error E error"
  define d where "d = extract_failure_reason E error f"
  define ra where "ra = extract_retry_after E (w_time W i 5) error"
  have p: "pool X (ws_store (interfere W i 6 s0))" by (rule pool_interfere [OF assms(1,2)])
  have fail: "pool X (ws_store s2) \<and> accounting s2 = accounting s1 @ [Settled k]"
    if "fail_at E W i 6 k f ra d s1 = Returned s2 u" "pool X (ws_store s1)" for s1 s2 u
    using fail_at_keeps(1) [of E W i 6 k f ra d s1] fail_at_keeps(2) [of X s1 E W i 6 k f ra d] that
    by simp
  show ?thesis
  proof (cases "f = AccessTokenRejected \<and> k \<notin> fo_forced fo")
    case True
    with assms show ?thesis
      by (auto simp: fo_failed_def f_def [symmetric] release_at_keeps round_settles_def)
  next
    case False
    define s1 where "s1 = (if f = AccessTokenRejected
        then put_store Internal (invalidate_access_token (w_time W i 6) k (ws_store (interfere W i 6 s0)))
               (interfere W i 6 s0) else interfere W i 6 s0)"
    have s1: "pool X (ws_store s1)" "accounting s1 = accounting s0"
      using p by (simp_all add: s1_def pool_invalidate)
    from assms(3) False obtain s2 u where s2: "fail_at E W i 6 k f ra d s1 = Returned s2 u" "s = s2"
      and v: "v = Again ((put_tried k fo)\<lparr>fo_retryable := Some (FoTransport error)\<rparr>)
          \<or> v = Done fo (Inl (FoTransport error))"
      unfolding fo_failed_def Let_def f_def [symmetric] d_def [symmetric] ra_def [symmetric] s1_def
      by (auto simp: and_then_Returned split: if_splits)
    from fail [OF s2(1) s1(1)] s1(2) v s2(2) show ?thesis
      by (auto simp: round_settles_def)
  qed
qed

lemma fo_execute_phase:
  assumes "confined X W" "pool X (ws_store s0)" "fo_execute E C W U i k fo s0 = Returned s v"
  shows "pool X (ws_store s) \<and> round_settles C fo k (accounting s0) s v"
proof -
  let ?s = "interfere W i 4 s0"
  have p: "pool X (ws_store ?s)" by (rule pool_interfere [OF assms(1,2)])
  show ?thesis
  proof (cases "upstream_account_of (ws_store ?s) k")
    case (Inl e)
    with assms(1,3) p show ?thesis
      by (cases e) (auto simp: fo_execute_def Let_def round_settles_def release_at_keeps)
  next
    case (Inr account)
    show ?thesis
    proof (cases "up_execute U i account")
      case (Inl error)
      with assms(3) Inr have "fo_failed E W i k error fo ?s = Returned s v"
        by (simp add: fo_execute_def Let_def)
      from fo_failed_phase [OF assms(1) p this, of C] show ?thesis by simp
    next
      case (Inr x)
      with assms(3) \<open>upstream_account_of _ _ = _\<close> p assms(1) show ?thesis
        by (cases "fc_disposition C")
          (auto simp: fo_execute_def Let_def round_settles_def held_or_gone_def pool_keeps)
    qed
  qed
qed

lemma fo_refresh_phase:
  assumes "confined X W" "pool X (ws_store s0)" "fo_refresh E W U i sel fo s0 = Returned s r"
  shows "pool X (ws_store s) \<and>
    (case r of None \<Rightarrow> accounting s = accounting s0
     | Some v \<Rightarrow> round_settles C fo (sel_account_id sel) (accounting s0) s v)"
proof (cases "sel_needs_refresh sel")
  case False
  with assms show ?thesis by (auto simp: fo_refresh_def)
next
  case True
  let ?k = "sel_account_id sel"
  show ?thesis
  proof (cases "up_refresh U i (sel_refresh_token sel)")
    case (Inr refreshed)
    obtain s1 res where f: "app_finish_refresh_success W i ?k refreshed s0 = (s1, res)" by fastforce
    have s1: "pool X (ws_store s1)" "accounting s1 = accounting s0"
      using refresh_success_pool [OF assms(1,2), of i ?k refreshed]
        refresh_success_accounting [of W i ?k refreshed s0] f by simp_all
    with assms(1,3) f Inr True show ?thesis
      by (cases res) (auto simp: fo_refresh_def release_at_keeps round_settles_def)
  next
    case (Inl err)
    let ?d = "''refresh failed: status='' @ status_display E (rf_status err) @ '' body='' @ rf_body err"
    let ?x = "app_finish_refresh_failure E W i ?k (rf_class err) (rf_retry_after err) ?d s0"
    from assms(3) Inl True obtain a where x: "?x = Returned s a"
      by (auto simp: fo_refresh_def apply_refresh_failure_def and_then_Returned)
    have p: "pool X (ws_store s)"
      using refresh_failure_pool [OF assms(1,2), of E i ?k "rf_class err" "rf_retry_after err" ?d] x
      by simp
    have acc: "accounting s = accounting s0 @ [Settled ?k]
        \<or> accounting s = accounting s0 \<and> records_get (ws_store s) ?k = None \<and> (\<exists>e. a = Inl e)"
      using refresh_failure_accounting [of E W i ?k "rf_class err" "rf_retry_after err" ?d s0] x by auto
    show ?thesis
    proof (cases a)
      case (Inl e)
      with assms(3) \<open>up_refresh _ _ _ = _\<close> True x
      have "r = Some (Done fo (Inl (FoInternal 500 e)))"
        by (simp add: fo_refresh_def apply_refresh_failure_def)
      with p acc show ?thesis by (auto simp: round_settles_def held_or_gone_def)
    next
      case (Inr u)
      with assms(3) \<open>up_refresh _ _ _ = _\<close> True x p acc show ?thesis
        by (auto simp: fo_refresh_def apply_refresh_failure_def Let_def round_settles_def
            split: if_splits)
    qed
  qed
qed

lemma failover_round_phase:
  assumes "confined X W" "pool X (ws_store s0)" "failover_round E C W U i fo s0 = Returned s v"
  shows "pool X (ws_store s) \<and>
    ((\<exists>f. v = Done fo (Inl f) \<and> accounting s = accounting s0)
     \<or> (\<exists>k \<in> X. k \<notin> fo_tried fo \<and> round_settles C fo k (accounting s0 @ [Selected k]) s v))"
proof -
  from assms(3) obtain s1 r1 where sel: "fo_select E C W i fo s0 = Returned s1 r1"
    by (auto simp: failover_round_def and_then_Returned)
  note ph1 = fo_select_phase [OF assms(1,2) sel]
  show ?thesis
  proof (cases r1)
    case (Inl f)
    with assms(3) sel ph1 show ?thesis by (auto simp: failover_round_def)
  next
    case (Inr selection)
    with ph1 have p1: "pool X (ws_store s1)" by simp
    from assms(3) sel Inr obtain s2 r2 where ref: "fo_refresh E W U i selection fo s1 = Returned s2 r2"
      by (auto simp: failover_round_def and_then_Returned)
    note ph2 = fo_refresh_phase [OF assms(1) p1 ref, of C]
    show ?thesis
    proof (cases r2)
      case (Some v')
      with assms(3) sel Inr ref have "v = v'" "s = s2" by (auto simp: failover_round_def)
      with ph1 ph2 Inr Some show ?thesis by auto
    next
      case None
      with assms(3) sel Inr ref
      have "fo_execute E C W U i (sel_account_id selection) fo s2 = Returned s v"
        by (auto simp: failover_round_def)
      from fo_execute_phase [OF assms(1) _ this] ph1 ph2 Inr None show ?thesis by auto
    qed
  qed
qed

section \<open>The loop\<close>

definition fo_budget :: "string set \<Rightarrow> failover_state \<times> 'fs world_state \<Rightarrow> nat" where
  "fo_budget X x = card (X - fo_tried (fst x)) + card (X - fo_forced (fst x))"

definition fo_inv :: "string set \<Rightarrow> 'fs world \<Rightarrow> failover_state \<times> 'fs world_state \<Rightarrow> bool" where
  "fo_inv X W x \<longleftrightarrow> finite X \<and> confined X W \<and> pool X (ws_store (snd x))"

lemma failover_step_cases:
  assumes "failover_step E C W U i (fo, s) = y"
  obtains (again) s' fo' where "y = Inl (fo', s')" "failover_round E C W U i fo s = Returned s' (Again fo')"
  | (stop) s' fo' r where "y = Inr (Returned s' (fo_tried fo', r))"
      "failover_round E C W U i fo s = Returned s' (Done fo' r)"
  | (panic) s' where "y = Inr (Panicked s')"
  using assms
  by (auto simp: failover_step_def split: outcome.splits fo_verdict.splits)

lemma card_diff_insert_less: "finite X \<Longrightarrow> k \<in> X \<Longrightarrow> k \<notin> T \<Longrightarrow> card (X - insert k T) < card (X - T)"
  by (rule psubset_card_mono) auto

interpretation failover: budgeted_loop "failover_step E C W U" "fo_inv X W" "fo_budget X"
  for E :: externals and C :: fo_config and W :: "'fs world" and U :: "'v upstream" and X :: "string set"
proof
  fix x i and x' :: "failover_state \<times> 'fs world_state"
  assume inv: "fo_inv X W x" and step: "failover_step E C W U i x = Inl x'"
  obtain fo s where x: "x = (fo, s)" by fastforce
  from inv have fin: "finite X" "confined X W" "pool X (ws_store s)" by (simp_all add: fo_inv_def x)
  from step [unfolded x] obtain s' fo' where x': "x' = (fo', s')"
    and r: "failover_round E C W U i fo s = Returned s' (Again fo')"
    by (auto elim: failover_step_cases)
  from failover_round_phase [OF fin(2,3) r] obtain k where
    "pool X (ws_store s')" "k \<in> X" "k \<notin> fo_tried fo"
    "fo_tried fo' = insert k (fo_tried fo) \<and> fo_forced fo' = fo_forced fo
      \<or> k \<notin> fo_forced fo \<and> fo_forced fo' = insert k (fo_forced fo) \<and> fo_tried fo' = fo_tried fo"
    by (auto simp: round_settles_def)
  with fin card_diff_insert_less [of X k] show "fo_inv X W x' \<and> fo_budget X x' < fo_budget X x"
    by (auto simp: fo_inv_def fo_budget_def x x')
qed

lemma failover_loop_returns:
  assumes "finite X" "confined X W" "pool X (ws_store s)" "2 * card X < fuel"
  shows "\<exists>r. execute_with_failover_from fuel E C W U tried s = Some r"
proof -
  have "card (X - tried) \<le> card X" by (simp add: assms(1) card_mono)
  with assms show ?thesis
    unfolding execute_with_failover_from_def
    by (intro failover.returns) (auto simp: fo_inv_def fo_budget_def)
qed

text \<open>
  C11: the failover loop, which has no bound in the code, returns: as long as the accounts that ever
  enter the store are among the finite set \<open>X\<close>, whatever the upstream answers and the other tasks do,
  \<open>2 * card X + 1\<close> rounds are enough.
\<close>

theorem failover_returns:
  assumes "finite X" "confined X W" "pool X (ws_store s)" "2 * card X < fuel"
  shows "\<exists>r. execute_with_failover_from fuel E C W U tried s = Some r"
  by (rule failover_loop_returns [OF assms])

definition tries_left :: "failover_state \<Rightarrow> string \<Rightarrow> nat" where
  "tries_left fo k = (if k \<in> fo_tried fo then 0 else if k \<in> fo_forced fo then 1 else 2)"

definition paired :: "failover_state \<Rightarrow> failover_state \<Rightarrow> store_event list \<Rightarrow> bool" where
  "paired fo0 fo evs \<longleftrightarrow> fo_tried fo0 \<subseteq> fo_tried fo \<and>
     (\<forall>k. opened k evs = settled k evs \<and> balanced k evs
        \<and> opened k evs + tries_left fo k \<le> tries_left fo0 k)"

lemma pairedD:
  assumes "paired fo0 fo evs"
  shows "fo_tried fo0 \<subseteq> fo_tried fo" "opened k evs = settled k evs" "balanced k evs"
    "opened k evs + tries_left fo k \<le> tries_left fo0 k"
  using assms unfolding paired_def by blast+

lemma opened_append: "opened k (xs @ ys) = opened k xs + opened k ys"
  and settled_append: "settled k (xs @ ys) = settled k xs + settled k ys"
  by (simp_all add: opened_def settled_def)

lemma balanced_append:
  assumes "balanced k xs" "settled k xs \<le> opened k xs" "balanced k ys"
  shows "balanced k (xs @ ys)"
  unfolding balanced_def
proof (intro allI impI)
  fix n assume n: "n \<le> length (xs @ ys)"
  show "settled k (take n (xs @ ys)) \<le> opened k (take n (xs @ ys))"
  proof (cases "n \<le> length xs")
    case True
    with assms(1) show ?thesis by (simp add: balanced_def)
  next
    case False
    with n have "n - length xs \<le> length ys" by simp
    with assms(3) have "settled k (take (n - length xs) ys) \<le> opened k (take (n - length xs) ys)"
      unfolding balanced_def by blast
    with assms(2) False show ?thesis by (simp add: opened_append settled_append)
  qed
qed

lemma balanced_small: "balanced k [Selected j]" "balanced k [Selected j, Settled j]" "balanced k []"
  by (auto simp: balanced_def settled_def opened_def le_Suc_eq)

lemma balanced_append_settled:
  assumes "balanced k evs" "settled k evs \<le> opened k evs"
  shows "balanced k (evs @ [Selected j])" "balanced k (evs @ [Selected j, Settled j])"
  using balanced_append [OF assms] balanced_small by blast+

lemma paired_extend:
  assumes "paired fo0 fo evs" "k \<notin> fo_tried fo"
    "fo_tried fo' = insert k (fo_tried fo) \<and> fo_forced fo' = fo_forced fo
        \<or> k \<notin> fo_forced fo \<and> fo_forced fo' = insert k (fo_forced fo) \<and> fo_tried fo' = fo_tried fo"
  shows "paired fo0 fo' (evs @ [Selected k, Settled k])"
  unfolding paired_def
proof (intro conjI allI)
  show "fo_tried fo0 \<subseteq> fo_tried fo'" using assms by (auto simp: paired_def)
next
  fix j
  have o: "opened j evs = settled j evs" "balanced j evs"
    "opened j evs + tries_left fo j \<le> tries_left fo0 j" using pairedD [OF assms(1)] by blast+
  show "opened j (evs @ [Selected k, Settled k]) = settled j (evs @ [Selected k, Settled k])"
    using o(1) by (simp add: opened_def settled_def)
  show "balanced j (evs @ [Selected k, Settled k])"
    using balanced_append_settled(2) [OF o(2)] o(1) by simp
  have "opened j (evs @ [Selected k, Settled k]) = opened j evs + (if j = k then 1 else 0)"
    by (simp add: opened_def)
  moreover have "(if j = k then 1 else 0) + tries_left fo' j \<le> tries_left fo j"
    using assms(2,3) by (auto simp: tries_left_def)
  ultimately show "opened j (evs @ [Selected k, Settled k]) + tries_left fo' j \<le> tries_left fo0 j"
    using o(3) by linarith
qed

text \<open>The loop up to its last round, whose account may be left open.\<close>

text \<open>A round from a state whose events are paired: it leaves such a state, or ends the loop.\<close>

lemma paired_round_again:
  assumes "confined X W" "pool X (ws_store s1)" "accounting s1 = log @ evs" "paired fo0 fo evs"
    "failover_round E C W U j fo s1 = Returned s2 (Again fo')"
  shows "pool X (ws_store s2) \<and> (\<exists>evs. accounting s2 = log @ evs \<and> paired fo0 fo' evs)"
proof -
  from failover_round_phase [OF assms(1,2,5)] obtain k where k: "pool X (ws_store s2)"
    "k \<notin> fo_tried fo" "accounting s2 = log @ evs @ [Selected k, Settled k]"
    "fo_tried fo' = insert k (fo_tried fo) \<and> fo_forced fo' = fo_forced fo
      \<or> k \<notin> fo_forced fo \<and> fo_forced fo' = insert k (fo_forced fo) \<and> fo_tried fo' = fo_tried fo"
    using assms(3) by (auto simp: round_settles_def)
  with paired_extend [OF assms(4) k(2,4)] show ?thesis by auto
qed

lemma paired_round_done:
  assumes "confined X W" "pool X (ws_store s1)" "accounting s1 = log @ evs"
    "failover_round E C W U j fo s1 = Returned s2 (Done fo' r)"
  shows "fo_tried fo' = fo_tried fo \<and> pool X (ws_store s2) \<and>
    (accounting s2 = log @ evs \<and> (\<exists>f. r = Inl f)
     \<or> (\<exists>k. k \<in> X - fo_tried fo \<and> round_settles C fo k (log @ evs @ [Selected k]) s2 (Done fo r)))"
  using failover_round_phase [OF assms(1,2,4)] assms(3) by (auto simp: round_settles_def)

lemma failover_loop_ends:
  fixes s s' :: "'fs world_state" and r :: "failover_failure + 'v routed_execution"
  defines "fo0 \<equiv> \<lambda>tried. \<lparr>fo_tried = tried, fo_forced = {}, fo_pool_summary = None, fo_retryable = None\<rparr>"
  assumes "confined X W" "pool X (ws_store s)"
    and "execute_with_failover_from fuel E C W U tried s = Some (Returned s' (tried', r))"
  shows "\<exists>fo evs k. paired (fo0 tried) fo evs \<and> tried' = fo_tried fo \<and> pool X (ws_store s') \<and>
        (accounting s' = accounting s @ evs \<and> (\<exists>f. r = Inl f)
         \<or> k \<in> X - tried' \<and> round_settles C fo k (accounting s @ evs @ [Selected k]) s' (Done fo r))"
proof -
  define P where "P = (\<lambda>(fo, s1 :: 'fs world_state). pool X (ws_store s1)
      \<and> (\<exists>evs. accounting s1 = accounting s @ evs \<and> paired (fo0 tried) fo evs))"
  define Q where "Q = (\<lambda>res :: ('fs, 'v) fo_result. \<forall>s' tried' r. res = Returned s' (tried', r) \<longrightarrow>
      (\<exists>fo evs k. paired (fo0 tried) fo evs \<and> tried' = fo_tried fo \<and> pool X (ws_store s') \<and>
        (accounting s' = accounting s @ evs \<and> (\<exists>f. r = Inl f)
         \<or> k \<in> X - tried' \<and> round_settles C fo k (accounting s @ evs @ [Selected k]) s' (Done fo r))))"
  have "Q (Returned s' (tried', r))"
  proof (rule run_loop_induct [OF assms(4) [unfolded execute_with_failover_from_def], where P = P])
    show "P (\<lparr>fo_tried = tried, fo_forced = {}, fo_pool_summary = None, fo_retryable = None\<rparr>, s)"
      using assms(3) by (auto simp: P_def fo0_def paired_def opened_def settled_def balanced_def)
  next
    fix j x x'
    assume P: "P x" and step: "failover_step E C W U j x = Inl x'"
    obtain fo s1 where x: "x = (fo, s1)" by fastforce
    from P x obtain evs where p: "pool X (ws_store s1)"
      and evs: "accounting s1 = accounting s @ evs" "paired (fo0 tried) fo evs" by (auto simp: P_def)
    from step [unfolded x] obtain s2 fo' where x': "x' = (fo', s2)"
      and r: "failover_round E C W U j fo s1 = Returned s2 (Again fo')"
      by (auto elim: failover_step_cases)
    from paired_round_again [OF assms(2) p evs r] show "P x'" by (auto simp: P_def x')
  next
    fix j x res
    assume P: "P x" and step: "failover_step E C W U j x = Inr res"
    obtain fo s1 where x: "x = (fo, s1)" by fastforce
    from P x obtain evs where p: "pool X (ws_store s1)"
      and evs: "accounting s1 = accounting s @ evs" "paired (fo0 tried) fo evs" by (auto simp: P_def)
    show "Q res"
      using step [unfolded x]
    proof (cases rule: failover_step_cases)
      case (stop s2 fo' r2)
      note paired_round_done [OF assms(2) p evs(1) stop(2)]
      with stop(1) evs(2) show ?thesis unfolding Q_def by fastforce
    qed (auto simp: Q_def)
  qed
  then show ?thesis unfolding Q_def by blast
qed

lemma failover_loop_settles:
  fixes s s' :: "'fs world_state" and r :: "failover_failure + 'v routed_execution"
  assumes "confined X W" "pool X (ws_store s)"
    and "execute_with_failover_from fuel E C W U tried s = Some (Returned s' (tried', r))"
  shows "\<exists>evs. accounting s' = accounting s @ evs \<and> tried \<subseteq> tried' \<and> pool X (ws_store s')
    \<and> (\<forall>k. balanced k evs \<and> opened k evs \<le> (if k \<in> tried then 0 else 2))
    \<and> (case r of
         Inr x \<Rightarrow> re_account_id x \<in> X - tried' \<and>
           (\<forall>k. opened k evs = settled k evs +
              (if k = re_account_id x \<and> fc_disposition C = HoldUntilCaller then 1 else 0))
       | Inl f \<Rightarrow> (\<forall>k. opened k evs = settled k evs)
           \<or> (\<exists>k e. f = FoInternal 500 e \<and> records_get (ws_store s') k = None
                \<and> (\<forall>j. opened j evs = settled j evs + (if j = k then 1 else 0))))"
proof -
  let ?fo0 = "\<lparr>fo_tried = tried, fo_forced = {}, fo_pool_summary = None, fo_retryable = None\<rparr>"
  from failover_loop_ends [OF assms] obtain fo evs k where q: "paired ?fo0 fo evs" "tried' = fo_tried fo"
    and pool: "pool X (ws_store s')" and q3:
    "accounting s' = accounting s @ evs \<and> (\<exists>f. r = Inl f)
         \<or> k \<in> X - tried' \<and> round_settles C fo k (accounting s @ evs @ [Selected k]) s' (Done fo r)"
    by blast
  have o: "opened j evs = settled j evs" "balanced j evs" "opened j evs + tries_left fo j \<le> tries_left ?fo0 j"
    "tried \<subseteq> tried'" for j using pairedD [OF q(1)] q(2) by auto
  have le: "opened j evs \<le> (if j \<in> tried then 0 else 2)"
      "k \<in> X - tried' \<Longrightarrow> opened j evs + (if j = k then 1 else 0) \<le> (if j \<in> tried then 0 else 2)" for j
    using o(3) [of j] o(4) q(2) by (auto simp: tries_left_def split: if_splits)
  have bal: "balanced j (evs @ [Selected k])" "balanced j (evs @ [Selected k, Settled k])" for j
    using balanced_append_settled [OF o(2)] o(1) by simp_all
  have one: "opened j [Selected k] = (if j = k then 1 else 0)"
    "opened j [Selected k, Settled k] = (if j = k then 1 else 0)"
    "settled j [Selected k] = 0" "settled j [Selected k, Settled k] = (if j = k then 1 else 0)" for j
    by (simp_all add: opened_def settled_def)
  from q3 consider (nothing) f where "accounting s' = accounting s @ evs" "r = Inl f"
    | (settled) "k \<in> X - tried'" "accounting s' = accounting s @ evs @ [Selected k, Settled k]"
        "\<forall>x. r = Inr x \<longrightarrow> re_account_id x = k \<and> fc_disposition C = ReleaseImmediately"
    | (held) "k \<in> X - tried'" "accounting s' = accounting s @ evs @ [Selected k]"
        "held_or_gone C (ws_store s') k r"
    by (auto simp: round_settles_def)
  then show ?thesis
  proof cases
    case nothing
    with o le(1) pool show ?thesis by (intro exI [of _ evs]) simp
  next
    case settled
    then show ?thesis
      using o bal(2) le(2) pool by (intro exI [of _ "evs @ [Selected k, Settled k]"])
        (auto simp: opened_append settled_append one split: sum.split)
  next
    case held
    then show ?thesis
      using o bal(1) le(2) pool by (intro exI [of _ "evs @ [Selected k]"])
        (auto simp: opened_append settled_append one held_or_gone_def split: sum.splits)
  qed
qed

text \<open>
  C5: a run of the loop gives back what it takes. Its events on the store are selections, each
  followed by the settlement of the same account, and no settlement comes before its selection; at
  the end nothing is open, except the account the caller holds on success when it asked to, and
  except a record that disappeared while its invalid token was to be noted (there is then nothing
  left to settle). No account is asked more than twice (the second time after a forced refresh), an
  account tried before not at all, and the account of a success is in the pool and not among the
  tried ones; the store stays good and inside the pool.
\<close>

theorem failover_settles:
  fixes s s' :: "'fs world_state" and r :: "failover_failure + 'v routed_execution"
  assumes "confined X W" "pool X (ws_store s)"
    and "execute_with_failover_from fuel E C W U tried s = Some (Returned s' (tried', r))"
  shows "\<exists>evs. accounting s' = accounting s @ evs \<and> tried \<subseteq> tried' \<and> pool X (ws_store s')
    \<and> (\<forall>k. balanced k evs \<and> opened k evs \<le> (if k \<in> tried then 0 else 2))
    \<and> (case r of
         Inr x \<Rightarrow> re_account_id x \<in> X - tried' \<and>
           (\<forall>k. opened k evs = settled k evs +
              (if k = re_account_id x \<and> fc_disposition C = HoldUntilCaller then 1 else 0))
       | Inl f \<Rightarrow> (\<forall>k. opened k evs = settled k evs)
           \<or> (\<exists>k e. f = FoInternal 500 e \<and> records_get (ws_store s') k = None
                \<and> (\<forall>j. opened j evs = settled j evs + (if j = k then 1 else 0))))"
  by (rule failover_loop_settles [OF assms])

text \<open>A run: one account, a refresh, an answer; no other task does anything.\<close>

definition quiet_world :: "'fs world" where
  "quiet_world =
     \<lparr>w_interfere = (\<lambda>_ _ x. x), w_select_clock = (\<lambda>_. sample_clock), w_time = (\<lambda>_ _. 0),
      w_run_op = (\<lambda>_ fs. (fs, Inr ()))\<rparr>"

definition answering_with :: "'v \<Rightarrow> 'v upstream" where
  "answering_with v =
     \<lparr>up_refresh = (\<lambda>_ _. Inr \<lparr>ra_access_token = ''at'', ra_refresh_token = None, ra_account_id = None,
        ra_plan_type = None, ra_email = None, ra_access_token_expires_at = None\<rparr>),
      up_execute = (\<lambda>_ _. Inr v)\<rparr>"

definition answering :: "unit upstream" where
  "answering = answering_with ()"

definition sample_config :: fo_config where
  "sample_config = \<lparr>fc_policy = RoundRobin, fc_refresh_skew = 60, fc_disposition = HoldUntilCaller\<rparr>"

definition sample_state :: "'fs \<Rightarrow> 'fs world_state" where
  "sample_state fs = \<lparr>ws_store = one_store, ws_fs = fs, ws_log = []\<rparr>"

abbreviation sample_world_state :: "unit world_state" where
  "sample_world_state \<equiv> sample_state ()"

lemma good_one_store: "good_store one_store"
  using run_good [OF store_run.step [OF store_run.start
      store_step.disk_sync [of sample_externals "new_store [''d'']" one_plan]] good_new_store]
  by (simp add: sample_sync)

lemma sample_pool: "confined {''b''} quiet_world" "pool {''b''} (ws_store (sample_state fs))"
  by (simp_all add: confined_def quiet_world_def pool_def sample_state_def good_one_store)
    (simp add: one_store_def records_get_def)

theorem failover_returns_witness:
  "\<exists>r. execute_with_failover_from 3 sample_externals sample_config quiet_world answering {}
         sample_world_state = Some r"
  by (rule failover_returns [OF _ sample_pool]) simp_all

lemma quiet_interfere [simp]: "interfere quiet_world i j s = s"
  by (simp add: interfere_def quiet_world_def)

text \<open>The refresh of the account \<open>b\<close> after its selection.\<close>

lemma sample_refresh:
  fixes fs :: 'fs and refreshed
  defines "rec \<equiv> refresh_success_record 0 refreshed (mark_warming (mark_selected 0 free_sample))"
  shows "\<exists>s2 w. app_finish_refresh_success quiet_world 0 ''b'' refreshed
        (put_store (Selected ''b'') busy_store (sample_state fs)) = (s2, Inr w)
      \<and> ws_store s2 = records_insert ''b'' rec busy_store \<and> ws_fs s2 = fs \<and> accounting s2 = [Selected ''b'']"
    and "\<not> ar_detached rec" "ar_access_token rec = Some (ra_access_token refreshed)"
proof -
  show r: "\<not> ar_detached rec" "ar_access_token rec = Some (ra_access_token refreshed)"
    by (simp_all add: rec_def refresh_success_record_def Let_def mark_warming_def mark_selected_def
        free_sample_def new_account_record_def clear_block_def)
  have "\<exists>op. finish_refresh_success_without_persist 0 ''b'' refreshed busy_store
      = (records_insert ''b'' rec busy_store, Inr op)"
    using r by (simp add: finish_refresh_success_without_persist_def busy_store_def maybe_remove_detached_def
        Let_def rec_def)
  then obtain op where fin: "finish_refresh_success_without_persist 0 ''b'' refreshed busy_store
      = (records_insert ''b'' rec busy_store, Inr op)" by blast
  have w: "w_time quiet_world a b = 0" "w_run_op quiet_world op x = (x, Inr ())" for a b op and x :: 'fs
    by (simp_all add: quiet_world_def)
  show "\<exists>s2 w. app_finish_refresh_success quiet_world 0 ''b'' refreshed
        (put_store (Selected ''b'') busy_store (sample_state fs)) = (s2, Inr w)
      \<and> ws_store s2 = records_insert ''b'' rec busy_store \<and> ws_fs s2 = fs \<and> accounting s2 = [Selected ''b'']"
    by (cases op) (simp_all add: app_finish_refresh_success_def w fin Let_def run_account_disk_op_def
        put_store_def sample_state_def accounting_def del: One_nat_def)
qed

lemma sample_failover_with:
  assumes "''b'' \<notin> X"
  shows "\<exists>s'. execute_with_failover_from 3 (sample_externals\<lparr>parse_json := f\<rparr>) sample_config quiet_world
         (answering_with v) X (sample_state fs)
       = Some (Returned s' (X, Inr \<lparr>re_account_id = ''b'', re_value = v\<rparr>))
         \<and> ws_fs s' = fs \<and> accounting s' = [Selected ''b'']"
proof -
  let ?E = "sample_externals\<lparr>parse_json := f\<rparr>"
  let ?fo = "\<lparr>fo_tried = X, fo_forced = {}, fo_pool_summary = None, fo_retryable = None\<rparr>"
  let ?sel = "\<lparr>sel_account_id = ''b'', sel_refresh_token = ''u'', sel_needs_refresh = True\<rparr>"
  let ?s1 = "put_store (Selected ''b'') busy_store (sample_state fs)"
  have sel: "fo_select ?E sample_config quiet_world 0 ?fo (sample_state fs) = Returned ?s1 (Inr ?sel)"
    using sample_pool_select [OF assms, of f]
    by (simp add: fo_select_def Let_def sample_config_def) (simp add: sample_state_def quiet_world_def)
  obtain refreshed where u: "up_refresh (answering_with v) 0 ''u'' = Inr refreshed" by (simp add: answering_with_def)
  let ?r = "refresh_success_record 0 refreshed (mark_warming (mark_selected 0 free_sample))"
  note r = sample_refresh(2,3) [of refreshed]
  obtain s2 w where s2: "app_finish_refresh_success quiet_world 0 ''b'' refreshed ?s1 = (s2, Inr w)"
      "ws_store s2 = records_insert ''b'' ?r busy_store" "ws_fs s2 = fs" "accounting s2 = [Selected ''b'']"
    using sample_refresh(1) [of refreshed fs] by blast
  have ref: "fo_refresh ?E quiet_world (answering_with v) 0 ?sel ?fo ?s1 = Returned s2 None"
    by (simp add: fo_refresh_def u s2(1))
  have "upstream_account_of (ws_store s2) ''b''
      = Inr \<lparr>ua_access_token = ra_access_token refreshed, ua_chatgpt_account_id = ar_account_id ?r\<rparr>"
    by (simp add: upstream_account_of_def s2(2) r)
  then have exe: "fo_execute ?E sample_config quiet_world (answering_with v) 0 ''b'' ?fo s2
      = Returned s2 (Done ?fo (Inr \<lparr>re_account_id = ''b'', re_value = v\<rparr>))"
    by (simp add: fo_execute_def Let_def sample_config_def) (simp add: answering_with_def)
  have "failover_round ?E sample_config quiet_world (answering_with v) 0 ?fo (sample_state fs)
      = Returned s2 (Done ?fo (Inr \<lparr>re_account_id = ''b'', re_value = v\<rparr>))"
    by (simp add: failover_round_def sel ref exe)
  then have "failover_step ?E sample_config quiet_world (answering_with v) 0 (?fo, sample_state fs)
      = Inr (Returned s2 (X, Inr \<lparr>re_account_id = ''b'', re_value = v\<rparr>))"
    by (simp add: failover_step_def)
  then show ?thesis
    by (simp add: execute_with_failover_from_def numeral_3_eq_3 s2(3,4))
qed

lemma sample_failover:
  "\<exists>s'. execute_with_failover_from 3 sample_externals sample_config quiet_world answering {}
         sample_world_state = Some (Returned s' ({}, Inr \<lparr>re_account_id = ''b'', re_value = ()\<rparr>))"
  using sample_failover_with [of "{}" "parse_json sample_externals" "()" "()"] by (auto simp: answering_def)

theorem failover_settles_witness:
  "\<exists>s' evs. execute_with_failover_from 3 sample_externals sample_config quiet_world answering {}
         sample_world_state = Some (Returned s' ({}, Inr \<lparr>re_account_id = ''b'', re_value = ()\<rparr>))
     \<and> accounting s' = evs \<and> opened ''b'' evs = settled ''b'' evs + 1
     \<and> opened ''c'' evs = settled ''c'' evs"
proof -
  obtain s' where s': "execute_with_failover_from 3 sample_externals sample_config quiet_world answering {}
         sample_world_state = Some (Returned s' ({}, Inr \<lparr>re_account_id = ''b'', re_value = ()\<rparr>))"
    using sample_failover by blast
  obtain evs where "accounting s' = accounting sample_world_state @ evs"
    "\<forall>k. opened k evs = settled k evs + (if k = ''b'' \<and> fc_disposition sample_config = HoldUntilCaller then 1 else 0)"
    using failover_settles [OF sample_pool s'] by auto
  with s' show ?thesis
    by (auto simp: sample_config_def sample_state_def accounting_def)
qed

end
