(* ===== verification/Failover_Unary.thy ===== *)
theory Failover_Unary
  imports Failover_Bounds
begin

text \<open>
  The unary JSON requests of \<open>src/failover.rs\<close>: the failover loop inside a loop that gives up an
  account whose answer cannot be decoded. Each outer round has its own world and upstream. The loop is
  written for any decoding, since the list of models (\<open>src/app/api.rs\<close>) is fetched by a copy of it.
\<close>

section \<open>The code\<close>

record unary_response =
  uu_status :: status
  uu_headers :: header_map
  uu_body :: string

definition body_as_json :: "externals \<Rightarrow> string \<Rightarrow> string + json" where
  "body_as_json E body =
     (case parse_json E body of Some v \<Rightarrow> Inr v | None \<Rightarrow> Inl ''decode upstream json body'')"

record unary_state =
  us_tried :: "string set"
  us_decode_failed :: "string set"
  us_last_decode_failure :: "string option"

definition settle_at ::
  "externals \<Rightarrow> 'fs world \<Rightarrow> string \<Rightarrow> account_settlement \<Rightarrow> 'fs world_state
     \<Rightarrow> ('fs world_state, unit) outcome" where
  "settle_at E W aid settlement s0 =
     (let s = interfere W 0 8 s0
      in put_outcome (Settled aid)
           (apply_account_settlement E (w_time W 0 8) aid settlement (ws_store s)) s)"

text \<open>A failed selection is reported as the last decoding error when that is what emptied the pool.\<close>

definition unary_failure :: "unary_state \<Rightarrow> string set \<Rightarrow> failover_failure \<Rightarrow> failover_failure" where
  "unary_failure us tried f =
     (case (f, us_last_decode_failure us) of
        (FoPoolBlocked _, Some message) \<Rightarrow>
          if us_decode_failed us \<noteq> {} \<and> us_decode_failed us = tried then FoInternal 502 message else f
      | _ \<Rightarrow> f)"

type_synonym ('fs, 'r) unary_result = "('fs world_state, failover_failure + 'r) outcome"

text \<open>The result is \<open>None\<close> when the fuel of the inner loop was not enough.\<close>

definition unary_step ::
  "nat \<Rightarrow> externals \<Rightarrow> fo_config \<Rightarrow> (nat \<Rightarrow> 'fs world) \<Rightarrow> (nat \<Rightarrow> 'v upstream)
     \<Rightarrow> ('v \<Rightarrow> string + 'r) \<Rightarrow> nat \<Rightarrow> unary_state \<times> 'fs world_state
     \<Rightarrow> (unary_state \<times> 'fs world_state) + ('fs, 'r) unary_result option" where
  "unary_step fuel E C W U decode i x =
     (case x of (us, s) \<Rightarrow>
        (case execute_with_failover_from fuel E (C\<lparr>fc_disposition := HoldUntilCaller\<rparr>) (W i) (U i)
                (us_tried us) s of
           None \<Rightarrow> Inr None
         | Some (Panicked s1) \<Rightarrow> Inr (Some (Panicked s1))
         | Some (Returned s1 (tried, Inl f)) \<Rightarrow>
             Inr (Some (Returned s1 (Inl (unary_failure us tried f))))
         | Some (Returned s1 (tried, Inr x)) \<Rightarrow>
             (case decode (re_value x) of
                Inr v \<Rightarrow>
                  Inr (Some (and_then (settle_at E (W i) (re_account_id x) SettleSuccess s1)
                    (\<lambda>s2 _. Returned s2 (Inr v))))
              | Inl details \<Rightarrow>
                  (case settle_at E (W i) (re_account_id x)
                          (SettleFailure TemporaryFailure None details) s1 of
                     Panicked s2 \<Rightarrow> Inr (Some (Panicked s2))
                   | Returned s2 _ \<Rightarrow>
                       Inl (\<lparr>us_tried = insert (re_account_id x) tried,
                             us_decode_failed = insert (re_account_id x) (us_decode_failed us),
                             us_last_decode_failure = Some details\<rparr>, s2)))))"

definition decoding_loop ::
  "nat \<Rightarrow> nat \<Rightarrow> externals \<Rightarrow> fo_config \<Rightarrow> (nat \<Rightarrow> 'fs world) \<Rightarrow> (nat \<Rightarrow> 'v upstream)
     \<Rightarrow> ('v \<Rightarrow> string + 'r) \<Rightarrow> 'fs world_state \<Rightarrow> ('fs, 'r) unary_result option" where
  "decoding_loop outer fuel E C W U decode s =
     Option.bind
       (run_loop outer (unary_step fuel E C W U decode) 0
         (\<lparr>us_tried = {}, us_decode_failed = {}, us_last_decode_failure = None\<rparr>, s)) (\<lambda>r. r)"

definition execute_unary_json_with_failover_shaped ::
  "nat \<Rightarrow> nat \<Rightarrow> externals \<Rightarrow> fo_config \<Rightarrow> (nat \<Rightarrow> 'fs world) \<Rightarrow> (nat \<Rightarrow> unary_response upstream)
     \<Rightarrow> (status \<Rightarrow> header_map \<Rightarrow> json \<Rightarrow> 'r) \<Rightarrow> 'fs world_state \<Rightarrow> ('fs, 'r) unary_result option" where
  "execute_unary_json_with_failover_shaped outer fuel E C W U shape s =
     decoding_loop outer fuel E C W U
       (\<lambda>u. case body_as_json E (uu_body u) of
          Inl details \<Rightarrow> Inl details
        | Inr v \<Rightarrow> Inr (shape (uu_status u) (uu_headers u) v)) s"

definition execute_unary_json_with_failover ::
  "nat \<Rightarrow> nat \<Rightarrow> externals \<Rightarrow> fo_config \<Rightarrow> (nat \<Rightarrow> 'fs world) \<Rightarrow> (nat \<Rightarrow> unary_response upstream)
     \<Rightarrow> 'fs world_state \<Rightarrow> ('fs, status \<times> header_map \<times> json) unary_result option" where
  "execute_unary_json_with_failover outer fuel E C W U s =
     execute_unary_json_with_failover_shaped outer fuel E C W U (\<lambda>st h v. (st, h, v)) s"

section \<open>The loop returns and settles what it selects\<close>

definition unary_inv ::
  "nat \<Rightarrow> string set \<Rightarrow> (nat \<Rightarrow> 'fs world) \<Rightarrow> unary_state \<times> 'fs world_state \<Rightarrow> bool" where
  "unary_inv fuel X W x \<longleftrightarrow>
     finite X \<and> 2 * card X < fuel \<and> (\<forall>i. confined X (W i)) \<and> pool X (ws_store (snd x))"

definition unary_budget :: "string set \<Rightarrow> unary_state \<times> 'fs world_state \<Rightarrow> nat" where
  "unary_budget X x = card (X - us_tried (fst x))"

lemma settle_at_accounting [simp]:
  "accounting (outcome_state (settle_at E W k st s)) = accounting s @ [Settled k]"
  by (simp add: settle_at_def Let_def)

lemma settle_at_keeps:
  assumes "confined X W" "pool X (ws_store s)"
  shows "pool X (ws_store (outcome_state (settle_at E W k st s)))"
    "accounting (outcome_state (settle_at E W k st s)) = accounting s @ [Settled k]"
proof -
  have p: "pool X (ws_store (interfere W 0 8 s))" by (rule pool_interfere [OF assms])
  have "pool X (outcome_state (apply_account_settlement E now k st (ws_store (interfere W 0 8 s))))" for now
    using p by (cases st) (simp_all add: pool_keeps)
  then show "pool X (ws_store (outcome_state (settle_at E W k st s)))"
    by (simp add: settle_at_def Let_def put_outcome_store)
qed (rule settle_at_accounting)

text \<open>What one outer round does: the inner loop, then the settlement of the account it returned.\<close>

definition all_settled :: "store_event list \<Rightarrow> bool" where
  "all_settled evs \<longleftrightarrow> (\<forall>k. balanced k evs \<and> opened k evs = settled k evs)"

lemma all_settled_append: "all_settled xs \<Longrightarrow> all_settled ys \<Longrightarrow> all_settled (xs @ ys)"
  unfolding all_settled_def by (auto intro: balanced_append simp: opened_append settled_append)

lemma inner_then_settled:
  assumes "confined X W" "pool X (ws_store s)"
    "execute_with_failover_from fuel E (C\<lparr>fc_disposition := HoldUntilCaller\<rparr>) W U tried s
       = Some (Returned s1 (tried', Inr x))"
  shows "pool X (ws_store s1) \<and> re_account_id x \<in> X - tried' \<and> tried \<subseteq> tried'
    \<and> (\<exists>evs. accounting s1 = accounting s @ evs \<and> all_settled (evs @ [Settled (re_account_id x)]))"
proof -
  let ?k = "re_account_id x"
  from failover_loop_settles [OF assms] obtain evs where e: "accounting s1 = accounting s @ evs"
    "pool X (ws_store s1)" "re_account_id x \<in> X - tried'" "tried \<subseteq> tried'" "\<And>k. balanced k evs"
    "\<And>k. opened k evs = settled k evs + (if k = ?k then 1 else 0)"
    by auto
  have "balanced k (evs @ [Settled ?k])" for k
    unfolding balanced_def
  proof (intro allI impI)
    fix n assume n: "n \<le> length (evs @ [Settled ?k])"
    show "settled k (take n (evs @ [Settled ?k])) \<le> opened k (take n (evs @ [Settled ?k]))"
    proof (cases "n \<le> length evs")
      case True
      with e(5) [of k] show ?thesis by (simp add: balanced_def)
    next
      case False
      with n have "take n (evs @ [Settled ?k]) = evs @ [Settled ?k]" by simp
      then show ?thesis
        using e(6) [of k] by (simp only: opened_append settled_append) (simp add: opened_def settled_def)
    qed
  qed
  then have "all_settled (evs @ [Settled ?k])"
    using e(6) unfolding all_settled_def by (simp add: opened_append settled_append)
      (simp add: opened_def settled_def)
  with e(1-4) show ?thesis by blast
qed

lemma unary_again:
  assumes "\<And>i. confined X (W i)" "pool X (ws_store s)"
    "unary_step fuel E C W U decode i (us, s) = Inl (us', s')"
  shows "pool X (ws_store s') \<and> (\<exists>k \<in> X. k \<notin> us_tried us \<and> insert k (us_tried us) \<subseteq> us_tried us')
    \<and> (\<exists>evs. accounting s' = accounting s @ evs \<and> all_settled evs)"
proof -
  from assms(3) obtain s1 tried x details s2 u where inner:
    "execute_with_failover_from fuel E (C\<lparr>fc_disposition := HoldUntilCaller\<rparr>) (W i) (U i)
       (us_tried us) s = Some (Returned s1 (tried, Inr x))"
    and st: "settle_at E (W i) (re_account_id x) (SettleFailure TemporaryFailure None details) s1
        = Returned s2 u" "s' = s2" "us_tried us' = insert (re_account_id x) tried"
    by (auto simp: unary_step_def split: option.splits outcome.splits sum.splits)
  from inner_then_settled [OF assms(1,2) inner] obtain evs where e:
    "pool X (ws_store s1)" "re_account_id x \<in> X - tried" "us_tried us \<subseteq> tried"
    "accounting s1 = accounting s @ evs" "all_settled (evs @ [Settled (re_account_id x)])"
    by blast
  from settle_at_keeps [where W = "W i" and X = X and s = s1 and E = E and k = "re_account_id x"
      and st = "SettleFailure TemporaryFailure None details", OF assms(1) e(1)] st
  have "pool X (ws_store s')" "accounting s' = accounting s @ (evs @ [Settled (re_account_id x)])"
    using e(4) by simp_all
  with e(2,3,5) st(3) show ?thesis by blast
qed

interpretation unary: budgeted_loop "unary_step fuel E C W U decode" "unary_inv fuel X W" "unary_budget X"
  for fuel E C and W :: "nat \<Rightarrow> 'fs world" and U :: "nat \<Rightarrow> 'v upstream"
    and decode :: "'v \<Rightarrow> string + 'r" and X
proof
  fix x i and x' :: "unary_state \<times> 'fs world_state"
  assume inv: "unary_inv fuel X W x" and step: "unary_step fuel E C W U decode i x = Inl x'"
  obtain us s where x: "x = (us, s)" by fastforce
  obtain us' s' where x': "x' = (us', s')" by fastforce
  from inv have i: "finite X" "\<And>i. confined X (W i)" "pool X (ws_store s)" by (auto simp: unary_inv_def x)
  from unary_again [OF i(2,3) step [unfolded x x']] obtain k where
    k: "pool X (ws_store s')" "k \<in> X" "k \<notin> us_tried us" "insert k (us_tried us) \<subseteq> us_tried us'"
    by blast
  have "card (X - us_tried us') < card (X - us_tried us)"
    by (rule psubset_card_mono) (use i(1) k in auto)
  with inv k(1) show "unary_inv fuel X W x' \<and> unary_budget X x' < unary_budget X x"
    by (auto simp: unary_inv_def unary_budget_def x x')
qed

text \<open>
  The account book of a result, counted from \<open>log\<close>: everything selected has been settled, or the
  request failed because the record of one account disappeared, and only that selection is open.
\<close>

definition settled_since ::
  "store_event list \<Rightarrow> ('fs world_state, failover_failure + 'r) outcome \<Rightarrow> bool" where
  "settled_since log res \<longleftrightarrow>
     (\<forall>s' r. res = Returned s' r \<longrightarrow> (\<exists>evs. accounting s' = log @ evs \<and>
        (all_settled evs \<or> (\<exists>k e. r = Inl (FoInternal 500 e) \<and> records_get (ws_store s') k = None
           \<and> (\<forall>j. balanced j evs \<and> opened j evs = settled j evs + (if j = k then 1 else 0))))))"

lemma settled_since_append:
  assumes "settled_since (log @ evs) res" "all_settled evs"
  shows "settled_since log res"
  unfolding settled_since_def
proof (intro allI impI)
  fix s' r assume "res = Returned s' r"
  with assms(1) obtain evs' where e: "accounting s' = log @ evs @ evs'" and
    c: "all_settled evs' \<or> (\<exists>k e. r = Inl (FoInternal 500 e) \<and> records_get (ws_store s') k = None
         \<and> (\<forall>j. balanced j evs' \<and> opened j evs' = settled j evs' + (if j = k then 1 else 0)))"
    unfolding settled_since_def by auto
  have "balanced j (evs @ evs')" if "balanced j evs'" for j
    using that assms(2) by (simp add: all_settled_def balanced_append)
  moreover have "opened j (evs @ evs') = settled j (evs @ evs') + n"
    if "opened j evs' = settled j evs' + n" for j n
    using that assms(2) by (simp add: all_settled_def opened_append settled_append)
  ultimately have "all_settled (evs @ evs') \<or> (\<exists>k e. r = Inl (FoInternal 500 e)
      \<and> records_get (ws_store s') k = None \<and> (\<forall>j. balanced j (evs @ evs')
        \<and> opened j (evs @ evs') = settled j (evs @ evs') + (if j = k then 1 else 0)))"
    using c all_settled_append [OF assms(2)] by blast
  with e show "\<exists>evs. accounting s' = log @ evs \<and> (all_settled evs
      \<or> (\<exists>k e. r = Inl (FoInternal 500 e) \<and> records_get (ws_store s') k = None
         \<and> (\<forall>j. balanced j evs \<and> opened j evs = settled j evs + (if j = k then 1 else 0))))"
    by blast
qed

lemma inner_failed:
  assumes "confined X W" "pool X (ws_store s)"
    "execute_with_failover_from fuel E C W U tried s = Some (Returned s1 (tried', Inl f))"
  shows "settled_since (accounting s) (Returned s1 (Inl (unary_failure us tried' f)))"
proof -
  from failover_loop_settles [OF assms] obtain evs where e: "accounting s1 = accounting s @ evs"
    "\<And>k. balanced k evs"
    "(\<forall>k. opened k evs = settled k evs) \<or> (\<exists>k e. f = FoInternal 500 e
       \<and> records_get (ws_store s1) k = None
       \<and> (\<forall>j. opened j evs = settled j evs + (if j = k then 1 else 0)))"
    by auto
  have "unary_failure us tried' (FoInternal 500 e) = FoInternal 500 e" for e
    by (simp add: unary_failure_def split: option.split)
  with e show ?thesis
    unfolding settled_since_def all_settled_def by auto
qed

text \<open>When an account is held, the last round settles it, whatever becomes of its answer.\<close>

lemma unary_last_settles:
  assumes "execute_with_failover_from fuel E (C\<lparr>fc_disposition := HoldUntilCaller\<rparr>) (W i) (U i) (us_tried us) s
      = Some (Returned s1 (tried, Inr y))"
    and "unary_step fuel E C W U decode i (us, s) = Inr w"
  shows "\<exists>x res. w = Some res \<and> (\<forall>s' v. res = Returned s' v \<longrightarrow>
      s' = outcome_state (settle_at E (W i) (re_account_id y) x s1))"
proof (cases "decode (re_value y)")
  case (Inl details)
  with assms show ?thesis by (auto simp: unary_step_def split: outcome.splits)
next
  case (Inr v)
  with assms have "w = Some (and_then (settle_at E (W i) (re_account_id y) SettleSuccess s1)
      (\<lambda>s2 _. Returned s2 (Inr v)))"
    by (simp add: unary_step_def)
  then show ?thesis by (intro exI [of _ SettleSuccess]) (auto simp: and_then_Returned)
qed

lemma unary_stop:
  assumes "\<And>i. confined X (W i)" "pool X (ws_store s)" "finite X" "2 * card X < fuel"
    "unary_step fuel E C W U decode i (us, s) = Inr w"
  shows "\<exists>res. w = Some res \<and> settled_since (accounting s) res"
proof -
  let ?C = "C\<lparr>fc_disposition := HoldUntilCaller\<rparr>"
  from failover_loop_returns [OF assms(3,1,2,4)] obtain res where
    inner: "execute_with_failover_from fuel E ?C (W i) (U i) (us_tried us) s = Some res" by blast
  show ?thesis
  proof (cases res)
    case (Panicked s1)
    with assms(5) inner have "w = Some (Panicked s1)" by (simp add: unary_step_def)
    then show ?thesis by (simp add: settled_since_def)
  next
    case (Returned s1 v)
    obtain tried r where v: "v = (tried, r)" by fastforce
    note inner = inner [unfolded Returned v]
    show ?thesis
    proof (cases r)
      case (Inl f)
      with assms(5) inner have "w = Some (Returned s1 (Inl (unary_failure us tried f)))"
        by (simp add: unary_step_def)
      with inner_failed [OF assms(1,2) inner [unfolded Inl]] show ?thesis by blast
    next
      case (Inr y)
      let ?k = "re_account_id y"
      from inner_then_settled [OF assms(1,2) inner [unfolded Inr]] obtain evs where e:
        "pool X (ws_store s1)" "accounting s1 = accounting s @ evs" "all_settled (evs @ [Settled ?k])"
        by blast
      note unary_last_settles [OF inner [unfolded Inr] assms(5)]
      with settle_at_keeps(2) [OF assms(1) e(1)] e(2,3) show ?thesis
        unfolding settled_since_def by fastforce
    qed
  qed
qed

lemma decoding_loop_returns:
  fixes W :: "nat \<Rightarrow> 'fs world" and decode :: "'v \<Rightarrow> string + 'r"
  assumes "finite X" "\<And>i. confined X (W i)" "pool X (ws_store s)" "2 * card X < fuel" "card X < outer"
  shows "\<exists>res. decoding_loop outer fuel E C W U decode s = Some res
    \<and> settled_since (accounting s) res"
proof -
  let ?us0 = "\<lparr>us_tried = {}, us_decode_failed = {}, us_last_decode_failure = None\<rparr>"
  define P where "P = (\<lambda>x. unary_inv fuel X W x
      \<and> (\<exists>evs. accounting (snd x) = accounting s @ evs \<and> all_settled evs))"
  have init: "unary_inv fuel X W (?us0, s)"
    using assms by (simp add: unary_inv_def)
  have "unary_budget X (?us0, s) < outer" using assms(1,5) by (simp add: unary_budget_def)
  from unary.returns [OF init this] obtain w where
    run: "run_loop outer (unary_step fuel E C W U decode) 0 (?us0, s) = Some w" by blast
  have "\<exists>res. w = Some res \<and> settled_since (accounting s) res"
  proof (rule run_loop_induct [OF run, where P = P])
    show "P (?us0, s)"
      using init by (auto simp: P_def all_settled_def balanced_small opened_def settled_def
          intro: exI [of _ "[]"])
  next
    fix j x x' assume P: "P x" and step: "unary_step fuel E C W U decode j x = Inl x'"
    obtain us s1 us' s2 where x: "x = (us, s1)" "x' = (us', s2)" by fastforce
    from P obtain evs where p: "pool X (ws_store s1)" and
      evs: "accounting s1 = accounting s @ evs" "all_settled evs"
      by (auto simp: P_def unary_inv_def x)
    from unary_again [OF assms(2) p step [unfolded x]] obtain evs' where
      "accounting s2 = accounting s1 @ evs'" "all_settled evs'" by blast
    moreover have "unary_inv fuel X W x'" using P unary.round [OF _ step] by (auto simp: P_def)
    ultimately show "P x'" using evs all_settled_append by (auto simp: P_def x)
  next
    fix j x w' assume P: "P x" and step: "unary_step fuel E C W U decode j x = Inr w'"
    obtain us s1 where x: "x = (us, s1)" by fastforce
    from P obtain evs where p: "pool X (ws_store s1)" and
      evs: "accounting s1 = accounting s @ evs" "all_settled evs"
      by (auto simp: P_def unary_inv_def x)
    from unary_stop [OF assms(2) p assms(1,4) step [unfolded x]] evs
    show "\<exists>res. w' = Some res \<and> settled_since (accounting s) res"
      by (auto intro: settled_since_append)
  qed
  with run show ?thesis
    unfolding decoding_loop_def by auto
qed

text \<open>
  A unary JSON request returns: with a finite pool, \<open>card X + 1\<close> outer rounds, each of
  \<open>2 * card X + 1\<close> inner rounds, are enough. When it returns without a panic, every account it
  selected has been settled exactly once and never before it was selected, whether the answer was
  decoded, was not JSON, or the request failed; the one exception is a record that disappeared while
  its invalid token was to be noted.
\<close>

theorem unary_returns_settled:
  fixes W :: "nat \<Rightarrow> 'fs world" and shape :: "status \<Rightarrow> header_map \<Rightarrow> json \<Rightarrow> 'r"
  assumes "finite X" "\<And>i. confined X (W i)" "pool X (ws_store s)" "2 * card X < fuel" "card X < outer"
  shows "\<exists>res. execute_unary_json_with_failover_shaped outer fuel E C W U shape s = Some res
    \<and> settled_since (accounting s) res"
  unfolding execute_unary_json_with_failover_shaped_def by (rule decoding_loop_returns [OF assms])

theorem unary_returns_settled_witness:
  "\<exists>res. execute_unary_json_with_failover_shaped 2 3 sample_externals sample_config (\<lambda>_. quiet_world)
       (\<lambda>_. \<lparr>up_refresh = up_refresh answering,
              up_execute = (\<lambda>_ _. Inr \<lparr>uu_status = 200, uu_headers = [], uu_body = ''{}''\<rparr>)\<rparr>)
       (\<lambda>st h v. v) sample_world_state = Some res
    \<and> settled_since (accounting sample_world_state) res"
  by (rule unary_returns_settled [OF _ sample_pool]) simp_all

end
