(* ===== verification/Event_Errors.thy ===== *)
theory Event_Errors
  imports Failover
begin

text \<open>
  \<open>src/responses/websocket/errors.rs\<close>: error events of the upstream, on a stream or on a websocket,
  are classified like HTTP failures, and failures of the gateway are rendered as websocket error
  messages. A text message is its string, a close frame its code and reason.
\<close>

section \<open>Types\<close>

record classified_event_failure =
  cef_status :: status
  cef_failure :: failure_class
  cef_retry_after :: "duration option"
  cef_details :: string

datatype websocket_proxy_outcome =
  WsSuccess
| WsReleased
| WsFailed failure_class "duration option" string

datatype websocket_terminal = TerminalSuccess | TerminalFailed classified_event_failure

datatype close_frame = CloseFrame (cf_code: nat) (cf_reason: string)

text \<open>\<open>tungstenite::Message\<close>.\<close>

datatype ws_message =
  WsText string | WsBinary string | WsPing string | WsPong string | WsClose "close_frame option"
| WsFrame

section \<open>Reading an event\<close>

definition jpath :: "json \<Rightarrow> string \<Rightarrow> string \<Rightarrow> json option" where
  "jpath v k1 k2 = Option.bind (jget v k1) (\<lambda>x. jget x k2)"

definition show_bool :: "bool \<Rightarrow> string" where
  "show_bool b = (if b then ''true'' else ''false'')"

fun show_jnum :: "jnum \<Rightarrow> string" where
  "show_jnum (JInt i) = show_int i"
| "show_jnum (JFloat s) = s"

text \<open>The scalar rendering shared by \<open>push_json_display_field\<close> and \<open>json_header_value_from_json\<close>.\<close>

fun json_scalar_text :: "json \<Rightarrow> string option" where
  "json_scalar_text (JString s) = Some s"
| "json_scalar_text (JNumber n) = Some (show_jnum n)"
| "json_scalar_text (JBool b) = Some (show_bool b)"
| "json_scalar_text _ = None"

definition json_header_value_from_json :: "json \<Rightarrow> string option" where
  "json_header_value_from_json v =
     (case json_scalar_text v of Some s \<Rightarrow> if hv_valid s then Some s else None | None \<Rightarrow> None)"

definition parse_retry_after :: "externals \<Rightarrow> time \<Rightarrow> string \<Rightarrow> duration option" where
  "parse_retry_after E now v =
     Option.bind (hv_to_str v) (\<lambda>s. parse_retry_after_str E now (str_trim s))"

definition wrapped_error_status_at :: "json \<Rightarrow> string \<Rightarrow> status option" where
  "wrapped_error_status_at payload key =
     Option.bind (Option.bind (jget payload key) as_u64)
       (\<lambda>n. if n < 65536 then status_from_u16 n else None)"

definition wrapped_error_status :: "json \<Rightarrow> status option" where
  "wrapped_error_status payload =
     opt_or (wrapped_error_status_at payload ''status'') (wrapped_error_status_at payload ''status_code'')"

definition infer_response_error_status :: "string option \<Rightarrow> string option \<Rightarrow> string \<Rightarrow> status" where
  "infer_response_error_status code error_type details =
     (if code = Some ''invalid_api_key'' \<or> error_type = Some ''authentication_error'' then 401
      else if code = Some ''forbidden'' \<or> error_type = Some ''permission_error'' then 403
      else if error_type = Some ''usage_limit_reached'' then 429
      else if error_type = Some ''rate_limit_error'' then 429
      else if code = Some ''rate_limit_exceeded'' then 429
      else if code = Some ''insufficient_quota'' then 403
      else if code = Some ''server_is_overloaded'' \<or> code = Some ''slow_down''
              \<or> code = Some ''internal_server_error'' \<or> error_type = Some ''server_error'' then 503
      else if code = Some ''invalid_prompt'' \<or> code = Some ''context_length_exceeded'' then 400
      else (let lowered = to_ascii_lowercase details
            in if str_contains lowered ''unauthorized'' then 401
               else if str_contains lowered ''unusual activity'' \<or> str_contains lowered ''arkose''
                       \<or> str_contains lowered ''turnstile'' then 403
               else 400))"

definition classified_of :: "status \<Rightarrow> string \<Rightarrow> error_semantics \<Rightarrow> classified_event_failure" where
  "classified_of status details sem =
     \<lparr>cef_status = status, cef_failure = es_failure sem, cef_retry_after = es_retry_after sem,
      cef_details = details\<rparr>"

definition classify_wrapped_error_event ::
  "externals \<Rightarrow> time \<Rightarrow> json \<Rightarrow> string \<Rightarrow> classified_event_failure" where
  "classify_wrapped_error_event E now payload details =
     (let etype = Option.bind (jpath payload ''error'' ''type'') as_str;
          code = Option.bind (jpath payload ''error'' ''code'') as_str;
          message = Option.bind (jpath payload ''error'' ''message'') as_str;
          retry_after =
            Option.bind
              (Option.bind (Option.bind (Option.bind (jget payload ''headers'') as_object)
                 (\<lambda>headers. map_of headers ''retry-after'')) json_header_value_from_json)
              (parse_retry_after E now);
          status = or_else (wrapped_error_status payload)
            (infer_response_error_status code etype (or_else message details))
      in classified_of status details (analyze_error E now
           \<lparr>ac_status = status, ac_headers = None, ac_body = None, ac_code = code,
            ac_message = message, ac_error_type = etype,
            ac_plan_type = Option.bind (jpath payload ''error'' ''plan_type'') as_str,
            ac_resets_at = Option.bind (jpath payload ''error'' ''resets_at'') as_i64,
            ac_resets_in_seconds = Option.bind (jpath payload ''error'' ''resets_in_seconds'') as_i64,
            ac_retry_after = retry_after, ac_unauthorized_failure = AccessTokenRejected,
            ac_allow_message_retry_after = True\<rparr>))"

text \<open>The two classifiers of a bare error object differ only in the text for a missing message.\<close>

definition classify_error_object ::
  "externals \<Rightarrow> time \<Rightarrow> string \<Rightarrow> json \<Rightarrow> classified_event_failure" where
  "classify_error_object E now missing error =
     (let details = or_else (jget_str error ''message'') missing;
          code = jget_str error ''code'';
          etype = jget_str error ''type'';
          status = infer_response_error_status code etype details;
          payload = parse_structured_error_value error
      in classified_of status details (analyze_error E now
           \<lparr>ac_status = status, ac_headers = None, ac_body = None, ac_code = code,
            ac_message = opt_or (p_message payload) (Some details), ac_error_type = etype,
            ac_plan_type = p_plan_type payload, ac_resets_at = p_resets_at payload,
            ac_resets_in_seconds = p_resets_in_seconds payload,
            ac_retry_after = None, ac_unauthorized_failure = AccessTokenRejected,
            ac_allow_message_retry_after = True\<rparr>))"

definition classify_response_failed_event ::
  "externals \<Rightarrow> time \<Rightarrow> json \<Rightarrow> classified_event_failure" where
  "classify_response_failed_event E now error =
     classify_error_object E now ''response.failed event received'' error"

definition classify_openai_error_event ::
  "externals \<Rightarrow> time \<Rightarrow> json \<Rightarrow> classified_event_failure" where
  "classify_openai_error_event E now error =
     (if jget error ''error'' \<noteq> None
      then classify_wrapped_error_event E now error
             (or_else (Option.bind (jpath error ''error'' ''message'') as_str) ''error event received'')
      else classify_error_object E now ''error event received'' error)"

section \<open>Describing a websocket error event\<close>

definition string_segment :: "string \<Rightarrow> json option \<Rightarrow> string list" where
  "string_segment name v =
     (case Option.bind v as_str of Some s \<Rightarrow> [name @ ''='' @ s] | None \<Rightarrow> [])"

definition integer_segment :: "string \<Rightarrow> json option \<Rightarrow> string list" where
  "integer_segment name v =
     (case Option.bind v as_i64 of Some i \<Rightarrow> [name @ ''='' @ show_int i] | None \<Rightarrow> [])"

definition display_segment :: "string \<Rightarrow> json option \<Rightarrow> string list" where
  "display_segment name v =
     (case Option.bind v json_scalar_text of Some s \<Rightarrow> [name @ ''='' @ s] | None \<Rightarrow> [])"

definition describe_wrapped_websocket_error_event :: "json \<Rightarrow> string" where
  "describe_wrapped_websocket_error_event payload =
     (let segments =
        (case wrapped_error_status payload of
           Some st \<Rightarrow> [''status='' @ show_nat st] | None \<Rightarrow> [])
        @ (case jget payload ''error'' of
             Some e \<Rightarrow>
               string_segment ''error.type'' (jget e ''type'')
               @ string_segment ''error.code'' (jget e ''code'')
               @ string_segment ''error.message'' (jget e ''message'')
               @ integer_segment ''error.resets_at'' (jget e ''resets_at'')
               @ integer_segment ''error.resets_in_seconds'' (jget e ''resets_in_seconds'')
           | None \<Rightarrow> [])
        @ display_segment ''headers.retry-after''
            (Option.bind (Option.bind (jget payload ''headers'') as_object)
              (\<lambda>headers. map_of headers ''retry-after''))
      in if segments = [] then ''responses websocket upstream returned error event''
         else ''responses websocket upstream returned error event: '' @ join_with '' '' segments)"

definition classify_wrapped_websocket_error_event ::
  "externals \<Rightarrow> time \<Rightarrow> json \<Rightarrow> classified_event_failure" where
  "classify_wrapped_websocket_error_event E now payload =
     classify_wrapped_error_event E now payload (describe_wrapped_websocket_error_event payload)"

section \<open>Upstream messages\<close>

definition analyze_websocket_terminal_text ::
  "externals \<Rightarrow> time \<Rightarrow> string \<Rightarrow> websocket_terminal option" where
  "analyze_websocket_terminal_text E now text' =
     (case parse_json E text' of
        None \<Rightarrow> None
      | Some json \<Rightarrow>
          (case jget_str json ''type'' of
             None \<Rightarrow> None
           | Some event_type \<Rightarrow>
               if event_type = ''error''
               then Some (TerminalFailed (classify_wrapped_websocket_error_event E now json))
               else if event_type = ''response.completed'' then Some TerminalSuccess
               else if event_type \<noteq> ''response.failed'' \<and> event_type \<noteq> ''response.incomplete'' then None
               else (case jget json ''response'' of
                  None \<Rightarrow> None
                | Some response \<Rightarrow>
                    Some (TerminalFailed
                      (if event_type = ''response.failed'' then
                         (let c = classify_response_failed_event E now
                                    (or_else (jget response ''error'') JNull)
                          in c\<lparr>cef_details :=
                                 ''responses websocket upstream returned response.failed: ''
                                   @ cef_details c\<rparr>)
                       else
                         (let reason = or_else (Option.bind
                                (jpath response ''incomplete_details'' ''reason'') as_str) ''unknown''
                          in \<lparr>cef_status = 400, cef_failure = RequestRejected, cef_retry_after = None,
                              cef_details =
                                ''responses websocket upstream returned response.incomplete: reason=''
                                  @ reason\<rparr>))))))"

definition classify_websocket_close_reason :: "string \<Rightarrow> websocket_proxy_outcome option" where
  "classify_websocket_close_reason reason =
     (let lowered = to_ascii_lowercase reason;
          failed = (\<lambda>f. Some (WsFailed f None
            (''responses websocket upstream closed with error: reason='' @ reason)))
      in if str_contains lowered ''unusual activity'' \<or> str_contains lowered ''arkose''
            \<or> str_contains lowered ''turnstile'' then failed RiskControlled
         else if str_contains lowered ''rate limit'' then failed RateLimited
         else if str_contains lowered ''quota'' \<or> str_contains lowered ''usage cap''
         then failed QuotaExhausted
         else None)"

definition is_normal_websocket_close_code :: "nat \<Rightarrow> bool" where
  "is_normal_websocket_close_code code = (code = 1000 \<or> code = 1001)"

definition classify_websocket_close_frame :: "close_frame \<Rightarrow> websocket_proxy_outcome" where
  "classify_websocket_close_frame frame =
     (case classify_websocket_close_reason (cf_reason frame) of
        Some outcome \<Rightarrow> outcome
      | None \<Rightarrow>
          if is_normal_websocket_close_code (cf_code frame) then WsReleased
          else WsFailed TemporaryFailure None
            (''responses websocket upstream closed with error: code='' @ show_nat (cf_code frame)
              @ '' reason='' @ cf_reason frame))"

definition classify_websocket_control_text ::
  "externals \<Rightarrow> time \<Rightarrow> string \<Rightarrow> websocket_proxy_outcome option" where
  "classify_websocket_control_text E now text' =
     map_option
       (\<lambda>t. case t of
          TerminalSuccess \<Rightarrow> WsSuccess
        | TerminalFailed c \<Rightarrow> WsFailed (cef_failure c) (cef_retry_after c) (cef_details c))
       (analyze_websocket_terminal_text E now text')"

fun classify_websocket_upstream_control_message ::
  "externals \<Rightarrow> time \<Rightarrow> ws_message \<Rightarrow> websocket_proxy_outcome option" where
  "classify_websocket_upstream_control_message E now (WsText t) = classify_websocket_control_text E now t"
| "classify_websocket_upstream_control_message E now (WsClose (Some frame)) =
     Some (classify_websocket_close_frame frame)"
| "classify_websocket_upstream_control_message E now (WsClose None) = Some WsReleased"
| "classify_websocket_upstream_control_message E now _ = None"

fun classify_websocket_upstream_terminal_failure ::
  "externals \<Rightarrow> time \<Rightarrow> ws_message \<Rightarrow> classified_event_failure option" where
  "classify_websocket_upstream_terminal_failure E now (WsText t) =
     (case analyze_websocket_terminal_text E now t of
        Some (TerminalFailed c) \<Rightarrow> Some c
      | _ \<Rightarrow> None)"
| "classify_websocket_upstream_terminal_failure E now _ = None"

section \<open>Messages to the caller\<close>

definition websocket_error_json :: "externals \<Rightarrow> status \<Rightarrow> synthetic_payload \<Rightarrow> json" where
  "websocket_error_json E status p =
     JObject
       [(''type'', JString ''error''), (''status'', JNumber (JInt (int status))),
        (''error'', JObject
          ([(''code'', JString (or_else (p_code p) (fallback_error_code_for_http E status None))),
            (''message'', JString (or_else (p_message p)
               (''Upstream request failed with status '' @ status_display E status @ ''.'')))]
           @ opt_field ''type'' JString (p_error_type p)
           @ opt_field ''plan_type'' JString (p_plan_type p)
           @ opt_field ''resets_at'' (JNumber \<circ> JInt) (p_resets_at p)
           @ opt_field ''resets_in_seconds'' (JNumber \<circ> JInt) (p_resets_in_seconds p)))]"

definition websocket_error_message_from_payload ::
  "externals \<Rightarrow> status \<Rightarrow> synthetic_payload \<Rightarrow> ws_message" where
  "websocket_error_message_from_payload E status p =
     WsText (print_json E (websocket_error_json E status p))"

definition websocket_gateway_unavailable_message :: "externals \<Rightarrow> ws_message" where
  "websocket_gateway_unavailable_message E =
     websocket_error_message_from_payload E 503 gateway_unavailable_payload"

definition websocket_error_message_for_pool_block ::
  "externals \<Rightarrow> pool_block_summary \<Rightarrow> ws_message" where
  "websocket_error_message_for_pool_block E summary =
     WsText (print_json E (JObject
       [(''type'', JString ''error''), (''status'', JNumber (JInt 503)),
        (''error'', JObject
          [(''code'', JString GATEWAY_UNAVAILABLE_CODE),
           (''message'', JString GATEWAY_UNAVAILABLE_MESSAGE)])]))"

fun transport_error_status :: "transport_error \<Rightarrow> status" where
  "transport_error_status (Http status _ _ _) = status"
| "transport_error_status Timeout = 408"
| "transport_error_status (Network _) = 502"
| "transport_error_status (Build _) = 502"
| "transport_error_status RetryLimit = 502"

definition websocket_error_message_from_transport_error ::
  "externals \<Rightarrow> time \<Rightarrow> transport_error \<Rightarrow> ws_message" where
  "websocket_error_message_from_transport_error E now error =
     websocket_error_message_from_payload E (transport_error_status error)
       (synthetic_response_failed_payload_from_transport E now error)"

fun failover_failure_kind :: "externals \<Rightarrow> failover_failure \<Rightarrow> downstream_kind" where
  "failover_failure_kind E (FoRefresh _) = GatewayUnavailable"
| "failover_failure_kind E (FoPoolBlocked _) = GatewayUnavailable"
| "failover_failure_kind E (FoTransport (Http status _ _ body)) =
     downstream_failure_kind_for_http E status body"
| "failover_failure_kind E (FoTransport error) =
     downstream_failure_kind (classify_request_error E error)"
| "failover_failure_kind E (FoCallerJson _ _) = CallerError"
| "failover_failure_kind E (FoInternal _ _) = CallerError"

definition code_message_payload :: "string \<Rightarrow> string \<Rightarrow> synthetic_payload" where
  "code_message_payload code message =
     default_payload\<lparr>p_code := Some code, p_message := Some message\<rparr>"

definition websocket_error_message_for_failover_failure ::
  "externals \<Rightarrow> time \<Rightarrow> failover_failure \<Rightarrow> ws_message" where
  "websocket_error_message_for_failover_failure E now failure =
     (if failover_failure_kind E failure = GatewayUnavailable
      then websocket_gateway_unavailable_message E
      else case failure of
        FoPoolBlocked summary \<Rightarrow> websocket_error_message_for_pool_block E summary
      | FoRefresh err \<Rightarrow>
          websocket_error_message_from_payload E (rf_status err)
            (synthetic_response_failed_payload_from_http_failure E (rf_status err)
              (Some (rf_body err)) (rf_retry_after err))
      | FoTransport error \<Rightarrow> websocket_error_message_from_transport_error E now error
      | FoCallerJson status message \<Rightarrow>
          websocket_error_message_from_payload E status
            (code_message_payload (fallback_error_code_for_http E status None) message)
      | FoInternal status detail \<Rightarrow>
          websocket_error_message_from_payload E status
            (code_message_payload (fallback_error_code_for_http E status None)
              (or_else (canonical_reason E status) ''Internal Server Error'')))"

section \<open>Facts\<close>

lemma infer_status_range:
  "infer_response_error_status code ty d \<in> {400, 401, 403, 429, 503}"
  unfolding infer_response_error_status_def Let_def by (simp split: if_split)

lemma cef_simps [simp]:
  "cef_status (classified_of st d sem) = st" "cef_failure (classified_of st d sem) = es_failure sem"
  "cef_retry_after (classified_of st d sem) = es_retry_after sem" "cef_details (classified_of st d sem) = d"
  by (simp_all add: classified_of_def)

lemma classify_error_event:
  "classify_error st code ty tx AccessTokenRejected \<noteq> AuthInvalid
   \<and> classify_error st code ty tx AccessTokenRejected \<noteq> InternalFailure"
  using classify_error_range [of st code ty tx AccessTokenRejected]
  by (cases "st = 401") (auto simp: classify_error_401)

lemma analyze_event_range:
  "ac_unauthorized_failure ctx = AccessTokenRejected \<Longrightarrow>
     es_failure (analyze_error E now ctx) \<noteq> AuthInvalid \<and> es_failure (analyze_error E now ctx) \<noteq> InternalFailure"
  unfolding es_failure_analyze by (simp add: classify_error_event)

lemma wrapped_status_range:
  "wrapped_error_status v = Some st \<Longrightarrow> 100 \<le> st \<and> st < 1000"
  unfolding wrapped_error_status_def
  by (cases "wrapped_error_status_at v ''status''")
    (auto simp: wrapped_error_status_at_def status_from_u16_def bind_eq_Some_conv split: if_splits)

text \<open>
  C28: an error event on a stream or a websocket cannot do what only the refresh endpoint may: whatever
  the upstream puts into the event, its class is never \<open>AuthInvalid\<close> (nor an internal failure), and
  the status the gateway derives for it, which may come from the event itself, is a valid HTTP status.
\<close>

theorem event_failure_range:
  "let c1 = classify_openai_error_event E now v; c2 = classify_response_failed_event E now v;
       c3 = classify_wrapped_websocket_error_event E now v
   in cef_failure c1 \<noteq> AuthInvalid \<and> cef_failure c2 \<noteq> AuthInvalid \<and> cef_failure c3 \<noteq> AuthInvalid
    \<and> cef_failure c1 \<noteq> InternalFailure \<and> cef_failure c2 \<noteq> InternalFailure
    \<and> cef_failure c3 \<noteq> InternalFailure
    \<and> {cef_status c1, cef_status c2, cef_status c3} \<subseteq> {100 ..< 1000}"
proof -
  have st: "100 \<le> infer_response_error_status c ty d \<and> infer_response_error_status c ty d < 1000" for c ty d
    using infer_status_range [of c ty d] by auto
  have o: "cef_failure (classify_error_object E now m v) \<noteq> AuthInvalid
      \<and> cef_failure (classify_error_object E now m v) \<noteq> InternalFailure
      \<and> cef_status (classify_error_object E now m v) \<in> {100 ..< 1000}" for m
    unfolding classify_error_object_def Let_def cef_simps using st by (simp add: analyze_event_range)
  have w: "cef_failure (classify_wrapped_error_event E now v d) \<noteq> AuthInvalid
      \<and> cef_failure (classify_wrapped_error_event E now v d) \<noteq> InternalFailure
      \<and> cef_status (classify_wrapped_error_event E now v d) \<in> {100 ..< 1000}" for d
    unfolding classify_wrapped_error_event_def Let_def cef_simps
    using st wrapped_status_range [of v] by (cases "wrapped_error_status v")
      (auto simp: analyze_event_range or_else_def)
  show ?thesis
    unfolding Let_def classify_openai_error_event_def classify_response_failed_event_def
      classify_wrapped_websocket_error_event_def
    using o w by simp
qed

lemma websocket_error_json_object:
  "websocket_error_json E status p =
     JObject [(''type'', JString ''error''), (''status'', JNumber (JInt (int status))),
       (''error'', JObject (synthetic_error_object
          (p\<lparr>p_code := Some (or_else (p_code p) (fallback_error_code_for_http E status None)),
             p_message := Some (or_else (p_message p)
               (''Upstream request failed with status '' @ status_display E status @ ''.''))\<rparr>)))]"
  by (simp add: websocket_error_json_def synthetic_error_object_def or_else_def [of "Some _"])

lemma opt_or_None: "opt_or x None = x"
  by (cases x) simp_all

lemma jpath_error_object:
  "jpath (JObject [(''type'', a), (''status'', b), (''error'', JObject m)]) ''error'' k = map_of m k"
  by (simp add: jpath_def jget_def)

text \<open>What the second gateway makes of the object of an error message.\<close>

lemma wrapped_object_classified:
  assumes "v = JObject [(''type'', JString ''error''), (''status'', JNumber (JInt (int status))),
       (''error'', JObject (synthetic_error_object q))]"
    and "100 \<le> status" "status < 1000" "p_code q = Some code" "p_message q = Some message"
  shows "cef_status (classify_wrapped_error_event E now v d) = status"
    "cef_failure (classify_wrapped_error_event E now v d)
      = classify_error status (Some code) (p_error_type q) (Some message) AccessTokenRejected"
proof -
  have st: "wrapped_error_status v = Some status"
    using assms(2,3) by (simp add: assms(1) wrapped_error_status_def wrapped_error_status_at_def jget_def
        status_from_u16_def)
  have path: "jpath v ''error'' k = map_of (synthetic_error_object q) k" for k
    by (simp add: assms(1) jpath_error_object)
  have "Option.bind (jpath v ''error'' ''code'') as_str = Some code"
    "Option.bind (jpath v ''error'' ''type'') as_str = p_error_type q"
    "Option.bind (jpath v ''error'' ''message'') as_str = Some message"
    unfolding path synthetic_error_object_lookup
    by (simp_all add: bind_map_comp bind_as_str assms(4,5) or_else_def)
  then show "cef_failure (classify_wrapped_error_event E now v d)
      = classify_error status (Some code) (p_error_type q) (Some message) AccessTokenRejected"
    unfolding classify_wrapped_error_event_def Let_def cef_simps es_failure_analyze st
    by (simp add: opt_or_None parse_structured_error_body_def default_payload_def)
      (simp add: or_else_def)
  show "cef_status (classify_wrapped_error_event E now v d) = status"
    unfolding classify_wrapped_error_event_def Let_def cef_simps st by (simp add: or_else_def)
qed

text \<open>
  C29: gateways compose. The error message one gateway sends to its websocket caller is read by a second
  gateway in front of it as a failed request with the same status, classified by the code, type and
  message the first one put in; in particular a first gateway that has no account left looks to the
  second like a temporary failure of that upstream, so that it tries its next account. The hypotheses
  are serde\_json's round trip for the message and a valid status.
\<close>

theorem websocket_error_roundtrip:
  assumes "parse_json E (print_json E (websocket_error_json E status p)) = Some (websocket_error_json E status p)"
    and "100 \<le> status" "status < 1000"
  shows "\<exists>c. classify_websocket_upstream_terminal_failure E now
            (websocket_error_message_from_payload E status p) = Some c
    \<and> cef_status c = status
    \<and> cef_failure c = classify_error status
         (Some (or_else (p_code p) (fallback_error_code_for_http E status None))) (p_error_type p)
         (Some (or_else (p_message p)
            (''Upstream request failed with status '' @ status_display E status @ ''.'')))
         AccessTokenRejected
    \<and> (p_code p = Some GATEWAY_UNAVAILABLE_CODE \<and> p_error_type p = None \<and> status \<noteq> 401
         \<longrightarrow> cef_failure c = TemporaryFailure)"
proof -
  define q where "q = p\<lparr>p_code := Some (or_else (p_code p) (fallback_error_code_for_http E status None)),
             p_message := Some (or_else (p_message p)
               (''Upstream request failed with status '' @ status_display E status @ ''.''))\<rparr>"
  define v where "v = websocket_error_json E status p"
  have v: "v = JObject [(''type'', JString ''error''), (''status'', JNumber (JInt (int status))),
       (''error'', JObject (synthetic_error_object q))]"
    by (simp add: v_def q_def websocket_error_json_object)
  have ty: "jget_str v ''type'' = Some ''error''" by (simp add: v jget_str_def jget_def)
  let ?c = "classify_wrapped_error_event E now v (describe_wrapped_websocket_error_event v)"
  have "p_code q = Some (or_else (p_code p) (fallback_error_code_for_http E status None))"
    "p_message q = Some (or_else (p_message p)
       (''Upstream request failed with status '' @ status_display E status @ ''.''))"
    "p_error_type q = p_error_type p"
    by (simp_all add: q_def)
  note c = wrapped_object_classified [OF v assms(2,3) this(1,2), unfolded this(3), of E now
      "describe_wrapped_websocket_error_event v"]
  have "cef_failure ?c = TemporaryFailure"
    if "p_code p = Some GATEWAY_UNAVAILABLE_CODE" "p_error_type p = None" "status \<noteq> 401"
    unfolding c(2) that
    using that(3) by (simp add: classify_error_def classify_structured_error_def or_else_def
        GATEWAY_UNAVAILABLE_CODE_def)
  moreover have "analyze_websocket_terminal_text E now (print_json E v) = Some (TerminalFailed ?c)"
    unfolding analyze_websocket_terminal_text_def assms(1) [folded v_def] option.case ty
    by (simp add: classify_wrapped_websocket_error_event_def)
  ultimately show ?thesis
    by (simp add: websocket_error_message_from_payload_def c flip: v_def)
qed

theorem websocket_error_roundtrip_witness:
  "\<exists>c. classify_websocket_upstream_terminal_failure
         (sample_externals\<lparr>parse_json := \<lambda>_. Some (websocket_error_json sample_externals 503 gateway_unavailable_payload)\<rparr>)
         0 (websocket_error_message_from_payload
              (sample_externals\<lparr>parse_json := \<lambda>_. Some (websocket_error_json sample_externals 503 gateway_unavailable_payload)\<rparr>)
              503 gateway_unavailable_payload) = Some c
     \<and> cef_status c = 503 \<and> cef_failure c = TemporaryFailure"
proof -
  let ?E = "sample_externals\<lparr>parse_json := \<lambda>_. Some (websocket_error_json sample_externals 503 gateway_unavailable_payload)\<rparr>"
  have "websocket_error_json ?E 503 gateway_unavailable_payload
      = websocket_error_json sample_externals 503 gateway_unavailable_payload"
    unfolding websocket_error_json_object gateway_unavailable_payload_def
    by (simp add: or_else_def synthetic_error_object_def)
  then show ?thesis
    using websocket_error_roundtrip [of ?E 503 gateway_unavailable_payload 0]
    by (auto simp: gateway_unavailable_payload_def default_payload_def)
qed

end
