(* ===== verification/Sse_Stream.thy ===== *)
theory Sse_Stream
  imports Event_Errors
begin

text \<open>
  \<open>src/responses/stream.rs\<close>: the upstream's byte stream is passed on to the caller while its
  server-sent events are read, so that the gateway knows how the response ended; an event that tells
  of a fault of the upstream account is replaced. Chunks are byte strings; the queue of output chunks
  is the list an operation returns.
\<close>

section \<open>Text\<close>

text \<open>
  \<open>String::from_utf8_lossy\<close>: the length of the valid sequence at the head (\<open>Inr\<close>), or of the invalid
  part to be replaced by U+FFFD (\<open>Inl\<close>). A missing byte reads as 0.
\<close>

definition byte_at :: "string \<Rightarrow> nat \<Rightarrow> nat" where
  "byte_at s i = (if i < length s then of_char (s ! i) else 0)"

definition utf8_step :: "string \<Rightarrow> nat + nat" where
  "utf8_step s =
     (let b0 = byte_at s 0; b1 = byte_at s 1; b2 = byte_at s 2; b3 = byte_at s 3;
          cont = (\<lambda>b. 128 \<le> b \<and> b < 192)
      in if b0 < 128 then Inr 1
         else if 194 \<le> b0 \<and> b0 < 224 then (if cont b1 then Inr 2 else Inl 1)
         else if 224 \<le> b0 \<and> b0 < 240 then
           (if (if b0 = 224 then 160 \<le> b1 \<and> b1 < 192
                else if b0 = 237 then 128 \<le> b1 \<and> b1 < 160 else cont b1)
            then (if cont b2 then Inr 3 else Inl 2) else Inl 1)
         else if 240 \<le> b0 \<and> b0 < 245 then
           (if (if b0 = 240 then 144 \<le> b1 \<and> b1 < 192
                else if b0 = 244 then 128 \<le> b1 \<and> b1 < 144 else cont b1)
            then (if cont b2 then (if cont b3 then Inr 4 else Inl 3) else Inl 2) else Inl 1)
         else Inl 1)"

definition replacement_char :: string where
  "replacement_char = map char_of [239, 191, 189 :: nat]"

fun utf8_lossy_from :: "nat \<Rightarrow> string \<Rightarrow> string" where
  "utf8_lossy_from 0 s = []"
| "utf8_lossy_from (Suc fuel) s =
     (if s = [] then []
      else case utf8_step s of
        Inr n \<Rightarrow> take n s @ utf8_lossy_from fuel (drop n s)
      | Inl n \<Rightarrow> replacement_char @ utf8_lossy_from fuel (drop n s))"

definition utf8_lossy :: "string \<Rightarrow> string" where
  "utf8_lossy s = utf8_lossy_from (length s) s"

text \<open>\<open>str::lines\<close>, and \<open>trim_end_matches\<close> of a carriage return.\<close>

abbreviation NL :: char where "NL \<equiv> CHR 0x0A"
abbreviation CR :: char where "CR \<equiv> CHR 0x0D"

fun split_lines :: "string \<Rightarrow> string list" where
  "split_lines [] = []"
| "split_lines (c # s) =
     (if c = NL then [] # split_lines s
      else case split_lines s of [] \<Rightarrow> [[c]] | l # ls \<Rightarrow> (c # l) # ls)"

definition trim_end_cr :: "string \<Rightarrow> string" where
  "trim_end_cr s = rev (dropWhile (\<lambda>c. c = CR) (rev s))"

section \<open>State\<close>

datatype response_shape = Codex | OpenAi

datatype responses_terminal_state =
  Completed
| Failed failure_class "duration option" string

record responses_sse_state =
  sse_buffer :: string
  sse_line_start :: bool
  sse_mode :: bool
  sse_last_sequence_number :: "int option"
  sse_last_response_id :: "string option"
  sse_terminal_state :: "responses_terminal_state option"

definition sse_default :: responses_sse_state where
  "sse_default =
     \<lparr>sse_buffer = [], sse_line_start = True, sse_mode = False, sse_last_sequence_number = None,
      sse_last_response_id = None, sse_terminal_state = None\<rparr>"

definition has_terminal_event :: "responses_sse_state \<Rightarrow> bool" where
  "has_terminal_event st = (sse_terminal_state st \<noteq> None)"

definition saw_terminal_failure_event :: "responses_sse_state \<Rightarrow> bool" where
  "saw_terminal_failure_event st =
     (case sse_terminal_state st of Some (Failed _ _ _) \<Rightarrow> True | _ \<Rightarrow> False)"

definition terminal_action :: "responses_sse_state \<Rightarrow> account_settlement option" where
  "terminal_action st =
     (case sse_terminal_state st of
        Some Completed \<Rightarrow> Some SettleSuccess
      | Some (Failed f ra d) \<Rightarrow> Some (SettleFailure f ra d)
      | None \<Rightarrow> None)"

section \<open>Rendering\<close>

definition gateway_unavailable_payload_to_json :: json_object where
  "gateway_unavailable_payload_to_json =
     [(''code'', JString (or_else (p_code gateway_unavailable_payload) ''server_is_overloaded'')),
      (''message'', JString (or_else (p_message gateway_unavailable_payload)
         ''No account available right now. Try again later.''))]"

definition render_sse_event_bytes :: "externals \<Rightarrow> string \<Rightarrow> json \<Rightarrow> string" where
  "render_sse_event_bytes E event_name json =
     ''event: '' @ event_name @ nl @ ''data: '' @ print_json E json @ nl @ nl"

text \<open>Replaces the value at the JSON pointer \<open>/response/error\<close> when there is one.\<close>

definition replace_response_error :: "json \<Rightarrow> json \<Rightarrow> json" where
  "replace_response_error new json =
     (case json of
        JObject m \<Rightarrow>
          (case map_of m ''response'' of
             Some (JObject r) \<Rightarrow>
               if map_of r ''error'' \<noteq> None
               then JObject (obj_insert ''response'' (JObject (obj_insert ''error'' new r)) m)
               else json
           | _ \<Rightarrow> json)
      | _ \<Rightarrow> json)"

definition synthetic_error_event_with_payload ::
  "externals \<Rightarrow> time \<Rightarrow> response_shape \<Rightarrow> synthetic_payload \<Rightarrow> responses_sse_state \<Rightarrow> string" where
  "synthetic_error_event_with_payload E now shape p st =
     (case shape of
        Codex \<Rightarrow> render_synthetic_response_failed_event E now (sse_last_response_id st)
                  (sse_last_sequence_number st) p
      | OpenAi \<Rightarrow> render_openai_stream_error_event E (sse_last_sequence_number st) p)"

definition synthetic_transport_error_event ::
  "externals \<Rightarrow> time \<Rightarrow> response_shape \<Rightarrow> transport_error \<Rightarrow> failure_class \<Rightarrow> responses_sse_state
     \<Rightarrow> string" where
  "synthetic_transport_error_event E now shape error failure st =
     synthetic_error_event_with_payload E now shape
       (case error of
          Http _ _ _ _ \<Rightarrow>
            if downstream_failure_kind failure = GatewayUnavailable then gateway_unavailable_payload
            else synthetic_response_failed_payload_from_transport E now error
        | _ \<Rightarrow> synthetic_response_failed_payload_from_transport E now error) st"

definition rewrite_gateway_unavailable_event ::
  "externals \<Rightarrow> time \<Rightarrow> response_shape \<Rightarrow> string \<Rightarrow> json \<Rightarrow> responses_sse_state \<Rightarrow> string" where
  "rewrite_gateway_unavailable_event E now shape kind json st =
     (let seq = or_else (jget_i64 json ''sequence_number'')
            (max (i64_saturate (or_else (sse_last_sequence_number st) (- 1) + 1)) 0)
      in case shape of
           Codex \<Rightarrow>
             if kind = ''response.failed''
             then render_sse_event_bytes E kind
                    (replace_response_error (JObject gateway_unavailable_payload_to_json) json)
             else render_synthetic_response_failed_event_with_metadata E now
                    (sse_last_response_id st) seq gateway_unavailable_payload
         | OpenAi \<Rightarrow> render_openai_stream_error_event_with_sequence E seq gateway_unavailable_payload)"

section \<open>One event\<close>

text \<open>The last \<open>event:\<close> line and the \<open>data:\<close> lines of an event.\<close>

definition event_lines :: "string \<Rightarrow> string list" where
  "event_lines bytes = map trim_end_cr (split_lines (utf8_lossy bytes))"

definition event_name_of :: "string list \<Rightarrow> string option" where
  "event_name_of ls =
     fold (\<lambda>l name. case strip_prefix ''event:'' l of Some n \<Rightarrow> Some (trim_start n) | None \<Rightarrow> name) ls None"

definition event_data_of :: "string list \<Rightarrow> string list" where
  "event_data_of ls = List.map_filter (\<lambda>l. map_option trim_start (strip_prefix ''data:'' l)) ls"

definition note_json :: "json \<Rightarrow> responses_sse_state \<Rightarrow> responses_sse_state" where
  "note_json json st =
     (let st1 = (case jget_i64 json ''sequence_number'' of
            Some n \<Rightarrow> st\<lparr>sse_last_sequence_number := Some n\<rparr> | None \<Rightarrow> st)
      in case Option.bind (jpath json ''response'' ''id'') as_str of
           Some rid \<Rightarrow> st1\<lparr>sse_last_response_id := Some rid\<rparr>
         | None \<Rightarrow> st1)"

definition note_failure :: "classified_event_failure \<Rightarrow> responses_sse_state \<Rightarrow> responses_sse_state" where
  "note_failure c st =
     st\<lparr>sse_terminal_state := Some (Failed (cef_failure c) (cef_retry_after c) (cef_details c))\<rparr>"

definition apply_failed_event ::
  "externals \<Rightarrow> time \<Rightarrow> response_shape \<Rightarrow> string \<Rightarrow> json \<Rightarrow> string \<Rightarrow> classified_event_failure
     \<Rightarrow> responses_sse_state \<Rightarrow> responses_sse_state \<times> string" where
  "apply_failed_event E now shape kind json bytes c st =
     (let st1 = note_failure c st
      in (st1, if is_gateway_unavailable_status_failure (cef_status c) (cef_failure c)
               then rewrite_gateway_unavailable_event E now shape kind json st1 else bytes))"

definition consume_json_event ::
  "externals \<Rightarrow> time \<Rightarrow> response_shape \<Rightarrow> string option \<Rightarrow> json \<Rightarrow> string \<Rightarrow> responses_sse_state
     \<Rightarrow> responses_sse_state \<times> string" where
  "consume_json_event E now shape event_name json bytes st0 =
     (let st = note_json json st0;
          kind = or_else (opt_or event_name (jget_str json ''type'')) []
      in if kind = ''response.completed'' then (st\<lparr>sse_terminal_state := Some Completed\<rparr>, bytes)
         else if kind = ''response.failed'' then
           apply_failed_event E now shape kind json bytes
             (classify_response_failed_event E now (or_else (jpath json ''response'' ''error'') JNull)) st
         else if kind = ''error'' then
           apply_failed_event E now shape kind json bytes (classify_openai_error_event E now json) st
         else if kind = ''response.incomplete'' then
           (let reason = or_else (Option.bind
                  (Option.bind (jpath json ''response'' ''incomplete_details'') (\<lambda>d. jget d ''reason''))
                  as_str) ''unknown''
            in (st\<lparr>sse_terminal_state := Some (Failed RequestRejected None
                     (''Incomplete response returned, reason: '' @ reason))\<rparr>, bytes))
         else (st, bytes))"

definition consume_event ::
  "externals \<Rightarrow> time \<Rightarrow> response_shape \<Rightarrow> responses_sse_state \<Rightarrow> string
     \<Rightarrow> responses_sse_state \<times> string" where
  "consume_event E now shape st bytes =
     (let ls = event_lines bytes; data = event_data_of ls
      in if data = [] then (st, bytes)
         else case parse_json E (join_with nl data) of
           None \<Rightarrow> (st, bytes)
         | Some json \<Rightarrow> consume_json_event E now shape (event_name_of ls) json bytes st)"

section \<open>Framing\<close>

datatype sse_line_start_match = LsFull | LsPartial | LsNone

definition SSE_LINE_PREFIXES :: "string list" where
  "SSE_LINE_PREFIXES = [''event:'', ''data:'', ''id:'', ''retry:'', '':'']"

definition classify_sse_line_start :: "string \<Rightarrow> sse_line_start_match" where
  "classify_sse_line_start bytes =
     (if list_ex (\<lambda>p. starts_with bytes p) SSE_LINE_PREFIXES then LsFull
      else if list_ex (\<lambda>p. starts_with p bytes) SSE_LINE_PREFIXES then LsPartial
      else LsNone)"

definition line_start_after_bytes :: "bool \<Rightarrow> string \<Rightarrow> bool" where
  "line_start_after_bytes line_start bytes = foldl (\<lambda>_ b. b = NL) line_start bytes"

fun find_sse_event_end :: "string \<Rightarrow> nat option" where
  "find_sse_event_end [] = None"
| "find_sse_event_end (b # bs) =
     (if b = NL \<and> starts_with bs [NL] then Some 2
      else if b = CR \<and> starts_with bs [NL, CR, NL] then Some 4
      else map_option Suc (find_sse_event_end bs))"

text \<open>
  \<open>while let Some(event_end)\<close>: every round removes at least one byte, so the length of the buffer is
  fuel enough. A terminal event discards the rest.
\<close>

fun drain_events ::
  "(string \<Rightarrow> nat option) \<Rightarrow> ('m \<Rightarrow> string \<Rightarrow> 'm \<times> string) \<Rightarrow> ('m \<Rightarrow> bool) \<Rightarrow> nat \<Rightarrow> 'm \<Rightarrow> string
     \<Rightarrow> 'm \<times> string \<times> string list" where
  "drain_events find_end consume halted 0 m buf = (m, buf, [])"
| "drain_events find_end consume halted (Suc fuel) m buf =
     (case find_end buf of
        None \<Rightarrow> (m, buf, [])
      | Some n \<Rightarrow>
          (let (m1, out) = consume m (take n buf)
           in if halted m1 then (m1, [], [out])
              else (let (m2, rest, outs) = drain_events find_end consume halted fuel m1 (drop n buf)
                    in (m2, rest, out # outs))))"

definition consume_buffered_events ::
  "externals \<Rightarrow> time \<Rightarrow> response_shape \<Rightarrow> responses_sse_state \<Rightarrow> responses_sse_state \<times> string list" where
  "consume_buffered_events E now shape st =
     (let (st1, rest, outs) =
        drain_events find_sse_event_end (consume_event E now shape) has_terminal_event
          (length (sse_buffer st)) st (sse_buffer st)
      in (st1\<lparr>sse_buffer := rest\<rparr>, outs))"

text \<open>The loop over a pending beginning of a line; the value is the number of bytes consumed.\<close>

fun resolve_pending_line_start ::
  "string \<Rightarrow> responses_sse_state \<Rightarrow> responses_sse_state \<times> string list \<times> nat" where
  "resolve_pending_line_start [] st = (st, [], 0)"
| "resolve_pending_line_start (b # bs) st =
     (let st1 = st\<lparr>sse_buffer := sse_buffer st @ [b]\<rparr>
      in case classify_sse_line_start (sse_buffer st1) of
           LsFull \<Rightarrow> (st1\<lparr>sse_mode := True\<rparr>, [], 1)
         | LsPartial \<Rightarrow>
             (let (st2, outs, n) = resolve_pending_line_start bs st1 in (st2, outs, Suc n))
         | LsNone \<Rightarrow>
             (st1\<lparr>sse_buffer := [],
                  sse_line_start := line_start_after_bytes (sse_line_start st1) (sse_buffer st1)\<rparr>,
              [sse_buffer st1], 1))"

text \<open>
  The scan of a chunk outside SSE mode: the bytes passed over, and why it stopped. At a line start the
  rest of the chunk is compared with the prefixes of SSE lines.
\<close>

datatype scan_stop = ScanFull string | ScanPartial string | ScanEnd bool

fun scan_chunk :: "bool \<Rightarrow> string \<Rightarrow> string \<times> scan_stop" where
  "scan_chunk line_start [] = ([], ScanEnd line_start)"
| "scan_chunk line_start (b # bs) =
     (let on = (let (p, r) = scan_chunk (b = NL) bs in (b # p, r))
      in if line_start then
           (case classify_sse_line_start (b # bs) of
              LsFull \<Rightarrow> ([], ScanFull (b # bs))
            | LsPartial \<Rightarrow> ([], ScanPartial (b # bs))
            | LsNone \<Rightarrow> on)
         else on)"

definition pass_through :: "string \<Rightarrow> responses_sse_state \<Rightarrow> responses_sse_state \<times> string list" where
  "pass_through bytes st =
     (if bytes = [] then (st, [])
      else (st\<lparr>sse_line_start := line_start_after_bytes (sse_line_start st) bytes\<rparr>, [bytes]))"

definition observe_plain_bytes ::
  "externals \<Rightarrow> time \<Rightarrow> response_shape \<Rightarrow> string \<Rightarrow> responses_sse_state
     \<Rightarrow> responses_sse_state \<times> string list" where
  "observe_plain_bytes E now shape bytes st =
     (let (passed, stop) = scan_chunk (sse_line_start st) bytes; (st1, outs) = pass_through passed st
      in case stop of
           ScanFull rest \<Rightarrow>
             (let (st2, outs') = consume_buffered_events E now shape
                    (st1\<lparr>sse_mode := True, sse_buffer := sse_buffer st1 @ rest\<rparr>)
              in (st2, outs @ outs'))
         | ScanPartial rest \<Rightarrow> (st1\<lparr>sse_buffer := sse_buffer st1 @ rest\<rparr>, outs)
         | ScanEnd _ \<Rightarrow> (st1, outs))"

definition observe_sse_bytes ::
  "externals \<Rightarrow> time \<Rightarrow> response_shape \<Rightarrow> string \<Rightarrow> responses_sse_state
     \<Rightarrow> responses_sse_state \<times> string list" where
  "observe_sse_bytes E now shape bytes st =
     consume_buffered_events E now shape (st\<lparr>sse_buffer := sse_buffer st @ bytes\<rparr>)"

definition observe_bytes ::
  "externals \<Rightarrow> time \<Rightarrow> response_shape \<Rightarrow> string \<Rightarrow> responses_sse_state
     \<Rightarrow> responses_sse_state \<times> string list" where
  "observe_bytes E now shape bytes st =
     (if has_terminal_event st then (st, [])
      else if sse_mode st then observe_sse_bytes E now shape bytes st
      else if sse_buffer st \<noteq> [] then
        (let (st1, outs, n) = resolve_pending_line_start bytes st;
             (st2, outs') = (if sse_mode st1 then observe_sse_bytes E now shape (drop n bytes) st1
                             else observe_plain_bytes E now shape (drop n bytes) st1)
         in (st2, outs @ outs'))
      else observe_plain_bytes E now shape bytes st)"

definition observe_eof ::
  "externals \<Rightarrow> time \<Rightarrow> response_shape \<Rightarrow> responses_sse_state \<Rightarrow> responses_sse_state \<times> string list" where
  "observe_eof E now shape st =
     (if has_terminal_event st \<or> \<not> sse_mode st \<or> sse_buffer st = [] \<or> \<not> ends_with (sse_buffer st) nl
      then (st, [])
      else (let (st1, out) = consume_event E now shape (st\<lparr>sse_buffer := []\<rparr>) (sse_buffer st)
            in (st1, [out])))"

definition take_terminal_passthrough_bytes ::
  "responses_sse_state \<Rightarrow> responses_sse_state \<times> string option" where
  "take_terminal_passthrough_bytes st =
     (if sse_buffer st = [] then (st, None)
      else if sse_mode st \<or> classify_sse_line_start (sse_buffer st) = LsPartial
      then (st\<lparr>sse_buffer := []\<rparr>, None)
      else (st\<lparr>sse_buffer := []\<rparr>, Some (sse_buffer st)))"

end
