(* ===== verification/Sse_Chunks.thy ===== *)
theory Sse_Chunks
  imports Sse_Stream
begin

text \<open>
  The gateway sees the same events however the network cuts the upstream's answer into chunks.
\<close>

section \<open>Draining a buffer\<close>

text \<open>
  What the loop over the buffered events needs of its frame detector: an event is not empty, lies in
  the buffer, and its end does not move when more bytes arrive.
\<close>

locale event_frames =
  fixes find_end :: "string \<Rightarrow> nat option"
  assumes end_pos: "find_end buf = Some n \<Longrightarrow> 0 < n \<and> n \<le> length buf"
    and end_stable: "find_end buf = Some n \<Longrightarrow> find_end (buf @ ys) = Some n"
begin

lemma drain_fuel:
  "length buf \<le> k \<Longrightarrow> length buf \<le> l \<Longrightarrow>
     drain_events find_end consume halted k m buf = drain_events find_end consume halted l m buf"
proof (induction k arbitrary: l m buf)
  case 0
  then have "find_end buf = None" using end_pos [of buf] by (cases "find_end buf") auto
  with 0 show ?case by (cases l) auto
next
  case (Suc k)
  show ?case
  proof (cases "find_end buf")
    case None
    then show ?thesis by (cases l) auto
  next
    case (Some n)
    from end_pos [OF this] Suc.prems obtain l' where l: "l = Suc l'" "length (drop n buf) \<le> k"
      "length (drop n buf) \<le> l'"
      by (cases l) auto
    obtain m1 out where c: "consume m (take n buf) = (m1, out)" by fastforce
    from Suc.IH [OF l(2,3), of m1] Some c l(1) show ?thesis by simp
  qed
qed

lemma drain_append:
  assumes "length buf \<le> k" "\<not> halted m"
    "drain_events find_end consume halted k m buf = (m1, rest, outs)"
    "length (buf @ ys) \<le> l" "length (rest @ ys) \<le> l'"
  shows "drain_events find_end consume halted l m (buf @ ys) =
     (if halted m1 then (m1, [], outs)
      else (let (m2, r2, outs2) = drain_events find_end consume halted l' m1 (rest @ ys)
            in (m2, r2, outs @ outs2)))"
  using assms
proof (induction k arbitrary: m buf m1 rest outs l)
  case 0
  then have "m1 = m" "rest = []" "outs = []" "buf = []" by auto
  then show ?case
    using 0 drain_fuel [of ys l l' consume halted m] by (simp add: case_prod_unfold)
next
  case (Suc k)
  show ?case
  proof (cases "find_end buf")
    case None
    with Suc.prems have "m1 = m" "rest = buf" "outs = []" by auto
    then show ?thesis
      using Suc.prems drain_fuel [of "buf @ ys" l l' consume halted m] by (simp add: case_prod_unfold)
  next
    case (Some n)
    from end_pos [OF this] Suc.prems(1,4) obtain l1 where
      l: "l = Suc l1" "length (drop n buf) \<le> k" "length (drop n buf @ ys) \<le> l1"
      "drop n (buf @ ys) = drop n buf @ ys" "take n (buf @ ys) = take n buf"
      by (cases l) auto
    obtain m' out where c: "consume m (take n buf) = (m', out)" by fastforce
    show ?thesis
    proof (cases "halted m'")
      case True
      with Suc.prems(3) Some c end_stable [OF Some] l show ?thesis by auto
    next
      case False
      obtain m2 r2 os where d: "drain_events find_end consume halted k m' (drop n buf) = (m2, r2, os)"
        by (metis prod_cases3)
      with Suc.prems(3) Some c False have "m1 = m2" "rest = r2" "outs = out # os" by auto
      with Suc.IH [OF l(2) False d l(3)] Suc.prems(5) Some c False end_stable [OF Some, of ys] l
      show ?thesis by (auto simp: case_prod_unfold Let_def split: if_splits)
    qed
  qed
qed

end

lemma drain_halted:
  "drain_events f consume halted k m buf = (m1, rest, outs) \<Longrightarrow> \<not> halted m \<Longrightarrow> halted m1
     \<Longrightarrow> rest = []"
  by (induction k arbitrary: m buf outs)
    (auto simp: Let_def split: option.splits prod.splits if_splits)

lemma find_end_bounds: "find_sse_event_end buf = Some n \<Longrightarrow> 0 < n \<and> n \<le> length buf"
proof (induction buf arbitrary: n)
  case (Cons b bs)
  have "starts_with bs [NL, CR, NL] \<Longrightarrow> 3 \<le> length bs" "starts_with bs [NL] \<Longrightarrow> 1 \<le> length bs"
    by (cases bs; cases "tl bs"; cases "tl (tl bs)"; auto)+
  with Cons show ?case by (auto split: if_splits)
qed simp

lemma find_end_stable: "find_sse_event_end buf = Some n \<Longrightarrow> find_sse_event_end (buf @ ys) = Some n"
proof (induction buf arbitrary: n)
  case (Cons b bs)
  show ?case
  proof (cases "b = NL \<and> starts_with bs [NL]")
    case True
    with Cons.prems show ?thesis by (simp add: starts_with_append)
  next
    case F1: False
    show ?thesis
    proof (cases "b = CR \<and> starts_with bs [NL, CR, NL]")
      case True
      with Cons.prems show ?thesis by (simp add: starts_with_append)
    next
      case False
      with Cons.prems F1 obtain k where k: "find_sse_event_end bs = Some k" "n = Suc k" by auto
      then have "bs \<noteq> []" by auto
      with F1 have "\<not> (b = NL \<and> starts_with (bs @ ys) [NL])" by (cases bs) auto
      moreover have "\<not> (b = CR \<and> starts_with (bs @ ys) [NL, CR, NL])"
      proof
        assume c: "b = CR \<and> starts_with (bs @ ys) [NL, CR, NL]"
        with \<open>bs \<noteq> []\<close> have "bs = [NL] \<or> bs = [NL, CR] \<or> starts_with bs [NL, CR, NL]"
          by (cases bs; cases "tl bs"; cases "tl (tl bs)"; auto)
        with k(1) c False show False by auto
      qed
      ultimately show ?thesis using Cons.IH [OF k(1)] k(2) by (simp only: append_Cons
            find_sse_event_end.simps if_False) simp
    qed
  qed
qed simp

interpretation sse: event_frames find_sse_event_end
  by unfold_locales (auto dest: find_end_bounds find_end_stable)

section \<open>The scan for the first event line\<close>

lemma starts_with_split: "starts_with (x @ y) p \<Longrightarrow> starts_with x p \<or> starts_with p x"
proof (induction x p rule: starts_with.induct)
  case (2 p ps)
  show ?case by simp
qed auto

lemma starts_with_prefix: "starts_with p (x @ y) \<Longrightarrow> starts_with p x"
  by (induction p x rule: starts_with.induct) auto

lemma starts_with_set: "starts_with p x \<Longrightarrow> set x \<subseteq> set p"
  by (induction p x rule: starts_with.induct) auto

lemma full_append: "classify_sse_line_start x = LsFull \<Longrightarrow> classify_sse_line_start (x @ y) = LsFull"
  by (auto simp: classify_sse_line_start_def list_ex_iff intro: starts_with_append split: if_splits)

lemma none_append:
  assumes "classify_sse_line_start x = LsNone"
  shows "classify_sse_line_start (x @ y) = LsNone"
proof -
  from assms have n: "p \<in> set SSE_LINE_PREFIXES \<Longrightarrow> \<not> starts_with x p \<and> \<not> starts_with p x" for p
    unfolding classify_sse_line_start_def list_ex_iff by (auto split: if_splits)
  have "\<not> (\<exists>p \<in> set SSE_LINE_PREFIXES. starts_with (x @ y) p)"
    using n starts_with_split [of x y] by blast
  moreover have "\<not> (\<exists>p \<in> set SSE_LINE_PREFIXES. starts_with p (x @ y))"
    using n starts_with_prefix [of _ x y] by blast
  ultimately show ?thesis unfolding classify_sse_line_start_def list_ex_iff by simp
qed

lemma partial_no_newline: "classify_sse_line_start x = LsPartial \<Longrightarrow> NL \<notin> set x"
proof -
  assume "classify_sse_line_start x = LsPartial"
  then obtain p where p: "p \<in> set SSE_LINE_PREFIXES" "starts_with p x"
    unfolding classify_sse_line_start_def list_ex_iff by (auto split: if_splits)
  have "\<forall>p \<in> set SSE_LINE_PREFIXES. NL \<notin> set p" by (simp add: SSE_LINE_PREFIXES_def)
  with p starts_with_set show ?thesis by blast
qed

lemma scan_stop_cases:
  assumes "scan_chunk ls bs = (p, stop)"
  shows "case stop of
      ScanEnd ls' \<Rightarrow> p = bs \<and> ls' = line_start_after_bytes ls bs
    | ScanPartial r \<Rightarrow> bs = p @ r \<and> r \<noteq> [] \<and> classify_sse_line_start r = LsPartial
        \<and> line_start_after_bytes ls p
    | ScanFull r \<Rightarrow> bs = p @ r \<and> line_start_after_bytes ls p"
  using assms
proof (induction bs arbitrary: ls p stop)
  case Nil
  then show ?case by (auto simp: line_start_after_bytes_def)
next
  case (Cons b bs)
  obtain p' r' where rec: "scan_chunk (b = NL) bs = (p', r')" by fastforce
  have after: "line_start_after_bytes ls (b # q) = line_start_after_bytes (b = NL) q" for q
    by (simp add: line_start_after_bytes_def)
  note IH = Cons.IH [OF rec]
  show ?case
  proof (cases "ls \<and> classify_sse_line_start (b # bs) \<noteq> LsNone")
    case True
    with Cons.prems show ?thesis
      by (cases "classify_sse_line_start (b # bs)") (auto simp: line_start_after_bytes_def Let_def)
  next
    case False
    with Cons.prems rec have "p = b # p'" "stop = r'"
      by (auto simp: Let_def split: if_splits sse_line_start_match.splits)
    with IH show ?thesis by (cases r') (auto simp: after)
  qed
qed

definition scan_on :: "scan_stop \<Rightarrow> string \<Rightarrow> string \<times> scan_stop" where
  "scan_on stop b =
     (case stop of
        ScanEnd ls \<Rightarrow> scan_chunk ls b
      | ScanPartial r \<Rightarrow> scan_chunk True (r @ b)
      | ScanFull r \<Rightarrow> ([], ScanFull (r @ b)))"

lemma scan_append:
  "scan_chunk ls (a @ b) =
     (let (p, stop) = scan_chunk ls a; (p2, stop2) = scan_on stop b in (p @ p2, stop2))"
proof (induction a arbitrary: ls)
  case Nil
  then show ?case by (simp add: scan_on_def)
next
  case (Cons c a)
  show ?case
  proof (cases "ls \<and> classify_sse_line_start (c # a) \<noteq> LsNone")
    case True
    then show ?thesis
      using full_append [of "c # a" b]
      by (cases "classify_sse_line_start (c # a)") (auto simp: scan_on_def Let_def)
  next
    case False
    then have "\<not> ls \<or> classify_sse_line_start (c # a @ b) = LsNone"
      using none_append [of "c # a" b] by auto
    with False Cons.IH [of "c = NL"] show ?thesis
      by (auto simp: Let_def case_prod_unfold)
  qed
qed

lemma scan_no_newline:
  "NL \<notin> set t \<Longrightarrow> scan_chunk False (t @ b # bs)
     = (let (p, r) = scan_chunk (b = NL) bs in (t @ b # p, r))"
  by (induction t) (auto simp: Let_def case_prod_unfold)

lemma scan_broken:
  assumes "classify_sse_line_start s = LsPartial" "s \<noteq> []" "classify_sse_line_start (s @ [b]) = LsNone"
  shows "scan_chunk True (s @ b # bs) = (let (p, r) = scan_chunk (b = NL) bs in (s @ b # p, r))"
proof -
  obtain h t where s: "s = h # t" using assms(2) by (cases s) auto
  have nl: "h \<noteq> NL" "NL \<notin> set t" using partial_no_newline [OF assms(1)] s by auto
  have "classify_sse_line_start (h # t @ b # bs) = LsNone"
    using none_append [OF assms(3), of bs] s by simp
  then show ?thesis
    using scan_no_newline [OF nl(2), of b bs] nl(1) by (simp add: s Let_def case_prod_unfold)
qed

text \<open>What the pending beginning of a line becomes is what a scan of the joined bytes finds.\<close>

lemma resolve_scan:
  assumes "sse_buffer st = s" "s \<noteq> []" "classify_sse_line_start s = LsPartial" "sse_line_start st"
    "\<not> sse_mode st" "resolve_pending_line_start bs st = (st1, outs, n)"
  shows "(sse_mode st1 \<and> outs = [] \<and> st1 = st\<lparr>sse_mode := True, sse_buffer := sse_buffer st1\<rparr>
           \<and> scan_chunk True (s @ bs) = ([], ScanFull (sse_buffer st1 @ drop n bs)))
       \<or> (outs = [] \<and> drop n bs = [] \<and> st1 = st\<lparr>sse_buffer := s @ bs\<rparr>
           \<and> scan_chunk True (s @ bs) = ([], ScanPartial (s @ bs)))
       \<or> (\<exists>c ls. outs = [c] \<and> st1 = st\<lparr>sse_buffer := [], sse_line_start := ls\<rparr>
           \<and> scan_chunk True (s @ bs) = (let (p, r) = scan_chunk ls (drop n bs) in (c @ p, r)))"
  using assms
proof (induction bs arbitrary: s st st1 outs n)
  case Nil
  then obtain h t where "s = h # t" by (cases s) auto
  with Nil show ?case by (auto simp: Let_def)
next
  case (Cons b bs)
  let ?st = "st\<lparr>sse_buffer := s @ [b]\<rparr>"
  obtain h t where s: "s = h # t" using Cons.prems(2) by (cases s) auto
  show ?case
  proof (cases "classify_sse_line_start (s @ [b])")
    case LsFull
    from full_append [OF this, of bs] s
    have "scan_chunk True (s @ b # bs) = ([], ScanFull (s @ b # bs))" by (simp add: Let_def)
    with LsFull Cons.prems show ?thesis by auto
  next
    case LsNone
    from scan_broken [OF Cons.prems(3,2) this, of bs]
    have scan: "scan_chunk True (s @ b # bs) = (let (p, r) = scan_chunk (b = NL) bs in (s @ b # p, r))" .
    have "line_start_after_bytes x (s @ [b]) = (b = NL)" for x
      by (simp add: line_start_after_bytes_def)
    with LsNone Cons.prems(1,6) have "outs = [s @ [b]]" "n = 1"
      "st1 = st\<lparr>sse_buffer := [], sse_line_start := (b = NL)\<rparr>" by (auto simp: Let_def)
    with scan show ?thesis by (auto simp: Let_def case_prod_unfold)
  next
    case LsPartial
    obtain st2 outs2 n2 where rec: "resolve_pending_line_start bs ?st = (st2, outs2, n2)"
      by (metis prod_cases3)
    with LsPartial Cons.prems(1,6) have eq: "st1 = st2" "outs = outs2" "n = Suc n2"
      by (auto simp: Let_def)
    from Cons.IH [OF _ _ LsPartial _ _ rec] Cons.prems(4,5)
    show ?thesis by (auto simp: eq)
  qed
qed

section \<open>Events do not touch the framing\<close>

lemma note_json_buffer:
  "note_json json (st\<lparr>sse_buffer := x\<rparr>) = (note_json json st)\<lparr>sse_buffer := x\<rparr>"
  by (simp add: note_json_def Let_def split: option.split)

lemma rewrite_buffer:
  "rewrite_gateway_unavailable_event E now shape kind json (st\<lparr>sse_buffer := x\<rparr>)
     = rewrite_gateway_unavailable_event E now shape kind json st"
proof -
  have same: "sse_last_sequence_number (st\<lparr>sse_buffer := x\<rparr>) = sse_last_sequence_number st"
    "sse_last_response_id (st\<lparr>sse_buffer := x\<rparr>) = sse_last_response_id st" by simp_all
  show ?thesis by (simp only: rewrite_gateway_unavailable_event_def same)
qed

lemma failed_event_buffer:
  "apply_failed_event E now shape kind json bytes c (st\<lparr>sse_buffer := x\<rparr>)
     = (let (s, out) = apply_failed_event E now shape kind json bytes c st
        in (s\<lparr>sse_buffer := x\<rparr>, out))"
proof -
  have "note_failure c (st\<lparr>sse_buffer := x\<rparr>) = (note_failure c st)\<lparr>sse_buffer := x\<rparr>"
    by (simp add: note_failure_def)
  then show ?thesis by (simp add: apply_failed_event_def rewrite_buffer Let_def)
qed

lemma consume_json_buffer:
  "consume_json_event E now shape name json bytes (st\<lparr>sse_buffer := x\<rparr>)
     = (let (s, out) = consume_json_event E now shape name json bytes st in (s\<lparr>sse_buffer := x\<rparr>, out))"
  unfolding consume_json_event_def Let_def note_json_buffer
  by (simp add: failed_event_buffer Let_def case_prod_unfold)

lemma consume_event_buffer:
  "consume_event E now shape (st\<lparr>sse_buffer := x\<rparr>) bytes
     = (let (s, out) = consume_event E now shape st bytes in (s\<lparr>sse_buffer := x\<rparr>, out))"
  by (simp add: consume_event_def Let_def consume_json_buffer split: option.split)

lemma note_json_frame [simp]:
  "sse_mode (note_json json st) = sse_mode st" "sse_terminal_state (note_json json st) = sse_terminal_state st"
  "sse_line_start (note_json json st) = sse_line_start st"
  by (simp_all add: note_json_def Let_def split: option.split)

lemma consume_event_mode [simp]: "sse_mode (fst (consume_event E now shape st bytes)) = sse_mode st"
  by (simp add: consume_event_def consume_json_event_def apply_failed_event_def note_failure_def Let_def
      split: option.split)

abbreviation drain where
  "drain E now shape \<equiv> drain_events find_sse_event_end (consume_event E now shape) has_terminal_event"

lemma drain_buffer:
  "drain E now shape k (st\<lparr>sse_buffer := x\<rparr>) buf
     = (let (m, r, outs) = drain E now shape k st buf in (m\<lparr>sse_buffer := x\<rparr>, r, outs))"
proof (induction k arbitrary: st buf)
  case (Suc k)
  show ?case
  proof (cases "find_sse_event_end buf")
    case (Some n)
    obtain m1 out where c: "consume_event E now shape st (take n buf) = (m1, out)" by fastforce
    have "has_terminal_event (m1\<lparr>sse_buffer := x\<rparr>) = has_terminal_event m1"
      by (simp add: has_terminal_event_def)
    with c Some Suc.IH [of m1 "drop n buf"] show ?thesis
      by (simp add: consume_event_buffer Let_def case_prod_unfold)
  qed simp
qed simp

lemma drain_mode: "drain E now shape k st buf = (m, r, outs) \<Longrightarrow> sse_mode m = sse_mode st"
proof (induction k arbitrary: st buf m r outs)
  case (Suc k)
  show ?case
  proof (cases "find_sse_event_end buf")
    case None
    with Suc.prems show ?thesis by simp
  next
    case (Some n)
    obtain m1 out where c: "consume_event E now shape st (take n buf) = (m1, out)" by fastforce
    have "sse_mode m1 = sse_mode st" using consume_event_mode [of E now shape st "take n buf"] c by simp
    with Suc.prems Suc.IH [of m1 "drop n buf"] Some c show ?thesis
      by (auto simp: Let_def split: if_splits prod.splits)
  qed
qed simp

section \<open>Two chunks or one\<close>

definition flat :: "responses_sse_state \<times> string list \<Rightarrow> responses_sse_state \<times> string" where
  "flat x = (fst x, concat (snd x))"

definition chain ::
  "responses_sse_state \<times> string \<Rightarrow> (responses_sse_state \<Rightarrow> responses_sse_state \<times> string)
     \<Rightarrow> responses_sse_state \<times> string" where
  "chain x f = (let (s, p) = x; (s', q) = f s in (s', p @ q))"

lemma buffered_append:
  assumes "sse_mode st" "\<not> has_terminal_event st"
  shows "flat (consume_buffered_events E now shape (st\<lparr>sse_buffer := x @ b\<rparr>))
    = chain (flat (consume_buffered_events E now shape (st\<lparr>sse_buffer := x\<rparr>)))
        (\<lambda>s. flat (observe_bytes E now shape b s))"
proof -
  obtain m r outs where d: "drain E now shape (length x) st x = (m, r, outs)" by (metis prod_cases3)
  let ?k = "length (r @ b)"
  note app = sse.drain_append [OF order_refl assms(2) d, of b "length (x @ b)" ?k]
  have one: "consume_buffered_events E now shape (st\<lparr>sse_buffer := y\<rparr>)
      = (let (m, r, outs) = drain E now shape (length y) st y in (m\<lparr>sse_buffer := r\<rparr>, outs))"
    for st :: responses_sse_state and y
    by (simp add: consume_buffered_events_def drain_buffer Let_def case_prod_unfold)
  have mode: "sse_mode m" using drain_mode [OF d] assms(1) by simp
  show ?thesis
  proof (cases "has_terminal_event m")
    case True
    have "r = []" by (rule drain_halted [OF d assms(2) True])
    note app = app [unfolded this] and d = d [unfolded this]
    from True have t: "has_terminal_event (m\<lparr>sse_buffer := y\<rparr>)" for y by (simp add: has_terminal_event_def)
    with app True t show ?thesis
      by (simp add: one d flat_def chain_def observe_bytes_def)
  next
    case False
    then have t: "\<not> has_terminal_event (m\<lparr>sse_buffer := y\<rparr>)" for y by (simp add: has_terminal_event_def)
    obtain m2 r2 outs2 where d2: "drain E now shape ?k m (r @ b) = (m2, r2, outs2)" by (metis prod_cases3)
    have "observe_bytes E now shape b (m\<lparr>sse_buffer := r\<rparr>) = (m2\<lparr>sse_buffer := r2\<rparr>, outs2)"
      using t mode d2 one [of "r @ b" m] by (simp add: observe_bytes_def observe_sse_bytes_def)
    then show ?thesis
      using app False d2 by (simp add: one d flat_def chain_def)
  qed
qed


text \<open>The state after the bytes a scan stopped at.\<close>

definition after_scan ::
  "externals \<Rightarrow> time \<Rightarrow> response_shape \<Rightarrow> responses_sse_state \<Rightarrow> string \<times> scan_stop
     \<Rightarrow> responses_sse_state \<times> string" where
  "after_scan E now shape st x =
     (case snd x of
        ScanEnd ls \<Rightarrow> (st\<lparr>sse_line_start := ls, sse_buffer := []\<rparr>, fst x)
      | ScanPartial r \<Rightarrow> (st\<lparr>sse_line_start := True, sse_buffer := r\<rparr>, fst x)
      | ScanFull r \<Rightarrow>
          chain (st, fst x) (\<lambda>_. flat (consume_buffered_events E now shape
            (st\<lparr>sse_line_start := True, sse_mode := True, sse_buffer := r\<rparr>))))"

definition chunk_inv :: "responses_sse_state \<Rightarrow> bool" where
  "chunk_inv st \<longleftrightarrow> has_terminal_event st \<or> sse_mode st \<or> sse_buffer st = []
     \<or> sse_line_start st \<and> classify_sse_line_start (sse_buffer st) = LsPartial"

lemma pass_through_flat:
  "flat (pass_through p st) = (st\<lparr>sse_line_start := line_start_after_bytes (sse_line_start st) p\<rparr>, p)"
  by (simp add: pass_through_def flat_def line_start_after_bytes_def)

lemma pass_through_Pair:
  "pass_through p st = (st\<lparr>sse_line_start := line_start_after_bytes (sse_line_start st) p\<rparr>,
     snd (pass_through p st)) \<and> concat (snd (pass_through p st)) = p"
  by (simp add: pass_through_def line_start_after_bytes_def)

lemma plain_spec:
  assumes "sse_buffer st = []"
  shows "flat (observe_plain_bytes E now shape bs st)
    = after_scan E now shape st (scan_chunk (sse_line_start st) bs)"
proof -
  obtain p stop where sc: "scan_chunk (sse_line_start st) bs = (p, stop)" by fastforce
  obtain outs where pt: "pass_through p st
      = (st\<lparr>sse_line_start := line_start_after_bytes (sse_line_start st) p\<rparr>, outs)" "concat outs = p"
    using pass_through_Pair [of p st] by (cases "pass_through p st") auto
  define st1 where "st1 = st\<lparr>sse_line_start := line_start_after_bytes (sse_line_start st) p\<rparr>"
  have "observe_plain_bytes E now shape bs st = (case stop of
       ScanFull rest \<Rightarrow>
         (let (st2, outs') = consume_buffered_events E now shape
                (st1\<lparr>sse_mode := True, sse_buffer := sse_buffer st1 @ rest\<rparr>)
          in (st2, outs @ outs'))
     | ScanPartial rest \<Rightarrow> (st1\<lparr>sse_buffer := sse_buffer st1 @ rest\<rparr>, outs)
     | ScanEnd _ \<Rightarrow> (st1, outs))"
    by (simp only: observe_plain_bytes_def sc pt(1) Let_def prod.case st1_def)
  moreover have "sse_buffer st1 = []" by (simp add: st1_def assms)
  ultimately show ?thesis
    unfolding sc using scan_stop_cases [OF sc] pt(2) assms
    by (cases stop; cases st) (auto simp: flat_def after_scan_def chain_def Let_def case_prod_unfold st1_def)
qed

text \<open>A held beginning of a line that turns out not to be one is passed on, and the scan goes on.\<close>

lemma released_spec:
  assumes "\<not> sse_mode st" "st1 = st\<lparr>sse_buffer := [], sse_line_start := ls\<rparr>"
    "observe_plain_bytes E now shape bs st1 = (st2, outs)"
  shows "(st2, c @ concat outs)
    = after_scan E now shape st (let (p, r) = scan_chunk ls bs in (c @ p, r))"
proof -
  have m: "sse_buffer st1 = []" "sse_line_start st1 = ls" using assms(2) by simp_all
  obtain p r where sc: "scan_chunk ls bs = (p, r)" by fastforce
  have "(st2, concat outs) = after_scan E now shape st1 (p, r)"
    using plain_spec [OF m(1), of E now shape bs] by (simp add: assms(3) flat_def m(2) sc)
  moreover have "after_scan E now shape st (c @ p, r) =
      (fst (after_scan E now shape st1 (p, r)), c @ snd (after_scan E now shape st1 (p, r)))"
    by (cases r; cases st) (simp_all add: after_scan_def assms(2) chain_def Let_def case_prod_unfold)
  ultimately show ?thesis by (simp add: sc) (metis fst_conv snd_conv)
qed

lemma plain_inv_spec:
  assumes "chunk_inv st" "\<not> has_terminal_event st" "\<not> sse_mode st"
  shows "flat (observe_bytes E now shape bs st)
    = after_scan E now shape st (scan_chunk (sse_line_start st) (sse_buffer st @ bs))"
proof (cases "sse_buffer st = []")
  case True
  with assms plain_spec [OF True] show ?thesis by (simp add: observe_bytes_def)
next
  case False
  with assms have b: "classify_sse_line_start (sse_buffer st) = LsPartial" "sse_line_start st"
    by (auto simp: chunk_inv_def)
  obtain st1 outs n where res: "resolve_pending_line_start bs st = (st1, outs, n)" by (metis prod_cases3)
  have obs: "observe_bytes E now shape bs st =
      (let (st2, outs') = (if sse_mode st1 then observe_sse_bytes E now shape (drop n bs) st1
                             else observe_plain_bytes E now shape (drop n bs) st1)
       in (st2, outs @ outs'))"
    using assms False by (simp add: observe_bytes_def res)
  from resolve_scan [OF refl False b assms(3) res]
  show ?thesis
  proof (elim disjE exE conjE)
    assume h: "sse_mode st1" "outs = []" "st1 = st\<lparr>sse_mode := True, sse_buffer := sse_buffer st1\<rparr>"
      "scan_chunk True (sse_buffer st @ bs) = ([], ScanFull (sse_buffer st1 @ drop n bs))"
    have st: "st1\<lparr>sse_buffer := y\<rparr> = st\<lparr>sse_line_start := True, sse_mode := True, sse_buffer := y\<rparr>" for y
      by (subst h(3), cases st) (use b(2) in simp)
    show ?thesis
      using h(1,2) by (simp add: obs b(2) h(4) after_scan_def observe_sse_bytes_def st flat_def chain_def
          case_prod_unfold)
  next
    assume h: "outs = []" "drop n bs = []" "st1 = st\<lparr>sse_buffer := sse_buffer st @ bs\<rparr>"
      "scan_chunk True (sse_buffer st @ bs) = ([], ScanPartial (sse_buffer st @ bs))"
    have nil: "observe_plain_bytes E now shape [] st1 = (st1, [])"
      by (simp add: observe_plain_bytes_def pass_through_def)
    have "sse_mode st1 = False" using h(3) assms(3) by simp
    then show ?thesis
      using nil by (simp add: obs h(1,2) b(2) h(4) after_scan_def flat_def h(3))
  next
    fix c ls assume h: "outs = [c]" "st1 = st\<lparr>sse_buffer := [], sse_line_start := ls\<rparr>"
      "scan_chunk True (sse_buffer st @ bs) = (let (p, r) = scan_chunk ls (drop n bs) in (c @ p, r))"
    obtain st2 outs2 where o: "observe_plain_bytes E now shape (drop n bs) st1 = (st2, outs2)" by fastforce
    have "\<not> sse_mode st1" using h(2) assms(3) by simp
    then have "flat (observe_bytes E now shape bs st) = (st2, c @ concat outs2)"
      by (simp add: obs o h(1) flat_def)
    with released_spec [OF assms(3) h(2) o] show ?thesis by (simp add: b(2) h(3))
  qed
qed

lemma after_scan_prefix:
  "after_scan E now shape st (p @ q, r) =
     (let (s, out) = after_scan E now shape st (q, r) in (s, p @ out))"
  by (cases r) (simp_all add: after_scan_def chain_def Let_def case_prod_unfold)

lemma buffered_mode:
  assumes "sse_mode st"
  shows "sse_mode (fst (consume_buffered_events E now shape st))"
proof -
  obtain m r outs where "drain E now shape (length (sse_buffer st)) st (sse_buffer st) = (m, r, outs)"
    by (metis prod_cases3)
  with drain_mode [OF this] assms show ?thesis by (simp add: consume_buffered_events_def Let_def)
qed

text \<open>The state in SSE mode, where bytes only ever join the buffer.\<close>

lemma observe_append_sse:
  assumes "sse_mode st" "\<not> has_terminal_event st"
  shows "flat (observe_bytes E now shape (a @ b) st)
      = chain (flat (observe_bytes E now shape a st)) (\<lambda>s. flat (observe_bytes E now shape b s))
    \<and> chunk_inv (fst (flat (observe_bytes E now shape a st)))"
proof -
  have o: "observe_bytes E now shape x st
      = consume_buffered_events E now shape (st\<lparr>sse_buffer := sse_buffer st @ x\<rparr>)" for x
    using assms by (simp add: observe_bytes_def observe_sse_bytes_def)
  have "sse_mode (fst (consume_buffered_events E now shape (st\<lparr>sse_buffer := y\<rparr>)))" for y
    by (rule buffered_mode) (simp add: assms(1))
  then show ?thesis
    using buffered_append [OF assms, of E now shape "sse_buffer st @ a" b]
    by (simp add: o flat_def chunk_inv_def)
qed

lemma observe_append_plain:
  assumes "chunk_inv st" "\<not> sse_mode st" "\<not> has_terminal_event st"
  shows "flat (observe_bytes E now shape (a @ b) st)
      = chain (flat (observe_bytes E now shape a st)) (\<lambda>s. flat (observe_bytes E now shape b s))
    \<and> chunk_inv (fst (flat (observe_bytes E now shape a st)))"
proof -
  obtain p stop where sc: "scan_chunk (sse_line_start st) (sse_buffer st @ a) = (p, stop)" by fastforce
  note fa = plain_inv_spec [OF assms(1,3,2), of E now shape a, unfolded sc]
  note fab = plain_inv_spec [OF assms(1,3,2), of E now shape "a @ b"]
  note scan = scan_append [of "sse_line_start st" "sse_buffer st @ a" b, unfolded sc]
  have fresh: "after_scan E now shape (st\<lparr>sse_line_start := l, sse_buffer := y\<rparr>) x = after_scan E now shape st x"
    for l y x by (cases "snd x") (simp_all add: after_scan_def chain_def Let_def case_prod_unfold)
  show ?thesis
  proof (cases stop)
    case (ScanEnd ls)
    let ?s1 = "st\<lparr>sse_line_start := ls, sse_buffer := []\<rparr>"
    have i: "chunk_inv ?s1" "\<not> has_terminal_event ?s1" "\<not> sse_mode ?s1"
      using assms(2,3) by (simp_all add: chunk_inv_def has_terminal_event_def)
    from plain_inv_spec [OF i, of E now shape b] fresh scan fab fa ScanEnd i(1) show ?thesis
      by (simp add: scan_on_def after_scan_prefix chain_def Let_def case_prod_unfold)
        (simp add: after_scan_def)
  next
    case (ScanPartial r)
    let ?s1 = "st\<lparr>sse_line_start := True, sse_buffer := r\<rparr>"
    have i: "chunk_inv ?s1" "\<not> has_terminal_event ?s1" "\<not> sse_mode ?s1"
      using assms(2,3) scan_stop_cases [OF sc] ScanPartial by (simp_all add: chunk_inv_def has_terminal_event_def)
    from plain_inv_spec [OF i, of E now shape b] fresh scan fab fa ScanPartial i(1) show ?thesis
      by (simp add: scan_on_def after_scan_prefix chain_def Let_def case_prod_unfold)
        (simp add: after_scan_def)
  next
    case (ScanFull r)
    let ?s1 = "st\<lparr>sse_line_start := True, sse_mode := True\<rparr>"
    have "sse_mode ?s1" "\<not> has_terminal_event ?s1" using assms(3) by (simp_all add: has_terminal_event_def)
    from buffered_append [OF this, of E now shape r b] scan fab fa ScanFull
    have "flat (observe_bytes E now shape (a @ b) st)
      = chain (flat (observe_bytes E now shape a st)) (\<lambda>s. flat (observe_bytes E now shape b s))"
      by (simp add: scan_on_def after_scan_def chain_def Let_def case_prod_unfold)
    moreover have "sse_mode (fst (flat (observe_bytes E now shape a st)))"
      using fa ScanFull buffered_mode [of "?s1\<lparr>sse_buffer := r\<rparr>" E now shape]
      by (simp add: after_scan_def chain_def Let_def case_prod_unfold flat_def)
    ultimately show ?thesis by (simp add: chunk_inv_def)
  qed
qed

lemma observe_append:
  assumes "chunk_inv st"
  shows "flat (observe_bytes E now shape (a @ b) st)
    = chain (flat (observe_bytes E now shape a st)) (\<lambda>s. flat (observe_bytes E now shape b s))"
    and "chunk_inv (fst (observe_bytes E now shape a st))"
proof -
  have "flat (observe_bytes E now shape (a @ b) st)
      = chain (flat (observe_bytes E now shape a st)) (\<lambda>s. flat (observe_bytes E now shape b s))
    \<and> chunk_inv (fst (flat (observe_bytes E now shape a st)))"
  proof (cases "has_terminal_event st")
    case True
    then show ?thesis by (simp add: observe_bytes_def flat_def chain_def chunk_inv_def)
  qed (use observe_append_sse observe_append_plain [OF assms] in blast)
  then show "flat (observe_bytes E now shape (a @ b) st)
      = chain (flat (observe_bytes E now shape a st)) (\<lambda>s. flat (observe_bytes E now shape b s))"
    and "chunk_inv (fst (observe_bytes E now shape a st))"
    by (simp_all add: flat_def)
qed

fun observe_chunks ::
  "externals \<Rightarrow> time \<Rightarrow> response_shape \<Rightarrow> string list \<Rightarrow> responses_sse_state
     \<Rightarrow> responses_sse_state \<times> string" where
  "observe_chunks E now shape [] st = (st, [])"
| "observe_chunks E now shape (c # cs) st =
     chain (flat (observe_bytes E now shape c st)) (observe_chunks E now shape cs)"

lemma observe_chunks_concat:
  "chunk_inv st \<Longrightarrow> cs \<noteq> [] \<Longrightarrow>
     observe_chunks E now shape cs st = flat (observe_bytes E now shape (concat cs) st)"
proof (induction cs arbitrary: st)
  case (Cons c cs)
  let ?s1 = "fst (observe_bytes E now shape c st)"
  have i: "chunk_inv ?s1" by (rule observe_append(2) [OF Cons.prems(1)])
  show ?case
  proof (cases "cs = []")
    case True
    then show ?thesis by (simp add: chain_def Let_def case_prod_unfold)
  next
    case False
    from Cons.IH [OF i False] observe_append(1) [OF Cons.prems(1), of E now shape c "concat cs"]
    show ?thesis by (simp add: chain_def flat_def Let_def case_prod_unfold)
  qed
qed simp

text \<open>
  C8: chunking does not matter. For every way of cutting the upstream's bytes into chunks, across event
  boundaries, line prefixes or escape sequences, with empty chunks too, the gateway ends in the same
  state (so it settles the account the same way) and its caller receives the same bytes, as if the
  whole had come in one chunk (the clock being the same).
\<close>

theorem chunking_irrelevant:
  "observe_chunks E now shape cs sse_default = flat (observe_bytes E now shape (concat cs) sse_default)"
proof (cases "cs = []")
  case True
  then show ?thesis
    by (simp add: observe_bytes_def observe_plain_bytes_def pass_through_def flat_def sse_default_def
        has_terminal_event_def)
next
  case False
  have "chunk_inv sse_default" by (simp add: chunk_inv_def sse_default_def)
  from observe_chunks_concat [OF this False] show ?thesis .
qed

end
