(* ===== verification/Managed_Stream.thy ===== *)
theory Managed_Stream
  imports Sse_Chunks
begin

text \<open>
  \<open>ManagedResponseStream\<close> of \<open>src/responses/stream.rs\<close>: the stream the caller polls, which reads the
  upstream, watches the shutdown signal and settles the account when the response is over or dropped.
  What the inner stream has ready at a poll is a list of events; when it is used up the inner stream
  is pending. The settlements handed to \<open>spawn_account_settlement\<close> are recorded in order.
\<close>

section \<open>The code\<close>

record managed_stream =
  ms_settled :: bool
  ms_response_shape :: response_shape
  ms_sse_state :: responses_sse_state
  ms_pending_output :: "string list"
  ms_close_after_pending_output :: bool
  ms_settlements :: "account_settlement list"

datatype inner_event = InChunk string | InError transport_error | InEof

datatype poll_item = PollPending | PollBytes string | PollErr string | PollDone

definition new_managed_stream :: "response_shape \<Rightarrow> managed_stream" where
  "new_managed_stream shape =
     \<lparr>ms_settled = False, ms_response_shape = shape, ms_sse_state = sse_default,
      ms_pending_output = [], ms_close_after_pending_output = False, ms_settlements = []\<rparr>"

definition settle :: "account_settlement \<Rightarrow> managed_stream \<Rightarrow> managed_stream" where
  "settle x st =
     (if ms_settled st then st
      else st\<lparr>ms_settled := True, ms_settlements := ms_settlements st @ [x]\<rparr>)"

definition push_output :: "string list \<Rightarrow> managed_stream \<Rightarrow> managed_stream" where
  "push_output outs st = st\<lparr>ms_pending_output := ms_pending_output st @ outs\<rparr>"

definition option_list :: "'a option \<Rightarrow> 'a list" where
  "option_list v = (case v of Some x \<Rightarrow> [x] | None \<Rightarrow> [])"

definition on_chunk :: "externals \<Rightarrow> time \<Rightarrow> string \<Rightarrow> managed_stream \<Rightarrow> managed_stream \<times> bool" where
  "on_chunk E now bytes st =
     (let (sse, outs) = observe_bytes E now (ms_response_shape st) bytes (ms_sse_state st);
          st1 = push_output outs (st\<lparr>ms_sse_state := sse\<rparr>)
      in case terminal_action sse of
           Some action \<Rightarrow> ((settle action st1)\<lparr>ms_close_after_pending_output := True\<rparr>, True)
         | None \<Rightarrow> (st1, False))"

text \<open>The synthetic event can always be rendered, so the branch that returns an I/O error is dead.\<close>

definition on_error :: "externals \<Rightarrow> time \<Rightarrow> transport_error \<Rightarrow> managed_stream \<Rightarrow> managed_stream" where
  "on_error E now error st =
     (let (sse, buffered) = take_terminal_passthrough_bytes (ms_sse_state st);
          st1 = push_output (option_list buffered) (st\<lparr>ms_sse_state := sse\<rparr>);
          failure = classify_request_error E error;
          chunk = synthetic_transport_error_event E now (ms_response_shape st) error failure sse;
          st2 = settle (SettleFailure failure (extract_retry_after E now error)
                  (extract_failure_reason E error failure)) st1
      in (push_output [chunk] st2)\<lparr>ms_close_after_pending_output := True\<rparr>)"

definition closed_details :: string where
  "closed_details = ''stream closed before response.completed''"

definition on_eof :: "externals \<Rightarrow> time \<Rightarrow> managed_stream \<Rightarrow> managed_stream" where
  "on_eof E now st =
     (let (sse, outs) = observe_eof E now (ms_response_shape st) (ms_sse_state st);
          st1 = push_output outs (st\<lparr>ms_sse_state := sse\<rparr>)
      in (case terminal_action sse of
            Some action \<Rightarrow> settle action st1
          | None \<Rightarrow>
              (let st2 = settle (SettleFailure TemporaryFailure None closed_details) st1;
                   (sse2, buffered) = take_terminal_passthrough_bytes (ms_sse_state st2);
                   st3 = push_output (option_list buffered) (st2\<lparr>ms_sse_state := sse2\<rparr>)
               in if saw_terminal_failure_event sse2 then st3
                  else push_output [synthetic_error_event_with_payload E now (ms_response_shape st3)
                         (code_message_payload ''internal_server_error'' closed_details) sse2] st3))
           \<lparr>ms_close_after_pending_output := True\<rparr>)"

definition pop_or :: "managed_stream \<Rightarrow> poll_item \<Rightarrow> managed_stream \<times> poll_item" where
  "pop_or st item =
     (case ms_pending_output st of
        b # bs \<Rightarrow> (st\<lparr>ms_pending_output := bs\<rparr>, PollBytes b)
      | [] \<Rightarrow> (st, item))"

fun poll_inner ::
  "externals \<Rightarrow> time \<Rightarrow> inner_event list \<Rightarrow> managed_stream
     \<Rightarrow> managed_stream \<times> poll_item \<times> inner_event list" where
  "poll_inner E now [] st = (st, PollPending, [])"
| "poll_inner E now (InChunk bytes # evs) st =
     (let (st1, saw_terminal) = on_chunk E now bytes st
      in case ms_pending_output st1 of
           b # bs \<Rightarrow> (st1\<lparr>ms_pending_output := bs\<rparr>, PollBytes b, evs)
         | [] \<Rightarrow> if saw_terminal then (st1, PollDone, evs) else poll_inner E now evs st1)"
| "poll_inner E now (InError error # evs) st =
     (if has_terminal_event (ms_sse_state st) then (st, PollDone, evs)
      else (let (st1, item) = pop_or (on_error E now error st) PollPending in (st1, item, evs)))"
| "poll_inner E now (InEof # evs) st =
     (let (st1, item) = pop_or (on_eof E now st) PollDone in (st1, item, evs))"

definition poll_next ::
  "externals \<Rightarrow> time \<Rightarrow> bool \<Rightarrow> inner_event list \<Rightarrow> managed_stream
     \<Rightarrow> managed_stream \<times> poll_item \<times> inner_event list" where
  "poll_next E now shutdown evs st =
     (case ms_pending_output st of
        b # bs \<Rightarrow> (st\<lparr>ms_pending_output := bs\<rparr>, PollBytes b, evs)
      | [] \<Rightarrow>
          if ms_close_after_pending_output st then (st, PollDone, evs)
          else if shutdown then (settle SettleRelease st, PollDone, evs)
          else poll_inner E now evs st)"

definition drop_stream :: "managed_stream \<Rightarrow> managed_stream" where
  "drop_stream st =
     (if ms_settled st then st
      else settle (case terminal_action (ms_sse_state st) of Some a \<Rightarrow> a | None \<Rightarrow> SettleRelease) st)"

section \<open>Runs\<close>

text \<open>
  A caller polls until the stream is done, or drops it earlier. Each poll has a clock reading, the
  shutdown flag and the events that have become ready; unread events stay.
\<close>

fun run_polls ::
  "externals \<Rightarrow> (time \<times> bool \<times> inner_event list) list \<Rightarrow> inner_event list \<Rightarrow> managed_stream
     \<Rightarrow> managed_stream \<times> poll_item list" where
  "run_polls E [] evs st = (st, [])"
| "run_polls E ((now, shutdown, new) # ps) evs st =
     (let (st1, item, evs1) = poll_next E now shutdown (evs @ new) st
      in if item = PollDone then (st1, [item])
         else (let (st2, items) = run_polls E ps evs1 st1 in (st2, item # items)))"

section \<open>The account is settled once\<close>

definition settlement_fits :: "responses_sse_state \<Rightarrow> account_settlement \<Rightarrow> bool" where
  "settlement_fits sse x =
     (case terminal_action sse of Some a \<Rightarrow> x = a | None \<Rightarrow> x \<noteq> SettleSuccess)"

definition stream_inv :: "managed_stream \<Rightarrow> bool" where
  "stream_inv st \<longleftrightarrow>
     (if ms_settled st
      then \<exists>x. ms_settlements st = [x] \<and> settlement_fits (ms_sse_state st) x
      else ms_settlements st = [] \<and> sse_terminal_state (ms_sse_state st) = None
           \<and> \<not> ms_close_after_pending_output st)"

definition live :: "managed_stream \<Rightarrow> bool" where
  "live st \<longleftrightarrow> stream_inv st \<and> (ms_settled st \<longrightarrow> ms_close_after_pending_output st)"

lemma push_output_simps [simp]:
  "ms_settled (push_output outs st) = ms_settled st"
  "ms_settlements (push_output outs st) = ms_settlements st"
  "ms_sse_state (push_output outs st) = ms_sse_state st"
  "ms_close_after_pending_output (push_output outs st) = ms_close_after_pending_output st"
  "ms_response_shape (push_output outs st) = ms_response_shape st"
  by (simp_all add: push_output_def)

lemma terminal_action_None: "terminal_action sse = None \<longleftrightarrow> sse_terminal_state sse = None"
  by (simp add: terminal_action_def split: option.split responses_terminal_state.split)

lemma settle_open:
  assumes "\<not> ms_settled st" "ms_settlements st = []" "settlement_fits (ms_sse_state st) x"
  shows "ms_settled (settle x st)" "ms_settlements (settle x st) = [x]"
    "ms_sse_state (settle x st) = ms_sse_state st"
  using assms by (simp_all add: settle_def)

lemma passthrough_terminal:
  "take_terminal_passthrough_bytes sse = (sse', b) \<Longrightarrow> sse_terminal_state sse' = sse_terminal_state sse"
  by (auto simp: take_terminal_passthrough_bytes_def split: if_splits)

lemma live_chunk:
  assumes "live st" "\<not> ms_settled st" "on_chunk E now bytes st = (st1, saw)"
  shows "live st1" "saw = ms_settled st1"
proof -
  obtain sse outs where o: "observe_bytes E now (ms_response_shape st) bytes (ms_sse_state st) = (sse, outs)"
    by fastforce
  have "live st1 \<and> saw = ms_settled st1"
  proof (cases "terminal_action sse")
    case None
    with assms o show ?thesis
      by (auto simp: on_chunk_def live_def stream_inv_def terminal_action_None)
  next
    case (Some a)
    with assms o show ?thesis
      by (auto simp: on_chunk_def live_def stream_inv_def settle_def settlement_fits_def)
  qed
  then show "live st1" "saw = ms_settled st1" by simp_all
qed

lemma live_error:
  assumes "live st" "\<not> ms_settled st"
  shows "live (on_error E now error st)" "ms_settled (on_error E now error st)"
proof -
  obtain sse b where t: "take_terminal_passthrough_bytes (ms_sse_state st) = (sse, b)" by fastforce
  have "sse_terminal_state sse = None"
    using passthrough_terminal [OF t] assms by (simp add: live_def stream_inv_def)
  with assms show "live (on_error E now error st)" "ms_settled (on_error E now error st)"
    by (auto simp: on_error_def t live_def stream_inv_def settle_def settlement_fits_def Let_def
        terminal_action_def)
qed

lemma live_eof:
  assumes "live st" "\<not> ms_settled st"
  shows "live (on_eof E now st)" "ms_settled (on_eof E now st)"
proof -
  obtain sse outs where o: "observe_eof E now (ms_response_shape st) (ms_sse_state st) = (sse, outs)"
    by fastforce
  obtain sse2 b where t: "take_terminal_passthrough_bytes sse = (sse2, b)" by fastforce
  have "live (on_eof E now st) \<and> ms_settled (on_eof E now st)"
  proof (cases "terminal_action sse")
    case (Some a)
    with assms o show ?thesis
      by (auto simp: on_eof_def live_def stream_inv_def settle_def settlement_fits_def Let_def)
  next
    case None
    then have "sse_terminal_state sse2 = None"
      using passthrough_terminal [OF t] by (simp add: terminal_action_None)
    with None assms o t show ?thesis
      by (auto simp: on_eof_def live_def stream_inv_def settle_def settlement_fits_def Let_def
          terminal_action_def saw_terminal_failure_event_def)
  qed
  then show "live (on_eof E now st)" "ms_settled (on_eof E now st)" by simp_all
qed

lemma pop_or_cases:
  "pop_or st item = (st1, item1) \<Longrightarrow>
     (\<exists>b. ms_pending_output st = b # ms_pending_output st1 \<and> item1 = PollBytes b
        \<and> st1 = st\<lparr>ms_pending_output := ms_pending_output st1\<rparr>)
     \<or> ms_pending_output st = [] \<and> st1 = st \<and> item1 = item"
  by (auto simp: pop_or_def split: list.splits)

lemma live_pending [simp]: "live (st\<lparr>ms_pending_output := p\<rparr>) = live st"
  by (simp add: live_def stream_inv_def)

lemma poll_inner_live:
  assumes "live st" "\<not> ms_settled st" "poll_inner E now evs st = (st1, item, rest)"
  shows "live st1 \<and> (item = PollDone \<longrightarrow> ms_settled st1)"
  using assms
proof (induction E now evs st rule: poll_inner.induct)
  case (1 E now st)
  then show ?case by simp
next
  case (2 E now bytes evs st)
  obtain st2 saw where c: "on_chunk E now bytes st = (st2, saw)" by fastforce
  note lc = live_chunk [OF 2(2,3) c]
  show ?case
  proof (cases "ms_pending_output st2")
    case Nil
    with 2 c lc show ?thesis by (cases saw) (auto simp: Let_def)
  next
    case (Cons b bs)
    with 2(4) c lc show ?thesis by (auto simp: Let_def)
  qed
next
  case (3 E now error evs st)
  have "\<not> has_terminal_event (ms_sse_state st)"
    using 3(1,2) by (simp add: live_def stream_inv_def has_terminal_event_def)
  with 3(3) obtain item' where "pop_or (on_error E now error st) PollPending = (st1, item)"
    by (auto simp: Let_def case_prod_unfold)
  from pop_or_cases [OF this] live_error [OF 3(1,2), of E now error] show ?case
    by (metis live_pending poll_item.distinct)
next
  case (4 E now evs st)
  then have "pop_or (on_eof E now st) PollDone = (st1, item)" by (auto simp: Let_def case_prod_unfold)
  from pop_or_cases [OF this] live_eof [OF 4(1,2), of E now] show ?case
    by (metis live_pending poll_item.distinct(3) poll_item.distinct(7,9) poll_item.distinct)
qed

lemma poll_next_live:
  assumes "live st" "poll_next E now shutdown evs st = (st1, item, rest)"
  shows "(item \<noteq> PollDone \<longrightarrow> live st1) \<and> stream_inv st1 \<and> (item = PollDone \<longrightarrow> ms_settled st1)"
proof (cases "ms_pending_output st")
  case (Cons b bs)
  with assms have "st1 = st\<lparr>ms_pending_output := bs\<rparr>" "item = PollBytes b" by (auto simp: poll_next_def)
  with assms(1) show ?thesis by (simp add: live_def stream_inv_def)
next
  case Nil
  show ?thesis
  proof (cases "ms_close_after_pending_output st \<or> shutdown")
    case True
    with assms Nil show ?thesis
      by (auto simp: poll_next_def live_def stream_inv_def settle_def settlement_fits_def
          terminal_action_def split: if_splits)
  next
    case False
    with assms Nil have i: "poll_inner E now evs st = (st1, item, rest)" "\<not> ms_settled st"
      by (auto simp: poll_next_def live_def)
    from poll_inner_live [OF assms(1) i(2,1)] show ?thesis by (simp add: live_def)
  qed
qed

lemma run_polls_inv:
  "live st \<Longrightarrow> run_polls E ps evs st = (st1, items) \<Longrightarrow> stream_inv st1"
proof (induction E ps evs st arbitrary: st1 items rule: run_polls.induct)
  case (1 E evs st)
  then show ?case by (simp add: live_def)
next
  case (2 E now shutdown new ps evs st)
  obtain st2 item rest where p: "poll_next E now shutdown (evs @ new) st = (st2, item, rest)"
    by (metis prod_cases3)
  note pl = poll_next_live [OF 2(2) p]
  show ?case
  proof (cases "item = PollDone")
    case True
    with 2(3) p pl show ?thesis by simp
  next
    case False
    obtain st3 items' where r: "run_polls E ps rest st2 = (st3, items')" by fastforce
    with 2(3) p False have "st1 = st3" by simp
    with 2(1) [OF p [symmetric] refl refl False _ r] pl False show ?thesis by simp
  qed
qed

lemma one_settlement:
  "\<exists>x. ms_settlements (drop_stream (fst (run_polls E ps [] (new_managed_stream shape)))) = [x]
     \<and> (x = SettleSuccess \<longleftrightarrow>
          sse_terminal_state (ms_sse_state (fst (run_polls E ps [] (new_managed_stream shape)))) = Some Completed)
     \<and> settlement_fits (ms_sse_state (fst (run_polls E ps [] (new_managed_stream shape)))) x"
proof -
  obtain st items where r: "run_polls E ps [] (new_managed_stream shape) = (st, items)" by fastforce
  have "live (new_managed_stream shape)"
    by (simp add: live_def stream_inv_def new_managed_stream_def sse_default_def)
  from run_polls_inv [OF this r] have i: "stream_inv st" .
  have "\<exists>x. ms_settlements (drop_stream st) = [x] \<and> settlement_fits (ms_sse_state st) x"
  proof (cases "ms_settled st")
    case True
    with i show ?thesis by (simp add: drop_stream_def stream_inv_def)
  next
    case False
    with i show ?thesis
      by (simp add: drop_stream_def stream_inv_def settle_def settlement_fits_def terminal_action_def)
  qed
  moreover have "x = SettleSuccess \<longleftrightarrow> sse_terminal_state (ms_sse_state st) = Some Completed"
    if "settlement_fits (ms_sse_state st) x" for x
    using that by (auto simp: settlement_fits_def terminal_action_def
        split: option.splits responses_terminal_state.splits)
  ultimately show ?thesis by (auto simp: r)
qed

text \<open>
  C9: a streamed response settles its account exactly once. However the upstream's bytes, errors and
  end arrive, whenever the gateway shuts down, and wherever the caller stops polling and drops the
  stream, exactly one settlement is handed out, and it is the one the terminal event calls for: in
  particular the account is credited with a success if and only if the upstream's
  \<open>response.completed\<close> was seen.
\<close>

theorem stream_settles_once:
  "\<exists>x. ms_settlements (drop_stream (fst (run_polls E ps [] (new_managed_stream shape)))) = [x]
     \<and> (x = SettleSuccess \<longleftrightarrow>
          sse_terminal_state (ms_sse_state (fst (run_polls E ps [] (new_managed_stream shape)))) = Some Completed)
     \<and> settlement_fits (ms_sse_state (fst (run_polls E ps [] (new_managed_stream shape)))) x"
  by (rule one_settlement)


section \<open>The caller is told\<close>

definition bytes_of :: "poll_item list \<Rightarrow> string list" where
  "bytes_of items = List.map_filter (\<lambda>i. case i of PollBytes b \<Rightarrow> Some b | _ \<Rightarrow> None) items"

definition synthetic_for :: "externals \<Rightarrow> managed_stream \<Rightarrow> string \<Rightarrow> bool" where
  "synthetic_for E st b \<longleftrightarrow>
     (\<exists>now p. b = synthetic_error_event_with_payload E now (ms_response_shape st) p (ms_sse_state st))"

text \<open>Nothing is owed to the caller: the end is closed by a synthetic event, delivered or waiting.\<close>

definition told :: "externals \<Rightarrow> managed_stream \<Rightarrow> string list \<Rightarrow> bool" where
  "told E st ds \<longleftrightarrow>
     (ms_close_after_pending_output st \<and> sse_terminal_state (ms_sse_state st) = None \<longrightarrow>
        ds @ ms_pending_output st \<noteq> [] \<and> synthetic_for E st (last (ds @ ms_pending_output st)))"

lemma told_pending:
  "ms_pending_output st = b # bs \<Longrightarrow> told E st ds \<Longrightarrow> told E (st\<lparr>ms_pending_output := bs\<rparr>) (ds @ [b])"
  by (simp add: told_def synthetic_for_def)

lemma on_chunk_told:
  assumes "on_chunk E now bytes st = (st1, saw)" "\<not> ms_close_after_pending_output st"
  shows "told E st1 ds"
proof -
  obtain sse outs where o: "observe_bytes E now (ms_response_shape st) bytes (ms_sse_state st) = (sse, outs)"
    by fastforce
  have "sse_terminal_state sse \<noteq> None \<or> \<not> ms_close_after_pending_output st1 \<and> ms_sse_state st1 = sse"
    using assms o by (cases "terminal_action sse") (auto simp: on_chunk_def terminal_action_None
        terminal_action_def)
  moreover have "ms_sse_state st1 = sse"
    using assms(1) o by (auto simp: on_chunk_def settle_def Let_def split: option.splits if_splits)
  ultimately show ?thesis by (auto simp: told_def)
qed

lemma on_error_told:
  "told E (on_error E now error st) ds \<and> ms_pending_output (on_error E now error st) \<noteq> []"
proof -
  obtain sse b where t: "take_terminal_passthrough_bytes (ms_sse_state st) = (sse, b)" by fastforce
  obtain p where "synthetic_transport_error_event E now (ms_response_shape st) error
      (classify_request_error E error) sse
      = synthetic_error_event_with_payload E now (ms_response_shape st) p sse"
    by (simp add: synthetic_transport_error_event_def)
  then show ?thesis
    by (auto simp: told_def on_error_def t Let_def settle_def push_output_def synthetic_for_def)
qed

lemma on_eof_told: "told E (on_eof E now st) ds"
proof -
  obtain sse outs where o: "observe_eof E now (ms_response_shape st) (ms_sse_state st) = (sse, outs)"
    by fastforce
  obtain sse2 b where t: "take_terminal_passthrough_bytes sse = (sse2, b)" by fastforce
  show ?thesis
  proof (cases "terminal_action sse")
    case (Some a)
    then have "sse_terminal_state sse \<noteq> None" using terminal_action_None [of sse] by auto
    with Some show ?thesis
      by (auto simp: told_def on_eof_def o Let_def settle_def push_output_def)
  next
    case None
    then have n: "sse_terminal_state sse2 = None"
      using passthrough_terminal [OF t] by (simp add: terminal_action_None)
    then have "\<not> saw_terminal_failure_event sse2" by (simp add: saw_terminal_failure_event_def)
    with None show ?thesis
      by (auto simp: told_def on_eof_def o t Let_def settle_def push_output_def synthetic_for_def)
  qed
qed

definition delivered :: "poll_item \<Rightarrow> string list" where
  "delivered item = (case item of PollBytes b \<Rightarrow> [b] | _ \<Rightarrow> [])"

lemma on_error_item_told:
  assumes "pop_or (on_error E now error st) PollPending = (st1, item)"
  shows "told E st1 (ds @ delivered item) \<and> item \<noteq> PollDone"
proof -
  obtain b bs where pend: "ms_pending_output (on_error E now error st) = b # bs"
    using on_error_told [of E now error st] by (cases "ms_pending_output (on_error E now error st)") auto
  with assms have "st1 = (on_error E now error st)\<lparr>ms_pending_output := bs\<rparr>" "item = PollBytes b"
    by (auto simp: pop_or_def)
  with told_pending [OF pend] on_error_told [of E now error st ds] show ?thesis by (simp add: delivered_def)
qed

lemma on_eof_item_told:
  assumes "pop_or (on_eof E now st) PollDone = (st1, item)"
  shows "told E st1 (ds @ delivered item)
    \<and> (item = PollDone \<longrightarrow> ms_close_after_pending_output st1 \<and> ms_pending_output st1 = [])"
proof (cases "ms_pending_output (on_eof E now st)")
  case Nil
  with assms have "st1 = on_eof E now st" "item = PollDone" by (auto simp: pop_or_def)
  with on_eof_told [of E now st ds] Nil show ?thesis
    by (simp add: delivered_def on_eof_def Let_def case_prod_unfold)
next
  case (Cons b bs)
  with assms have "st1 = (on_eof E now st)\<lparr>ms_pending_output := bs\<rparr>" "item = PollBytes b"
    by (auto simp: pop_or_def)
  with told_pending [OF Cons] on_eof_told [of E now st ds] show ?thesis by (simp add: delivered_def)
qed

lemma poll_inner_told:
  assumes "live st" "\<not> ms_settled st" "poll_inner E now evs st = (st1, item, rest)"
    "ms_pending_output st = []"
  shows "told E st1 (ds @ delivered item)
    \<and> (item = PollDone \<longrightarrow> ms_close_after_pending_output st1 \<and> ms_pending_output st1 = [])"
  using assms
proof (induction E now evs st rule: poll_inner.induct)
  case (1 E now st)
  then show ?case by (simp add: told_def live_def stream_inv_def)
next
  case (2 E now bytes evs st)
  obtain st2 saw where c: "on_chunk E now bytes st = (st2, saw)" by fastforce
  note lc = live_chunk [OF 2(2,3) c]
  have told: "told E st2 ds"
    by (rule on_chunk_told [OF c]) (use 2(2,3) in \<open>simp add: live_def stream_inv_def\<close>)
  show ?case
  proof (cases "ms_pending_output st2")
    case Nil
    show ?thesis
    proof (cases saw)
      case True
      with 2(4) c Nil have "st1 = st2" "item = PollDone" by (auto simp: Let_def)
      with told lc True Nil show ?thesis by (simp add: delivered_def live_def)
    next
      case False
      with 2(4) c Nil have "poll_inner E now evs st2 = (st1, item, rest)" by (simp add: Let_def)
      with 2(1) [OF c [symmetric] refl Nil False] lc False Nil show ?thesis by simp
    qed
  next
    case (Cons b bs)
    with 2(4) c have "st1 = st2\<lparr>ms_pending_output := bs\<rparr>" "item = PollBytes b" by (auto simp: Let_def)
    with told_pending [OF Cons told] show ?thesis by (simp add: delivered_def)
  qed
next
  case (3 E now error evs st)
  have "\<not> has_terminal_event (ms_sse_state st)"
    using 3(1,2) by (simp add: live_def stream_inv_def has_terminal_event_def)
  with 3(3) have "pop_or (on_error E now error st) PollPending = (st1, item)"
    by (auto simp: Let_def case_prod_unfold)
  from on_error_item_told [OF this] show ?case by simp
next
  case (4 E now evs st)
  then have "pop_or (on_eof E now st) PollDone = (st1, item)" by (auto simp: Let_def case_prod_unfold)
  from on_eof_item_told [OF this] show ?case .
qed

lemma poll_next_told:
  assumes "live st" "told E st ds" "poll_next E now False evs st = (st1, item, rest)"
  shows "told E st1 (ds @ delivered item)
    \<and> (item = PollDone \<longrightarrow> ms_close_after_pending_output st1 \<and> ms_pending_output st1 = [])"
proof (cases "ms_pending_output st")
  case (Cons b bs)
  with assms(3) have "st1 = st\<lparr>ms_pending_output := bs\<rparr>" "item = PollBytes b"
    by (auto simp: poll_next_def)
  with told_pending [OF Cons assms(2)] show ?thesis by (simp add: delivered_def)
next
  case Nil
  show ?thesis
  proof (cases "ms_close_after_pending_output st")
    case True
    with assms Nil have "st1 = st" "item = PollDone" by (auto simp: poll_next_def)
    with assms(2) True Nil show ?thesis by (simp add: delivered_def)
  next
    case False
    with assms Nil have i: "poll_inner E now evs st = (st1, item, rest)" "\<not> ms_settled st"
      by (auto simp: poll_next_def live_def)
    from poll_inner_told [OF assms(1) i(2,1) Nil, of ds] show ?thesis .
  qed
qed

lemma bytes_of_Cons: "bytes_of (item # items) = delivered item @ bytes_of items"
  by (cases item) (simp_all add: bytes_of_def delivered_def List.map_filter_simps)

lemma run_polls_told:
  "live st \<Longrightarrow> told E st ds \<Longrightarrow> (\<And>p. p \<in> set ps \<Longrightarrow> \<not> fst (snd p)) \<Longrightarrow>
     run_polls E ps evs st = (st1, items) \<Longrightarrow>
     told E st1 (ds @ bytes_of items)
     \<and> (PollDone \<in> set items \<longrightarrow> ms_close_after_pending_output st1 \<and> ms_pending_output st1 = [])"
proof (induction E ps evs st arbitrary: st1 items ds rule: run_polls.induct)
  case (1 E evs st)
  then show ?case by (simp add: bytes_of_def List.map_filter_simps)
next
  case (2 E now shutdown new ps evs st)
  have sh: "\<not> shutdown" using 2(4) [of "(now, shutdown, new)"] by simp
  obtain st2 item rest where p: "poll_next E now shutdown (evs @ new) st = (st2, item, rest)"
    by (metis prod_cases3)
  note pl = poll_next_live [OF 2(2) p]
  from p sh have "poll_next E now False (evs @ new) st = (st2, item, rest)" by simp
  note pt = poll_next_told [OF 2(2,3) this]
  show ?case
  proof (cases "item = PollDone")
    case True
    with 2(5) p have "st1 = st2" "items = [PollDone]" by simp_all
    moreover have "bytes_of [PollDone] = []" by (simp add: bytes_of_def List.map_filter_simps)
    ultimately show ?thesis using pt True by (simp add: delivered_def)
  next
    case False
    obtain st3 items' where r: "run_polls E ps rest st2 = (st3, items')" by fastforce
    with 2(5) p False have e: "st1 = st3" "items = item # items'" by simp_all
    have "live st2" using pl False by simp
    from 2(1) [OF p [symmetric] refl refl False this _ _ r, of "ds @ delivered item"] pt 2(4)
    show ?thesis using False by (simp add: e bytes_of_Cons)
  qed
qed



end
