(* ===== verification/Http_Headers.thy ===== *)
theory Http_Headers
  imports Json_Values
begin

text \<open>
  The operations on HTTP header maps that the gateway uses when it rewrites headers, with the laws
  the rewriting relies on. A map is read through \<open>get_all\<close>, the values of a name in their order; the
  order of different names is not specified by the library and no property depends on it.
\<close>

section \<open>Operations\<close>

definition get_all :: "header_map \<Rightarrow> string \<Rightarrow> string list" where
  "get_all h n = map snd (filter (\<lambda>p. fst p = n) h)"

definition hdr_contains :: "header_map \<Rightarrow> string \<Rightarrow> bool" where
  "hdr_contains h n = (n \<in> set (map fst h))"

definition hdr_names :: "header_map \<Rightarrow> string list" where
  "hdr_names h = remdups (map fst h)"

definition hdr_remove :: "string \<Rightarrow> header_map \<Rightarrow> header_map" where
  "hdr_remove n h = filter (\<lambda>p. fst p \<noteq> n) h"

definition hdr_append :: "string \<Rightarrow> string \<Rightarrow> header_map \<Rightarrow> header_map" where
  "hdr_append n v h = h @ [(n, v)]"

fun hdr_insert :: "string \<Rightarrow> string \<Rightarrow> header_map \<Rightarrow> header_map" where
  "hdr_insert n v [] = [(n, v)]"
| "hdr_insert n v (p # ps) = (if fst p = n then (n, v) # hdr_remove n ps else p # hdr_insert n v ps)"

text \<open>\<open>Extend\<close>: the first value of each name of the second map replaces, the others are appended.\<close>

definition hdr_extend :: "header_map \<Rightarrow> header_map \<Rightarrow> header_map" where
  "hdr_extend h k = filter (\<lambda>p. \<not> hdr_contains k (fst p)) h @ k"

text \<open>\<open>insert_header\<close> of the sources: a value that is not a header value is dropped.\<close>

definition insert_header :: "string \<Rightarrow> string \<Rightarrow> header_map \<Rightarrow> header_map" where
  "insert_header n v h = (if hv_valid v then hdr_insert n v h else h)"

definition copy_if_present :: "header_map \<Rightarrow> string \<Rightarrow> header_map \<Rightarrow> header_map" where
  "copy_if_present source n dest = foldl (\<lambda>d v. hdr_append n v d) dest (get_all source n)"

section \<open>Laws\<close>

named_theorems hdr \<open>reading a header map after an operation\<close>

lemma get_all_Nil [hdr]: "get_all [] n = []"
  by (simp add: get_all_def)

lemma get_all_Cons [hdr]: "get_all (p # h) n = (if fst p = n then snd p # get_all h n else get_all h n)"
  by (simp add: get_all_def)

lemma get_all_append_list [hdr]: "get_all (h @ k) n = get_all h n @ get_all k n"
  by (simp add: get_all_def)

lemma get_all_remove [hdr]: "get_all (hdr_remove m h) n = (if n = m then [] else get_all h n)"
  by (induction h) (auto simp: hdr_remove_def get_all_def)

lemma get_all_append [hdr]: "get_all (hdr_append m v h) n = get_all h n @ (if n = m then [v] else [])"
  by (simp add: hdr_append_def get_all_def)

lemma get_all_insert [hdr]: "get_all (hdr_insert m v h) n = (if n = m then [v] else get_all h n)"
  by (induction h) (auto simp: hdr)

lemma get_all_insert_header [hdr]:
  "get_all (insert_header m v h) n = (if n = m \<and> hv_valid v then [v] else get_all h n)"
  by (simp add: insert_header_def hdr)

lemma hdr_contains_iff: "hdr_contains h n \<longleftrightarrow> get_all h n \<noteq> []"
  by (induction h) (auto simp: hdr_contains_def get_all_def)

lemma get_all_filter_names [hdr]:
  "get_all (filter (\<lambda>p. Q (fst p)) h) n = (if Q n then get_all h n else [])"
  by (induction h) (auto simp: get_all_def)

lemma get_all_extend [hdr]:
  "get_all (hdr_extend h k) n = (if get_all k n = [] then get_all h n else get_all k n)"
  using get_all_filter_names [of "\<lambda>m. \<not> hdr_contains k m" h n]
  by (simp add: hdr_extend_def get_all_append_list hdr_contains_iff)

lemma get_all_appends:
  "get_all (foldl (\<lambda>d v. hdr_append m v d) h vs) n = get_all h n @ (if n = m then vs else [])"
  by (induction vs arbitrary: h) (auto simp: hdr)

lemma get_all_copy [hdr]:
  "get_all (copy_if_present source m dest) n
     = get_all dest n @ (if n = m then get_all source m else [])"
  by (simp add: copy_if_present_def get_all_appends)

lemma hdr_get_all: "hdr_get h n = (case get_all h n of [] \<Rightarrow> None | v # vs \<Rightarrow> Some v)"
  by (induction h) (auto simp: hdr_get_def get_all_def)

lemma hdr_names_iff: "n \<in> set (hdr_names h) \<longleftrightarrow> get_all h n \<noteq> []"
  by (simp add: hdr_names_def flip: hdr_contains_iff) (simp add: hdr_contains_def)

text \<open>Removing and overwriting several names.\<close>

lemma get_all_removes:
  "get_all (foldl (\<lambda>d m. hdr_remove m d) h ms) n = (if n \<in> set ms then [] else get_all h n)"
  by (induction ms arbitrary: h) (auto simp: hdr)

end
