(* ===== verification/Upstream_Headers.thy ===== *)
theory Upstream_Headers
  imports Http_Headers Gateway_Config Accounts
begin

text \<open>
  \<open>src/upstream/headers.rs\<close> and \<open>fingerprint.rs\<close>: which headers of the caller go upstream, what the
  gateway adds to make a request look like the Codex client's, the installation identifier, and the
  cleaning of the headers of an answer.
\<close>

section \<open>External functions\<close>

text \<open>
  \<open>SessionSource\<close> and \<open>SubAgentSource\<close> of the Codex protocol, as far as the sources look into them; the
  fields they do not look at are kept as JSON.

  \<^item> \<open>header_name\<close>: \<open>HeaderName::from_bytes\<close> on a name found in the text of a header;
  \<^item> \<open>read_session_source\<close>: \<open>serde_json::from_str::<SessionSource>\<close>;
  \<^item> \<open>uuid_v5\<close>: \<open>Uuid::new_v5\<close> of a namespace and a name, as text;
  \<^item> \<open>default_headers\<close>: the default headers of the Codex client;
  \<^item> \<open>originator\<close>, \<open>os_type\<close>, \<open>os_version\<close>, \<open>os_architecture\<close>, \<open>terminal_agent\<close>, \<open>agent_suffix\<close>: what
    the user agent is put together from.
\<close>

datatype subagent_source =
  Review | Compact | MemoryConsolidation | ThreadSpawn string json | OtherAgent string

datatype session_source = SubAgent subagent_source | OtherSource json

record client_externals =
  header_name :: "string \<Rightarrow> string option"
  read_session_source :: "string \<Rightarrow> session_source option"
  uuid_v5 :: "nat \<Rightarrow> string \<Rightarrow> string"
  default_headers :: header_map
  originator :: string
  os_type :: string
  os_version :: string
  os_architecture :: "string option"
  terminal_agent :: string
  agent_suffix :: "string option"

text \<open>An instance for the closed examples.\<close>

definition sample_client_externals :: client_externals where
  "sample_client_externals =
     \<lparr>header_name = (\<lambda>s. if s = [] then None else Some (to_ascii_lowercase s)),
      read_session_source = (\<lambda>_. None), uuid_v5 = (\<lambda>n s. show_nat n @ s), default_headers = [],
      originator = ''codex-tui'', os_type = ''Linux'', os_version = ''1'', os_architecture = None,
      terminal_agent = ''xterm'', agent_suffix = None\<rparr>"

section \<open>Installation identifier and turn metadata\<close>

definition X_CODEX_INSTALLATION_ID_HEADER :: string where
  "X_CODEX_INSTALLATION_ID_HEADER = ''x-codex-installation-id''"

definition X_CODEX_TURN_METADATA_HEADER :: string where
  "X_CODEX_TURN_METADATA_HEADER = ''x-codex-turn-metadata''"

definition USER_THREAD_SOURCE :: string where
  "USER_THREAD_SOURCE = ''user''"

definition INSTALLATION_ID_NAMESPACE :: nat where
  "INSTALLATION_ID_NAMESPACE = 0x6d0ab9757f884ef494663f9047d5064d"

definition stable_installation_id :: "client_externals \<Rightarrow> string \<Rightarrow> string" where
  "stable_installation_id X account_id = uuid_v5 X INSTALLATION_ID_NAMESPACE account_id"

definition installation_id_for_account ::
  "client_externals \<Rightarrow> upstream_account \<Rightarrow> fingerprint_mode \<Rightarrow> string option" where
  "installation_id_for_account X account mode =
     (if mode \<noteq> Normalize then None
      else map_option (stable_installation_id X) (ua_chatgpt_account_id account))"

text \<open>
  The entry \<open>client_metadata\<close> of an object as an object, created when it is missing or null; \<open>None\<close>
  when it is something else.
\<close>

definition metadata_entry :: "json_object \<Rightarrow> json_object option" where
  "metadata_entry obj =
     (case map_of obj ''client_metadata'' of
        None \<Rightarrow> Some []
      | Some v \<Rightarrow> if is_null v then Some [] else as_object v)"

definition apply_client_metadata_installation_id :: "json \<Rightarrow> string \<Rightarrow> json \<times> bool" where
  "apply_client_metadata_installation_id root installation_id =
     (case as_object root of
        None \<Rightarrow> (root, False)
      | Some obj \<Rightarrow>
          (case metadata_entry obj of
             None \<Rightarrow> (root, False)
           | Some metadata \<Rightarrow>
               (JObject (obj_insert ''client_metadata''
                  (JObject (obj_insert X_CODEX_INSTALLATION_ID_HEADER (JString installation_id) metadata))
                  obj), True)))"

definition apply_responses_installation_id :: "string option \<Rightarrow> fingerprint_mode \<Rightarrow> json \<Rightarrow> json" where
  "apply_responses_installation_id installation_id mode body =
     (if mode \<noteq> Normalize then body
      else case installation_id of
        None \<Rightarrow> body
      | Some i \<Rightarrow> fst (apply_client_metadata_installation_id body i))"

definition apply_compact_installation_id_header ::
  "string option \<Rightarrow> fingerprint_mode \<Rightarrow> header_map \<Rightarrow> header_map" where
  "apply_compact_installation_id_header installation_id mode h =
     (if mode \<noteq> Normalize then h
      else case installation_id of
        None \<Rightarrow> h
      | Some i \<Rightarrow> if hv_valid i then hdr_insert X_CODEX_INSTALLATION_ID_HEADER i h else h)"

definition default_turn_metadata_value :: "externals \<Rightarrow> string" where
  "default_turn_metadata_value E =
     print_json E (JObject [(''thread_source'', JString USER_THREAD_SOURCE)])"

definition merge_turn_metadata_thread_source :: "externals \<Rightarrow> string \<Rightarrow> string option" where
  "merge_turn_metadata_thread_source E raw =
     (case parse_json E raw of
        None \<Rightarrow> None
      | Some v \<Rightarrow>
          (case as_object v of
             None \<Rightarrow> None
           | Some obj \<Rightarrow>
               Some (print_json E
                 (JObject (obj_or_insert ''thread_source'' (JString USER_THREAD_SOURCE) obj)))))"

text \<open>
  When the metadata is an object that gets created and then rejected, the created object stays; here
  it never is, since an absent or null entry of a fresh object is always filled.
\<close>

definition apply_client_metadata_user_thread_source :: "externals \<Rightarrow> json \<Rightarrow> json \<times> bool" where
  "apply_client_metadata_user_thread_source E root =
     (case as_object root of
        None \<Rightarrow> (root, False)
      | Some obj \<Rightarrow>
          (case metadata_entry obj of
             None \<Rightarrow> (root, False)
           | Some metadata \<Rightarrow>
               (let put = (\<lambda>s. JObject (obj_insert ''client_metadata''
                        (JObject (obj_insert X_CODEX_TURN_METADATA_HEADER (JString s) metadata)) obj))
                in case map_of metadata X_CODEX_TURN_METADATA_HEADER of
                     None \<Rightarrow> (put (default_turn_metadata_value E), True)
                   | Some v \<Rightarrow>
                       if is_null v then (put (default_turn_metadata_value E), True)
                       else (case Option.bind (as_str v) (merge_turn_metadata_thread_source E) of
                               None \<Rightarrow> (root, False)
                             | Some merged \<Rightarrow> (put merged, True)))))"

section \<open>Request headers\<close>

definition X_CODEX_PARENT_THREAD_ID_HEADER :: string where
  "X_CODEX_PARENT_THREAD_ID_HEADER = ''x-codex-parent-thread-id''"

definition X_CODEX_WINDOW_ID_HEADER :: string where
  "X_CODEX_WINDOW_ID_HEADER = ''x-codex-window-id''"

definition X_OPENAI_SUBAGENT_HEADER :: string where
  "X_OPENAI_SUBAGENT_HEADER = ''x-openai-subagent''"

definition SESSION_SOURCE_HEADER :: string where
  "SESSION_SOURCE_HEADER = ''x-codex-session-source''"

definition RESPONSES_WEBSOCKETS_V2_BETA_HEADER_VALUE :: string where
  "RESPONSES_WEBSOCKETS_V2_BETA_HEADER_VALUE = ''responses_websockets=2026-02-06''"

record gateway_auth =
  auth_access_token :: string
  auth_account_id :: "string option"

definition new_gateway_auth :: "upstream_account \<Rightarrow> gateway_auth" where
  "new_gateway_auth account =
     \<lparr>auth_access_token = ua_access_token account, auth_account_id = ua_chatgpt_account_id account\<rparr>"

definition add_auth_headers_to_header_map :: "gateway_auth \<Rightarrow> header_map \<Rightarrow> header_map" where
  "add_auth_headers_to_header_map auth h =
     (let bearer = ''Bearer '' @ auth_access_token auth;
          h1 = (if hv_valid bearer then hdr_insert ''authorization'' bearer h else h)
      in case auth_account_id auth of
           None \<Rightarrow> h1
         | Some i \<Rightarrow> if hv_valid i then hdr_insert ''chatgpt-account-id'' i h1 else h1)"

definition extend_fingerprint_headers :: "header_map \<Rightarrow> fingerprint_mode \<Rightarrow> header_map \<Rightarrow> header_map" where
  "extend_fingerprint_headers source mode dest =
     (if mode = Passthrough then
        copy_if_present source ''x-openai-internal-codex-residency''
          (copy_if_present source ''originator'' (copy_if_present source ''user-agent'' dest))
      else dest)"

definition maybe_copy_session_id_to_client_request_id :: "header_map \<Rightarrow> header_map \<Rightarrow> header_map" where
  "maybe_copy_session_id_to_client_request_id source dest =
     (case hdr_get_str source ''session_id'' of
        None \<Rightarrow> dest
      | Some v \<Rightarrow> insert_header ''x-client-request-id'' v dest)"

definition parse_session_source_header :: "client_externals \<Rightarrow> header_map \<Rightarrow> session_source option" where
  "parse_session_source_header X source =
     (case hdr_get_str source SESSION_SOURCE_HEADER of
        None \<Rightarrow> None
      | Some s \<Rightarrow>
          (let raw = str_trim s in if raw = [] then None else read_session_source X raw))"

fun subagent_header_value :: "session_source \<Rightarrow> string option" where
  "subagent_header_value (SubAgent Review) = Some ''review''"
| "subagent_header_value (SubAgent Compact) = Some ''compact''"
| "subagent_header_value (SubAgent MemoryConsolidation) = Some ''memory_consolidation''"
| "subagent_header_value (SubAgent (ThreadSpawn _ _)) = Some ''collab_spawn''"
| "subagent_header_value (SubAgent (OtherAgent label)) = Some label"
| "subagent_header_value (OtherSource _) = None"

fun parent_thread_id_header_value :: "session_source \<Rightarrow> string option" where
  "parent_thread_id_header_value (SubAgent (ThreadSpawn parent_thread_id _)) = Some parent_thread_id"
| "parent_thread_id_header_value _ = None"

definition maybe_insert_parent_thread_id_from_session_source ::
  "client_externals \<Rightarrow> header_map \<Rightarrow> fingerprint_mode \<Rightarrow> header_map \<Rightarrow> header_map" where
  "maybe_insert_parent_thread_id_from_session_source X source mode dest =
     (if mode \<noteq> Normalize \<or> hdr_contains dest X_CODEX_PARENT_THREAD_ID_HEADER then dest
      else case Option.bind (parse_session_source_header X source) parent_thread_id_header_value of
        None \<Rightarrow> dest
      | Some parent \<Rightarrow> insert_header X_CODEX_PARENT_THREAD_ID_HEADER parent dest)"

definition maybe_insert_subagent_from_session_source ::
  "client_externals \<Rightarrow> header_map \<Rightarrow> fingerprint_mode \<Rightarrow> header_map \<Rightarrow> header_map" where
  "maybe_insert_subagent_from_session_source X source mode dest =
     (if mode \<noteq> Normalize \<or> hdr_contains dest X_OPENAI_SUBAGENT_HEADER then dest
      else case Option.bind (parse_session_source_header X source) subagent_header_value of
        None \<Rightarrow> dest
      | Some subagent \<Rightarrow> insert_header X_OPENAI_SUBAGENT_HEADER subagent dest)"

definition extend_responses_identity_headers ::
  "client_externals \<Rightarrow> header_map \<Rightarrow> fingerprint_mode \<Rightarrow> header_map \<Rightarrow> header_map" where
  "extend_responses_identity_headers X source mode dest =
     (let d1 = copy_if_present source X_CODEX_WINDOW_ID_HEADER dest;
          d2 = copy_if_present source X_CODEX_PARENT_THREAD_ID_HEADER d1;
          d3 = copy_if_present source X_OPENAI_SUBAGENT_HEADER d2;
          d4 = maybe_insert_parent_thread_id_from_session_source X source mode d3
      in maybe_insert_subagent_from_session_source X source mode d4)"

text \<open>\<open>copy_if_present\<close> for several names, in their order.\<close>

definition copy_headers :: "header_map \<Rightarrow> string list \<Rightarrow> header_map \<Rightarrow> header_map" where
  "copy_headers source names dest = foldl (\<lambda>d n. copy_if_present source n d) dest names"

definition extend_responses_context_headers :: "header_map \<Rightarrow> header_map \<Rightarrow> header_map" where
  "extend_responses_context_headers source dest =
     copy_headers source
       [''session_id'', ''x-client-request-id'', ''x-codex-beta-features'', ''x-codex-turn-state'',
        X_CODEX_TURN_METADATA_HEADER, ''x-responsesapi-include-timing-metrics'', ''traceparent'',
        ''tracestate''] dest"

definition maybe_normalize_turn_metadata_header ::
  "externals \<Rightarrow> fingerprint_mode \<Rightarrow> header_map \<Rightarrow> header_map" where
  "maybe_normalize_turn_metadata_header E mode h =
     (if mode \<noteq> Normalize then h
      else case (case hdr_get_str h X_CODEX_TURN_METADATA_HEADER of
                   Some raw \<Rightarrow> merge_turn_metadata_thread_source E raw
                 | None \<Rightarrow> Some (default_turn_metadata_value E)) of
        None \<Rightarrow> h
      | Some normalized \<Rightarrow> insert_header X_CODEX_TURN_METADATA_HEADER normalized h)"

definition fill_client_request_id ::
  "header_map \<Rightarrow> fingerprint_mode \<Rightarrow> header_map \<Rightarrow> header_map" where
  "fill_client_request_id source mode h =
     (if mode = Normalize \<and> \<not> hdr_contains h ''x-client-request-id''
      then maybe_copy_session_id_to_client_request_id source h else h)"

definition build_responses_extra_headers ::
  "externals \<Rightarrow> client_externals \<Rightarrow> header_map \<Rightarrow> fingerprint_mode \<Rightarrow> header_map" where
  "build_responses_extra_headers E X incoming mode =
     (let h1 = extend_fingerprint_headers incoming mode [];
          h2 = extend_responses_context_headers incoming h1;
          h3 = extend_responses_identity_headers X incoming mode h2;
          h4 = maybe_normalize_turn_metadata_header E mode h3
      in fill_client_request_id incoming mode h4)"

definition build_unary_extra_headers ::
  "externals \<Rightarrow> client_externals \<Rightarrow> string \<Rightarrow> header_map \<Rightarrow> fingerprint_mode \<Rightarrow> string option
     \<Rightarrow> header_map" where
  "build_unary_extra_headers E X path incoming mode installation_id =
     (if path = ''responses/compact'' then
        (let h1 = extend_fingerprint_headers incoming mode [];
             h2 = extend_responses_context_headers incoming h1;
             h3 = extend_responses_identity_headers X incoming mode h2;
             h4 = maybe_normalize_turn_metadata_header E mode h3;
             h5 = (if mode = Passthrough
                   then copy_if_present incoming X_CODEX_INSTALLATION_ID_HEADER h4 else h4);
             h6 = apply_compact_installation_id_header installation_id mode h5
         in fill_client_request_id incoming mode h6)
      else if path = ''memories/trace_summarize'' then
        (let h1 = extend_fingerprint_headers incoming mode [];
             h2 = copy_if_present incoming X_OPENAI_SUBAGENT_HEADER h1
         in maybe_insert_subagent_from_session_source X incoming mode h2)
      else [])"

definition build_models_extra_headers :: "header_map \<Rightarrow> fingerprint_mode \<Rightarrow> header_map" where
  "build_models_extra_headers incoming mode = extend_fingerprint_headers incoming mode []"

section \<open>The user agent\<close>

text \<open>A Rust \<open>char\<close> outside ASCII is more than one byte and becomes a single underscore.\<close>

definition utf8_continuation :: "char \<Rightarrow> bool" where
  "utf8_continuation c = (let n = of_char c :: nat in 128 \<le> n \<and> n < 192)"

definition sanitize_user_agent :: "client_externals \<Rightarrow> string \<Rightarrow> string \<Rightarrow> string" where
  "sanitize_user_agent X candidate fallback =
     (if hv_valid candidate then candidate
      else
        (let sanitized = map (\<lambda>c. let n = of_char c :: nat in
                if 32 \<le> n \<and> n \<le> 126 then c else CHR ''_'')
              (filter (\<lambda>c. \<not> utf8_continuation c) candidate)
         in if sanitized \<noteq> [] \<and> hv_valid sanitized then sanitized
            else if hv_valid fallback then fallback else originator X))"

definition user_agent_suffix :: "client_externals \<Rightarrow> string \<Rightarrow> string" where
  "user_agent_suffix X version =
     (case Option.bind (agent_suffix X) (\<lambda>s. if str_trim s = [] then None else Some (str_trim s)) of
        None \<Rightarrow> '' (codex-tui; '' @ version @ '')''
      | Some v \<Rightarrow> '' ('' @ v @ '')'')"

definition build_codex_user_agent :: "client_externals \<Rightarrow> string \<Rightarrow> string" where
  "build_codex_user_agent X version =
     (let prefix = originator X @ ''/'' @ version @ '' ('' @ os_type X @ '' '' @ os_version X @ ''; ''
            @ (case os_architecture X of Some a \<Rightarrow> a | None \<Rightarrow> ''unknown'') @ '') '' @ terminal_agent X
      in sanitize_user_agent X (prefix @ user_agent_suffix X version) prefix)"

definition build_responses_websocket_headers ::
  "externals \<Rightarrow> client_externals \<Rightarrow> header_map \<Rightarrow> fingerprint_mode \<Rightarrow> string \<Rightarrow> header_map" where
  "build_responses_websocket_headers E X incoming mode version =
     (let h0 = (if mode = Passthrough then []
            else insert_header ''user-agent'' (build_codex_user_agent X version) (default_headers X));
          h1 = copy_headers incoming
            [''session_id'', ''x-client-request-id'', ''x-codex-beta-features'', ''x-codex-turn-state'',
             X_CODEX_TURN_METADATA_HEADER] h0;
          h2 = extend_responses_identity_headers X incoming mode h1;
          h3 = maybe_normalize_turn_metadata_header E mode h2;
          h4 = copy_headers incoming
            [''x-responsesapi-include-timing-metrics'', ''traceparent'', ''tracestate''] h3;
          h5 = extend_fingerprint_headers incoming mode h4;
          h6 = fill_client_request_id incoming mode h5
      in hdr_insert ''openai-beta'' RESPONSES_WEBSOCKETS_V2_BETA_HEADER_VALUE h6)"

section \<open>Response headers\<close>

fun split_char :: "char \<Rightarrow> string \<Rightarrow> string list" where
  "split_char d [] = [[]]"
| "split_char d (c # s) =
     (if c = d then [] # split_char d s
      else case split_char d s of [] \<Rightarrow> [[c]] | w # ws \<Rightarrow> (c # w) # ws)"

text \<open>The names that the \<open>Connection\<close> headers list.\<close>

definition connection_tokens :: "client_externals \<Rightarrow> header_map \<Rightarrow> string list" where
  "connection_tokens X h =
     List.map_filter (header_name X)
       (filter (\<lambda>t. t \<noteq> [])
         (map str_trim (concat (map (split_char CHR '','')
           (List.map_filter hv_to_str (get_all h ''connection''))))))"

definition hop_by_hop_headers :: "string list" where
  "hop_by_hop_headers =
     [''connection'', ''keep-alive'', ''proxy-authenticate'', ''proxy-authorization'', ''te'', ''trailer'',
      ''transfer-encoding'', ''upgrade'']"

definition remove_hop_by_hop_response_headers :: "client_externals \<Rightarrow> header_map \<Rightarrow> header_map" where
  "remove_hop_by_hop_response_headers X h =
     foldl (\<lambda>d n. hdr_remove n d) h (connection_tokens X h @ hop_by_hop_headers)"

definition used_percent_header :: "string \<Rightarrow> bool" where
  "used_percent_header name =
     (let lowered = to_ascii_lowercase name
      in ends_with lowered ''-primary-used-percent'' \<or> ends_with lowered ''-secondary-used-percent'')"

definition normalize_rate_limit_headers :: "header_map \<Rightarrow> header_map" where
  "normalize_rate_limit_headers h =
     foldl (\<lambda>d n. if used_percent_header n then hdr_insert n ''0.0'' d else d) h (hdr_names h)"

definition sanitize_response_headers :: "client_externals \<Rightarrow> header_map \<Rightarrow> header_map" where
  "sanitize_response_headers X h =
     normalize_rate_limit_headers
       (hdr_remove ''content-length'' (hdr_remove ''content-encoding''
         (remove_hop_by_hop_response_headers X h)))"


section \<open>What the rewriting keeps\<close>

lemma get_all_copies [hdr]:
  "n \<notin> set names \<Longrightarrow> get_all (copy_headers source names dest) n = get_all dest n"
  by (induction names arbitrary: dest) (auto simp: copy_headers_def hdr)

lemma get_all_overwrite:
  "get_all (foldl (\<lambda>d n. if Q n then hdr_insert n v d else d) h ns) m
     = (if m \<in> set ns \<and> Q m then [v] else get_all h m)"
  by (induction ns arbitrary: h) (auto simp: hdr)

lemma get_all_sanitized:
  "get_all (sanitize_response_headers X h) n
     = (if n \<in> set (connection_tokens X h) \<union> set hop_by_hop_headers \<union> {''content-encoding'', ''content-length''}
          \<or> get_all h n = [] then []
        else if used_percent_header n then [''0.0''] else get_all h n)"
proof -
  let ?c = "hdr_remove ''content-length'' (hdr_remove ''content-encoding''
      (remove_hop_by_hop_response_headers X h))"
  have "get_all ?c n
     = (if n \<in> set (connection_tokens X h) \<union> set hop_by_hop_headers \<union> {''content-encoding'', ''content-length''}
        then [] else get_all h n)"
    by (simp add: hdr remove_hop_by_hop_response_headers_def get_all_removes del: foldl_append)
  then show ?thesis
    by (auto simp: sanitize_response_headers_def normalize_rate_limit_headers_def get_all_overwrite
        hdr_names_iff)
qed

lemma connection_tokens_cong:
  "get_all h ''connection'' = [] \<Longrightarrow> connection_tokens X h = []"
  by (simp add: connection_tokens_def List.map_filter_def)


text \<open>
  C32: the headers of an upstream answer that reach the caller are exactly those that are neither
  hop-by-hop, nor named by a \<open>Connection\<close> header, nor about the encoding or length of the body, with
  their values in order, except that the used-percent headers of the rate limits read \<open>0.0\<close>; cleaning
  the headers again changes nothing.
\<close>

theorem sanitized_response_headers:
  "get_all (sanitize_response_headers X h) n
     = (if n \<in> {''connection'', ''keep-alive'', ''proxy-authenticate'', ''proxy-authorization'', ''te'',
               ''trailer'', ''transfer-encoding'', ''upgrade'', ''content-encoding'', ''content-length''}
          \<or> n \<in> set (connection_tokens X h) then []
        else if used_percent_header n \<and> hdr_contains h n then [''0.0'']
        else get_all h n)
   \<and> get_all (sanitize_response_headers X (sanitize_response_headers X h)) n
     = get_all (sanitize_response_headers X h) n"
proof -
  have "connection_tokens X (sanitize_response_headers X h) = []"
    by (rule connection_tokens_cong) (simp add: get_all_sanitized hop_by_hop_headers_def)
  then show ?thesis
    by (auto simp: get_all_sanitized hop_by_hop_headers_def hdr_contains_iff)
qed

text \<open>The names under which a header can be part of a request that is not a websocket handshake.\<close>

definition forwarded_names :: "fingerprint_mode \<Rightarrow> string list" where
  "forwarded_names mode =
     [''session_id'', ''x-client-request-id'', ''x-codex-beta-features'', ''x-codex-turn-state'',
      ''x-codex-turn-metadata'', ''x-responsesapi-include-timing-metrics'', ''traceparent'',
      ''tracestate'', ''x-codex-window-id'', ''x-codex-parent-thread-id'', ''x-openai-subagent'',
      ''x-codex-installation-id'']
     @ (if mode = Passthrough then [''user-agent'', ''originator'', ''x-openai-internal-codex-residency'']
        else [])"

lemmas header_names_defs =
  X_CODEX_INSTALLATION_ID_HEADER_def X_CODEX_TURN_METADATA_HEADER_def
  X_CODEX_PARENT_THREAD_ID_HEADER_def X_CODEX_WINDOW_ID_HEADER_def X_OPENAI_SUBAGENT_HEADER_def

lemma unlisted_fingerprint:
  "n \<notin> set (forwarded_names mode) \<Longrightarrow> get_all (extend_fingerprint_headers source mode dest) n = get_all dest n"
  by (auto simp: extend_fingerprint_headers_def forwarded_names_def hdr)

lemma unlisted_context:
  "n \<notin> set (forwarded_names mode) \<Longrightarrow> get_all (extend_responses_context_headers source dest) n = get_all dest n"
  unfolding extend_responses_context_headers_def
  by (rule get_all_copies) (auto simp: forwarded_names_def header_names_defs)

lemma unlisted_parent:
  "n \<noteq> X_CODEX_PARENT_THREAD_ID_HEADER \<Longrightarrow>
   get_all (maybe_insert_parent_thread_id_from_session_source X source mode dest) n = get_all dest n"
  by (auto simp: maybe_insert_parent_thread_id_from_session_source_def hdr split: option.splits)

lemma unlisted_subagent:
  "n \<noteq> X_OPENAI_SUBAGENT_HEADER \<Longrightarrow>
   get_all (maybe_insert_subagent_from_session_source X source mode dest) n = get_all dest n"
  by (auto simp: maybe_insert_subagent_from_session_source_def hdr split: option.splits)

lemma unlisted_identity:
  assumes "n \<notin> set (forwarded_names mode)"
  shows "get_all (extend_responses_identity_headers X source mode dest) n = get_all dest n"
proof -
  have "n \<noteq> X_CODEX_WINDOW_ID_HEADER" "n \<noteq> X_CODEX_PARENT_THREAD_ID_HEADER" "n \<noteq> X_OPENAI_SUBAGENT_HEADER"
    using assms by (auto simp: forwarded_names_def header_names_defs)
  then show ?thesis
    by (simp add: extend_responses_identity_headers_def unlisted_parent unlisted_subagent hdr)
qed

lemma unlisted_turn_metadata:
  "n \<noteq> X_CODEX_TURN_METADATA_HEADER \<Longrightarrow>
   get_all (maybe_normalize_turn_metadata_header E mode h) n = get_all h n"
  by (auto simp: maybe_normalize_turn_metadata_header_def hdr split: option.splits)

lemma unlisted_request_id:
  "n \<noteq> ''x-client-request-id'' \<Longrightarrow> get_all (fill_client_request_id source mode h) n = get_all h n"
  by (auto simp: fill_client_request_id_def maybe_copy_session_id_to_client_request_id_def hdr
      split: option.splits)

lemma unlisted_installation:
  "n \<noteq> X_CODEX_INSTALLATION_ID_HEADER \<Longrightarrow>
   get_all (apply_compact_installation_id_header i mode h) n = get_all h n"
  by (auto simp: apply_compact_installation_id_header_def hdr split: option.splits)

lemma unlisted_names:
  assumes "n \<notin> set (forwarded_names mode)"
  shows "n \<noteq> X_CODEX_TURN_METADATA_HEADER" "n \<noteq> ''x-client-request-id''"
    "n \<noteq> X_CODEX_INSTALLATION_ID_HEADER" "n \<noteq> X_OPENAI_SUBAGENT_HEADER"
  using assms by (auto simp: forwarded_names_def header_names_defs)

lemmas unlisted = unlisted_fingerprint unlisted_context unlisted_identity unlisted_turn_metadata
  unlisted_request_id unlisted_installation unlisted_subagent unlisted_names

lemma unlisted_builders:
  assumes "n \<notin> set (forwarded_names mode)"
  shows "get_all (build_responses_extra_headers E X incoming mode) n = []"
    "get_all (build_unary_extra_headers E X path incoming mode i) n = []"
    "get_all (build_models_extra_headers incoming mode) n = []"
  using assms
  by (cases mode; simp add: build_responses_extra_headers_def build_unary_extra_headers_def Let_def
      build_models_extra_headers_def unlisted hdr)+

lemma get_all_auth:
  "n \<notin> {''authorization'', ''chatgpt-account-id''} \<Longrightarrow>
   get_all (add_auth_headers_to_header_map auth h) n = get_all h n"
  "get_all (add_auth_headers_to_header_map auth h) ''authorization''
     = (if hv_valid (''Bearer '' @ auth_access_token auth) then [''Bearer '' @ auth_access_token auth]
        else get_all h ''authorization'')"
  "get_all (add_auth_headers_to_header_map auth h) ''chatgpt-account-id''
     = (case auth_account_id auth of
          Some i \<Rightarrow> if hv_valid i then [i] else get_all h ''chatgpt-account-id''
        | None \<Rightarrow> get_all h ''chatgpt-account-id'')"
  by (auto simp: add_auth_headers_to_header_map_def Let_def hdr split: option.splits)

end
