(* ===== verification/Gateway_Errors.thy ===== *)
theory Gateway_Errors
  imports Upstream_Headers Failover_Unary Managed_Stream
begin

text \<open>
  \<open>src/gateway_errors.rs\<close> and \<open>http_shape.rs\<close>: the HTTP responses the caller gets when a request
  fails, for the two shapes of API the gateway speaks. The warnings it logs are not modelled.
\<close>

section \<open>Responses\<close>

text \<open>The body of a response: a JSON document that is printed when it is sent, or bytes.\<close>

datatype http_body = JsonBody json | RawBody string

record http_response =
  hr_status :: status
  hr_headers :: header_map
  hr_body :: http_body

definition body_bytes :: "externals \<Rightarrow> http_body \<Rightarrow> string" where
  "body_bytes E b = (case b of JsonBody v \<Rightarrow> print_json E v | RawBody s \<Rightarrow> s)"

definition JSON_CONTENT_TYPE :: string where
  "JSON_CONTENT_TYPE = ''application/json''"

definition SSE_CONTENT_TYPE :: string where
  "SSE_CONTENT_TYPE = ''text/event-stream''"

text \<open>
  \<open>(status, headers, body).into_response()\<close> of axum: the body sets its content type, the headers
  extend it.
\<close>

definition json_response :: "status \<Rightarrow> header_map \<Rightarrow> json \<Rightarrow> http_response" where
  "json_response status headers v =
     \<lparr>hr_status = status, hr_headers = hdr_extend [(''content-type'', JSON_CONTENT_TYPE)] headers,
      hr_body = JsonBody v\<rparr>"

definition text_response :: "status \<Rightarrow> header_map \<Rightarrow> string \<Rightarrow> http_response" where
  "text_response status headers s =
     \<lparr>hr_status = status,
      hr_headers = hdr_extend [(''content-type'', ''text/plain; charset=utf-8'')] headers,
      hr_body = RawBody s\<rparr>"

definition bytes_response :: "status \<Rightarrow> header_map \<Rightarrow> string \<Rightarrow> http_response" where
  "bytes_response status headers s = \<lparr>hr_status = status, hr_headers = headers, hr_body = RawBody s\<rparr>"

section \<open>The code\<close>

datatype render_mode = UnaryJson | ResponsesPreStream

definition shape_openai_http_headers :: "header_map \<Rightarrow> header_map" where
  "shape_openai_http_headers headers =
     copy_if_present headers ''cache-control'' (copy_if_present headers ''content-type'' [])"

definition set_content_type :: "string \<Rightarrow> header_map \<Rightarrow> header_map" where
  "set_content_type v headers = insert_header ''content-type'' v (hdr_remove ''content-type'' headers)"

definition json_error :: "status \<Rightarrow> string \<Rightarrow> http_response" where
  "json_error status message =
     json_response status [] (JObject [(''error'', JObject [(''message'', JString message)])])"

definition reason_or :: "externals \<Rightarrow> status \<Rightarrow> string \<Rightarrow> string" where
  "reason_or E status d = or_else (canonical_reason E status) d"

definition public_internal_error_message :: "externals \<Rightarrow> status \<Rightarrow> string" where
  "public_internal_error_message E status = reason_or E status ''Internal Server Error''"

definition default_openai_error_type :: "status \<Rightarrow> string option \<Rightarrow> string" where
  "default_openai_error_type status code =
     (if status = 401 \<or> code = Some ''invalid_api_key'' then ''authentication_error''
      else if status = 403 \<or> code = Some ''insufficient_quota'' \<or> code = Some ''forbidden''
      then ''permission_error''
      else if status = 429 then ''rate_limit_error''
      else if 500 \<le> status \<and> status \<le> 599 then ''server_error''
      else ''invalid_request_error'')"

definition openai_error_types :: "string list" where
  "openai_error_types =
     [''authentication_error'', ''permission_error'', ''rate_limit_error'', ''server_error'',
      ''invalid_request_error'']"

definition normalize_openai_error_type :: "string option \<Rightarrow> status \<Rightarrow> string option \<Rightarrow> string" where
  "normalize_openai_error_type error_type status code =
     (case error_type of
        Some t \<Rightarrow> if t \<in> set openai_error_types then t else default_openai_error_type status code
      | None \<Rightarrow> default_openai_error_type status code)"

definition openai_error_json :: "string \<Rightarrow> string \<Rightarrow> json \<Rightarrow> string \<Rightarrow> json" where
  "openai_error_json message error_type param code =
     JObject [(''error'', JObject
       [(''message'', JString message), (''type'', JString error_type), (''param'', param),
        (''code'', JString code)])]"

definition openai_error_body :: "externals \<Rightarrow> status \<Rightarrow> synthetic_payload \<Rightarrow> json" where
  "openai_error_body E status payload =
     (let message = or_else (p_message payload) (reason_or E status ''gateway request failed'');
          code = or_else (p_code payload) (fallback_error_code_for_http E status None);
          error_type = normalize_openai_error_type (p_error_type payload) status (Some code)
      in openai_error_json message error_type JNull code)"

definition openai_error_response ::
  "externals \<Rightarrow> status \<Rightarrow> header_map \<Rightarrow> synthetic_payload \<Rightarrow> http_response" where
  "openai_error_response E status headers payload =
     json_response status (set_content_type JSON_CONTENT_TYPE (shape_openai_http_headers headers))
       (openai_error_body E status payload)"

definition openai_json_error_with_headers ::
  "externals \<Rightarrow> status \<Rightarrow> header_map \<Rightarrow> string \<Rightarrow> string option \<Rightarrow> http_response" where
  "openai_json_error_with_headers E status headers message code =
     openai_error_response E status headers
       (default_payload\<lparr>p_code := code, p_message := Some message\<rparr>)"

definition openai_json_error :: "externals \<Rightarrow> status \<Rightarrow> string \<Rightarrow> http_response" where
  "openai_json_error E status message = openai_json_error_with_headers E status [] message None"

definition is_passthrough_openai_error_body :: "json \<Rightarrow> bool" where
  "is_passthrough_openai_error_body v =
     (case Option.bind (jget v ''error'') as_object of
        None \<Rightarrow> False
      | Some error \<Rightarrow>
          if Option.bind (map_of error ''message'') as_str = None then False
          else (case Option.bind (map_of error ''type'') as_str of
                  Some t \<Rightarrow> t \<in> set openai_error_types
                | None \<Rightarrow> False))"

definition openai_error_payload_from_upstream_json ::
  "externals \<Rightarrow> status \<Rightarrow> string option \<Rightarrow> json \<Rightarrow> synthetic_payload" where
  "openai_error_payload_from_upstream_json E status body v =
     (let payload = parse_structured_error_value (or_else (jget v ''error'') v);
          message = opt_or (p_message payload)
            (case v of
               JString s \<Rightarrow> Some s
             | JObject _ \<Rightarrow> jget_str v ''detail''
             | _ \<Rightarrow> Some (print_json E v))
      in payload\<lparr>p_code := opt_or (p_code payload) (Some (fallback_error_code_for_http E status body)),
                 p_message := message\<rparr>)"

definition sanitize_passthrough_openai_error_body ::
  "externals \<Rightarrow> status \<Rightarrow> json \<Rightarrow> string option \<Rightarrow> json" where
  "sanitize_passthrough_openai_error_body E status v body =
     (case Option.bind (jget v ''error'') as_object of
        None \<Rightarrow> openai_error_body E status (openai_error_payload_from_upstream_json E status body v)
      | Some error \<Rightarrow>
          (let message = or_else (Option.bind (map_of error ''message'') as_str)
                 (reason_or E status ''Upstream request failed'');
               code = or_else (Option.bind (map_of error ''code'') as_str)
                 (fallback_error_code_for_http E status body);
               error_type = normalize_openai_error_type (Option.bind (map_of error ''type'') as_str)
                 status (Some code);
               param = or_else (map_of error ''param'') JNull
           in openai_error_json message error_type param code))"

definition openai_error_response_from_upstream_body ::
  "externals \<Rightarrow> status \<Rightarrow> header_map \<Rightarrow> string option \<Rightarrow> http_response" where
  "openai_error_response_from_upstream_body E status headers0 body =
     (let headers = shape_openai_http_headers headers0
      in case Option.bind body (parse_json E) of
           Some v \<Rightarrow>
             (let headers1 = set_content_type JSON_CONTENT_TYPE headers
              in if is_passthrough_openai_error_body v
                 then json_response status headers1
                        (sanitize_passthrough_openai_error_body E status v body)
                 else openai_error_response E status headers1
                        (openai_error_payload_from_upstream_json E status body v))
         | None \<Rightarrow>
             openai_json_error_with_headers E status headers
               (case Option.bind body (\<lambda>b. if str_trim b = [] then None else Some (str_trim b)) of
                  Some b \<Rightarrow> b
                | None \<Rightarrow> reason_or E status ''Upstream request failed'') None)"

definition refresh_failure_response :: "externals \<Rightarrow> refresh_failure \<Rightarrow> http_response" where
  "refresh_failure_response E error =
     (case parse_json E (rf_body error) of
        Some v \<Rightarrow> json_response (rf_status error) [] v
      | None \<Rightarrow> json_error (rf_status error) (rf_body error))"

definition structured_error_body_from_payload :: "synthetic_payload \<Rightarrow> json" where
  "structured_error_body_from_payload p =
     JObject [(''error'', JObject
       ([(''code'', JString (or_else (p_code p) ''internal_server_error'')),
         (''message'', JString (or_else (p_message p) ''Upstream request failed.''))]
        @ opt_field ''type'' JString (p_error_type p)
        @ opt_field ''plan_type'' JString (p_plan_type p)
        @ opt_field ''resets_at'' (JNumber \<circ> JInt) (p_resets_at p)
        @ opt_field ''resets_in_seconds'' (JNumber \<circ> JInt) (p_resets_in_seconds p)))]"

definition structured_error_response :: "status \<Rightarrow> synthetic_payload \<Rightarrow> http_response" where
  "structured_error_response status payload =
     json_response status [] (structured_error_body_from_payload payload)"

definition synthetic_payload_for_pool_block :: "pool_block_summary \<Rightarrow> synthetic_payload" where
  "synthetic_payload_for_pool_block summary = gateway_unavailable_payload"

definition status_for_pool_blocked_reason :: "blocked_reason \<Rightarrow> status" where
  "status_for_pool_blocked_reason reason = 503"

definition pool_blocked_response :: "pool_block_summary \<Rightarrow> http_response" where
  "pool_blocked_response summary =
     structured_error_response (status_for_pool_blocked_reason (pbs_blocked_reason summary))
       (synthetic_payload_for_pool_block summary)"

definition openai_pool_blocked_response :: "externals \<Rightarrow> pool_block_summary \<Rightarrow> http_response" where
  "openai_pool_blocked_response E summary =
     openai_error_response E (status_for_pool_blocked_reason (pbs_blocked_reason summary)) []
       (synthetic_payload_for_pool_block summary)"

definition forwarded_headers :: "client_externals \<Rightarrow> header_map option \<Rightarrow> header_map" where
  "forwarded_headers X headers =
     (case headers of Some h \<Rightarrow> sanitize_response_headers X h | None \<Rightarrow> [])"

definition transport_error_response_ref ::
  "externals \<Rightarrow> client_externals \<Rightarrow> transport_error \<Rightarrow> http_response" where
  "transport_error_response_ref E X error =
     (case error of
        Http status _ headers body \<Rightarrow>
          text_response status (forwarded_headers X headers) (or_else body [])
      | _ \<Rightarrow> json_error 502 (transport_display E error))"

definition openai_refresh_failure_response :: "externals \<Rightarrow> refresh_failure \<Rightarrow> http_response" where
  "openai_refresh_failure_response E error =
     openai_error_response_from_upstream_body E (rf_status error) [] (Some (rf_body error))"

definition openai_transport_error_response_ref ::
  "externals \<Rightarrow> client_externals \<Rightarrow> transport_error \<Rightarrow> http_response" where
  "openai_transport_error_response_ref E X error =
     (case error of
        Http status _ headers body \<Rightarrow>
          openai_error_response_from_upstream_body E status (forwarded_headers X headers) body
      | _ \<Rightarrow> openai_json_error E 502 (public_internal_error_message E 502))"

definition gateway_failure_kind :: "externals \<Rightarrow> failover_failure \<Rightarrow> downstream_kind" where
  "gateway_failure_kind E error =
     (case error of
        FoRefresh _ \<Rightarrow> GatewayUnavailable
      | FoTransport (Http status _ _ body) \<Rightarrow> downstream_failure_kind_for_http E status body
      | FoTransport e \<Rightarrow> downstream_failure_kind (classify_request_error E e)
      | FoPoolBlocked _ \<Rightarrow> GatewayUnavailable
      | FoCallerJson _ _ \<Rightarrow> CallerError
      | FoInternal _ _ \<Rightarrow> CallerError)"

definition render_gateway_unavailable_response :: "externals \<Rightarrow> response_shape \<Rightarrow> http_response" where
  "render_gateway_unavailable_response E shape =
     (case shape of
        Codex \<Rightarrow> structured_error_response 503 gateway_unavailable_payload
      | OpenAi \<Rightarrow> openai_error_response E 503 [] gateway_unavailable_payload)"

definition render_unary_failover_failure ::
  "externals \<Rightarrow> client_externals \<Rightarrow> failover_failure \<Rightarrow> response_shape \<Rightarrow> http_response" where
  "render_unary_failover_failure E X error shape =
     (if gateway_failure_kind E error = GatewayUnavailable
      then render_gateway_unavailable_response E shape
      else case shape of
        Codex \<Rightarrow>
          (case error of
             FoRefresh e \<Rightarrow> refresh_failure_response E e
           | FoTransport e \<Rightarrow> transport_error_response_ref E X e
           | FoPoolBlocked summary \<Rightarrow> pool_blocked_response summary
           | FoCallerJson status message \<Rightarrow> json_error status message
           | FoInternal status detail \<Rightarrow> json_error status (public_internal_error_message E status))
      | OpenAi \<Rightarrow>
          (case error of
             FoRefresh e \<Rightarrow> openai_refresh_failure_response E e
           | FoTransport e \<Rightarrow> openai_transport_error_response_ref E X e
           | FoPoolBlocked summary \<Rightarrow> openai_pool_blocked_response E summary
           | FoCallerJson status message \<Rightarrow> openai_json_error E status message
           | FoInternal status detail \<Rightarrow>
               openai_json_error E status (public_internal_error_message E status)))"

text \<open>The payload of the event that is sent in place of a stream that could not be started.\<close>

definition pre_stream_payload :: "externals \<Rightarrow> time \<Rightarrow> failover_failure \<Rightarrow> synthetic_payload" where
  "pre_stream_payload E now error =
     (if gateway_failure_kind E error = GatewayUnavailable then gateway_unavailable_payload
      else case error of
        FoRefresh e \<Rightarrow>
          synthetic_response_failed_payload_from_http_failure E (rf_status e) (Some (rf_body e))
            (rf_retry_after e)
      | FoTransport e \<Rightarrow> synthetic_response_failed_payload_from_transport E now e
      | FoPoolBlocked summary \<Rightarrow> synthetic_payload_for_pool_block summary
      | FoCallerJson status message \<Rightarrow>
          default_payload\<lparr>p_code := Some (fallback_error_code_for_http E status None),
                          p_message := Some message\<rparr>
      | FoInternal status detail \<Rightarrow>
          default_payload\<lparr>p_code := Some (fallback_error_code_for_http E status None),
                          p_message := Some (public_internal_error_message E status)\<rparr>)"

definition render_codex_pre_stream_failure ::
  "externals \<Rightarrow> time \<Rightarrow> failover_failure \<Rightarrow> http_response" where
  "render_codex_pre_stream_failure E now error =
     bytes_response 200
       (insert_header ''cache-control'' ''no-cache'' (insert_header ''content-type'' SSE_CONTENT_TYPE []))
       (render_synthetic_response_failed_event E now None None (pre_stream_payload E now error))"

definition render_failover_failure ::
  "externals \<Rightarrow> client_externals \<Rightarrow> time \<Rightarrow> failover_failure \<Rightarrow> response_shape \<Rightarrow> render_mode
     \<Rightarrow> http_response" where
  "render_failover_failure E X now error shape mode =
     (case mode of
        UnaryJson \<Rightarrow> render_unary_failover_failure E X error shape
      | ResponsesPreStream \<Rightarrow>
          (case shape of
             Codex \<Rightarrow> render_codex_pre_stream_failure E now error
           | OpenAi \<Rightarrow> render_unary_failover_failure E X error OpenAi))"

definition render_status_message_error ::
  "externals \<Rightarrow> client_externals \<Rightarrow> time \<Rightarrow> response_shape \<Rightarrow> render_mode \<Rightarrow> status \<Rightarrow> string
     \<Rightarrow> http_response" where
  "render_status_message_error E X now shape mode status message =
     render_failover_failure E X now (FoCallerJson status message) shape mode"


section \<open>Facts\<close>

text \<open>What an OpenAI client can rely on: the standard error object and nothing but two headers.\<close>

definition openai_standard :: "http_response \<Rightarrow> bool" where
  "openai_standard r \<longleftrightarrow>
     (\<exists>message error_type param code.
        hr_body r = JsonBody (openai_error_json message error_type param code)
        \<and> error_type \<in> set openai_error_types)
     \<and> get_all (hr_headers r) ''content-type'' = [JSON_CONTENT_TYPE]
     \<and> set (map fst (hr_headers r)) \<subseteq> {''content-type'', ''cache-control''}"

lemma normalized_type: "normalize_openai_error_type t status code \<in> set openai_error_types"
  by (auto simp: normalize_openai_error_type_def default_openai_error_type_def openai_error_types_def
      split: option.split)

lemma names_subset_iff:
  "set (map fst h) \<subseteq> N \<longleftrightarrow> (\<forall>n. n \<notin> N \<longrightarrow> get_all h n = [])"
proof -
  have "get_all h n = [] \<longleftrightarrow> n \<notin> set (map fst h)" for n
    using hdr_contains_iff [of h n] by (simp add: hdr_contains_def)
  then show ?thesis by auto
qed

lemma json_content_type_valid [simp]: "hv_valid JSON_CONTENT_TYPE"
  by (simp add: hv_valid_def JSON_CONTENT_TYPE_def)

lemma get_all_set_content_type [hdr]:
  "get_all (set_content_type JSON_CONTENT_TYPE h) n
     = (if n = ''content-type'' then [JSON_CONTENT_TYPE] else get_all h n)"
  by (simp add: set_content_type_def hdr)

lemma get_all_shaped [hdr]:
  "get_all (shape_openai_http_headers h) n
     = (if n \<in> {''content-type'', ''cache-control''} then get_all h n else [])"
  by (auto simp: shape_openai_http_headers_def hdr)

lemma openai_standard_json:
  assumes "\<exists>m t p c. v = openai_error_json m t p c \<and> t \<in> set openai_error_types"
  shows "openai_standard (json_response status (set_content_type JSON_CONTENT_TYPE
    (shape_openai_http_headers h)) v)"
  using assms unfolding openai_standard_def json_response_def names_subset_iff
  by (auto simp: hdr)

lemma openai_body_standard: "\<exists>m t p c. openai_error_body E status payload = openai_error_json m t p c
    \<and> t \<in> set openai_error_types"
  unfolding openai_error_body_def Let_def using normalized_type by blast

lemma openai_error_response_standard [intro]: "openai_standard (openai_error_response E status h payload)"
  unfolding openai_error_response_def by (rule openai_standard_json [OF openai_body_standard])

lemma openai_json_error_standard [intro]:
  "openai_standard (openai_json_error_with_headers E status h m c)" "openai_standard (openai_json_error E status m)"
  by (auto simp: openai_json_error_with_headers_def openai_json_error_def)

lemma sanitized_body_standard:
  "\<exists>m t p c. sanitize_passthrough_openai_error_body E status v body = openai_error_json m t p c
     \<and> t \<in> set openai_error_types"
proof (cases "Option.bind (jget v ''error'') as_object")
  case None
  then show ?thesis using openai_body_standard by (simp add: sanitize_passthrough_openai_error_body_def)
next
  case (Some e)
  then show ?thesis
    unfolding sanitize_passthrough_openai_error_body_def Let_def option.case Some
    using normalized_type by blast
qed

lemma openai_upstream_body_standard [intro]:
  "openai_standard (openai_error_response_from_upstream_body E status h body)"
proof (cases "Option.bind body (parse_json E)")
  case None
  then show ?thesis unfolding openai_error_response_from_upstream_body_def Let_def by auto
next
  case (Some v)
  then show ?thesis
    unfolding openai_error_response_from_upstream_body_def Let_def option.case Some
    by (auto intro: openai_standard_json [OF sanitized_body_standard])
qed

lemma openai_unary_standard: "openai_standard (render_unary_failover_failure E X error OpenAi)"
  unfolding render_unary_failover_failure_def render_gateway_unavailable_response_def
    openai_refresh_failure_response_def openai_transport_error_response_ref_def
    openai_pool_blocked_response_def
  by (cases error) (auto split: transport_error.splits)

text \<open>
  A failure rendered for an OpenAI client is always the standard error object, with a message, one
  of the five error types, a parameter and a code, and no other field of the upstream's body; its content
  type is JSON whatever the upstream said, and of the upstream's headers only the cache control remains.
\<close>

theorem openai_failures_standard:
  "openai_standard (render_failover_failure E X now error OpenAi mode)"
  unfolding render_failover_failure_def by (cases mode) (simp_all add: openai_unary_standard)

text \<open>
  C33: nothing about the pool or about the inside of the gateway is visible to the caller: two failures
  that both count as unavailability are answered alike, whichever account failed and however, a blocked
  pool and a failed refresh among them; so are transport errors other than an answer of the upstream; and
  the detail of an internal failure does not change the answer.
\<close>

theorem failures_reveal_nothing:
  "(gateway_failure_kind E e1 = GatewayUnavailable \<and> gateway_failure_kind E e2 = GatewayUnavailable
      \<longrightarrow> render_failover_failure E X now e1 shape mode = render_failover_failure E X now e2 shape mode)
   \<and> gateway_failure_kind E (FoRefresh rf) = GatewayUnavailable
   \<and> gateway_failure_kind E (FoPoolBlocked summary) = GatewayUnavailable
   \<and> gateway_failure_kind E (FoTransport Timeout) = GatewayUnavailable
   \<and> gateway_failure_kind E (FoTransport RetryLimit) = GatewayUnavailable
   \<and> gateway_failure_kind E (FoTransport (Network detail1)) = GatewayUnavailable
   \<and> gateway_failure_kind E (FoTransport (Build detail1)) = GatewayUnavailable
   \<and> render_failover_failure E X now (FoInternal status detail1) shape mode
       = render_failover_failure E X now (FoInternal status detail2) shape mode"
  by (cases mode; cases shape)
    (simp_all add: render_failover_failure_def render_unary_failover_failure_def pre_stream_payload_def
      render_codex_pre_stream_failure_def gateway_failure_kind_def downstream_failure_kind_def)

theorem failures_reveal_nothing_witness:
  "render_failover_failure sample_externals sample_client_externals 0
      (FoPoolBlocked \<lparr>pbs_blocked_reason = BrAuthInvalid, pbs_blocked_until = None, pbs_retry_after = None\<rparr>)
      Codex UnaryJson
   = render_failover_failure sample_externals sample_client_externals 0 (FoTransport (Network ''10.0.0.1'')) Codex UnaryJson"
  using failures_reveal_nothing [of sample_externals
      "FoPoolBlocked \<lparr>pbs_blocked_reason = BrAuthInvalid, pbs_blocked_until = None, pbs_retry_after = None\<rparr>"
      "FoTransport (Network ''10.0.0.1'')" sample_client_externals 0 Codex UnaryJson
      "\<lparr>rf_status = 502, rf_body = [], rf_class = TemporaryFailure, rf_retry_after = None\<rparr>"
      "\<lparr>pbs_blocked_reason = BrAuthInvalid, pbs_blocked_until = None, pbs_retry_after = None\<rparr>"
      "''10.0.0.1''" 500 "[]"]
  by blast

end
