(* ===== verification/Models_Cache.thy ===== *)
theory Models_Cache
  imports Http_Headers Sse_Stream
begin

text \<open>
  \<open>src/models.rs\<close>: the snapshot of the upstream's list of models, its cache, the shape of API a
  caller speaks, and the default for parallel tool calls.
\<close>

section \<open>Snapshots\<close>

text \<open>
  \<open>ModelsResponse\<close> of the Codex protocol, as far as the sources look into it, with its serialization;
  \<open>decode_models\<close> is \<open>serde_json::from_value\<close> for it.
\<close>

record model_info =
  mi_slug :: string
  mi_supports_parallel_tool_calls :: bool

record models_response =
  mr_models :: "model_info list"
  mr_json :: "string + json"

type_synonym decode_models = "json \<Rightarrow> string + models_response"

record models_snapshot =
  sn_codex_json :: json
  sn_openai_json :: json
  sn_parallel_tool_calls_by_slug :: "(string \<times> bool) list"

definition MODELS_CACHE_TTL :: duration where
  "MODELS_CACHE_TTL = from_secs (12 * 60 * 60)"

definition OPENAI_MODEL_CREATED :: int where
  "OPENAI_MODEL_CREATED = 0"

definition OPENAI_MODEL_OWNED_BY :: string where
  "OPENAI_MODEL_OWNED_BY = ''openai''"

definition openai_model_json :: "model_info \<Rightarrow> json" where
  "openai_model_json m =
     JObject [(''id'', JString (mi_slug m)), (''object'', JString ''model''),
       (''created'', JNumber (JInt OPENAI_MODEL_CREATED)), (''owned_by'', JString OPENAI_MODEL_OWNED_BY)]"

text \<open>A slug that occurs twice keeps its last flag, as it does when a \<open>HashMap\<close> is collected.\<close>

definition snapshot_from_response :: "models_response \<Rightarrow> string + models_snapshot" where
  "snapshot_from_response response =
     (case mr_json response of
        Inl e \<Rightarrow> Inl ''serialize cached Codex models response''
      | Inr codex_json \<Rightarrow>
          Inr \<lparr>sn_codex_json = codex_json,
               sn_openai_json =
                 JObject [(''object'', JString ''list''),
                   (''data'', JArray (map openai_model_json (mr_models response)))],
               sn_parallel_tool_calls_by_slug =
                 foldl (\<lambda>m i. AList.update (mi_slug i) (mi_supports_parallel_tool_calls i) m) []
                   (mr_models response)\<rparr>)"

definition snapshot_from_value :: "decode_models \<Rightarrow> json \<Rightarrow> string + models_snapshot" where
  "snapshot_from_value decode v =
     (case decode v of
        Inl e \<Rightarrow> Inl ''decode models response as Codex models list''
      | Inr response \<Rightarrow> snapshot_from_response response)"

definition supports_parallel_tool_calls :: "models_snapshot \<Rightarrow> string \<Rightarrow> bool" where
  "supports_parallel_tool_calls sn slug = or_else (map_of (sn_parallel_tool_calls_by_slug sn) slug) True"

section \<open>The cache\<close>

record models_cache =
  mc_snapshot :: "models_snapshot option"
  mc_response_headers :: header_map
  mc_fetched_at :: "time option"

definition empty_models_cache :: models_cache where
  "empty_models_cache = \<lparr>mc_snapshot = None, mc_response_headers = [], mc_fetched_at = None\<rparr>"

definition cache_current :: "models_cache \<Rightarrow> models_snapshot option" where
  "cache_current c = mc_snapshot c"

definition cache_current_entry :: "models_cache \<Rightarrow> (models_snapshot \<times> header_map) option" where
  "cache_current_entry c = map_option (\<lambda>s. (s, mc_response_headers c)) (mc_snapshot c)"

text \<open>\<open>Instant::elapsed\<close> is at least zero.\<close>

definition cache_fresh_entry :: "time \<Rightarrow> models_cache \<Rightarrow> (models_snapshot \<times> header_map) option" where
  "cache_fresh_entry now c =
     (case mc_fetched_at c of
        None \<Rightarrow> None
      | Some t \<Rightarrow> if nat (now - t) \<le> MODELS_CACHE_TTL then cache_current_entry c else None)"

definition cache_replace :: "time \<Rightarrow> models_snapshot \<Rightarrow> header_map \<Rightarrow> models_cache" where
  "cache_replace now sn headers =
     \<lparr>mc_snapshot = Some sn, mc_response_headers = headers, mc_fetched_at = Some now\<rparr>"

section \<open>Shape and defaults\<close>

definition response_shape_for_headers :: "header_map \<Rightarrow> response_shape" where
  "response_shape_for_headers headers =
     (case hdr_get_str headers ''originator'' of
        None \<Rightarrow> OpenAi
      | Some originator \<Rightarrow> if starts_with originator ''codex'' then Codex else OpenAi)"

definition default_parallel_tool_calls :: "json option \<Rightarrow> models_snapshot option \<Rightarrow> bool" where
  "default_parallel_tool_calls model snapshot =
     (case Option.bind model as_str of
        None \<Rightarrow> True
      | Some s \<Rightarrow>
          (case snapshot of
             None \<Rightarrow> True
           | Some sn \<Rightarrow> supports_parallel_tool_calls sn (str_trim s)))"

end
