(* ===== verification/Request_Normalization.thy ===== *)
theory Request_Normalization
  imports Models_Cache Upstream_Headers
begin

text \<open>
  \<open>src/request_normalization.rs\<close>: how the body of a request is adapted before it is sent, and the
  control field with which a caller overrides the session source.
\<close>

section \<open>The code\<close>

definition GATEWAY_CONTROL_FIELD :: string where
  "GATEWAY_CONTROL_FIELD = ''_gateway''"

text \<open>\<open>get_mut\<close> followed by a change of the member in place.\<close>

definition obj_modify :: "string \<Rightarrow> (json \<Rightarrow> json) \<Rightarrow> json_object \<Rightarrow> json_object" where
  "obj_modify k f m = (case map_of m k of None \<Rightarrow> m | Some v \<Rightarrow> obj_insert k (f v) m)"

definition normalize_instructions_field :: "json_object \<Rightarrow> json_object" where
  "normalize_instructions_field obj =
     (case map_of obj ''instructions'' of
        Some v \<Rightarrow> if is_null v then obj_insert ''instructions'' (JString []) obj else obj
      | None \<Rightarrow> obj_insert ''instructions'' (JString []) obj)"

definition input_message :: "string \<Rightarrow> json" where
  "input_message s =
     JArray [JObject
       [(''type'', JString ''message''), (''role'', JString ''user''),
        (''content'', JArray [JObject [(''type'', JString ''input_text''), (''text'', JString s)]])]]"

definition normalize_string_input_to_message :: "json_object \<Rightarrow> json_object" where
  "normalize_string_input_to_message obj =
     (case Option.bind (map_of obj ''input'') as_str of
        None \<Rightarrow> obj
      | Some s \<Rightarrow> obj_insert ''input'' (input_message s) obj)"

definition normalize_builtin_tool_type :: "string \<Rightarrow> string option" where
  "normalize_builtin_tool_type t =
     (if t = ''web_search_preview'' \<or> t = ''web_search_preview_2025_03_11'' then Some ''web_search''
      else None)"

definition normalize_builtin_tool_alias_type :: "json \<Rightarrow> json" where
  "normalize_builtin_tool_alias_type v =
     (case Option.bind (as_str v) normalize_builtin_tool_type of
        None \<Rightarrow> v
      | Some normalized \<Rightarrow> JString normalized)"

definition normalize_builtin_tool_alias :: "json \<Rightarrow> json" where
  "normalize_builtin_tool_alias tool =
     (case tool of
        JObject m \<Rightarrow> JObject (obj_modify ''type'' normalize_builtin_tool_alias_type m)
      | _ \<Rightarrow> tool)"

definition normalize_builtin_tool_aliases :: "json \<Rightarrow> json" where
  "normalize_builtin_tool_aliases v =
     (case v of JArray tools \<Rightarrow> JArray (map normalize_builtin_tool_alias tools) | _ \<Rightarrow> v)"

definition normalize_builtin_tool_choice_string :: "json \<Rightarrow> json" where
  "normalize_builtin_tool_choice_string v =
     (case as_str v of
        None \<Rightarrow> v
      | Some tool_type \<Rightarrow>
          (case (if tool_type = ''web_search'' then Some ''web_search''
                 else normalize_builtin_tool_type tool_type) of
             None \<Rightarrow> v
           | Some normalized \<Rightarrow> JObject [(''type'', JString normalized)]))"

definition normalize_tool_choice_aliases :: "json \<Rightarrow> json" where
  "normalize_tool_choice_aliases tool_choice =
     (case tool_choice of
        JString _ \<Rightarrow> normalize_builtin_tool_choice_string tool_choice
      | JObject m \<Rightarrow>
          JObject (obj_modify ''tools'' normalize_builtin_tool_aliases
            (obj_modify ''type'' normalize_builtin_tool_alias_type m))
      | _ \<Rightarrow> tool_choice)"

definition unsupported_fields :: "string list" where
  "unsupported_fields =
     [''max_output_tokens'', ''max_completion_tokens'', ''temperature'', ''top_p'', ''truncation'',
      ''user'']"

definition normalize_non_codex_responses_compatibility :: "json_object \<Rightarrow> json_object" where
  "normalize_non_codex_responses_compatibility obj =
     (let o1 = foldl (\<lambda>m k. obj_remove k m) obj unsupported_fields;
          o2 = (if map_of o1 ''service_tier'' = Some (JString ''priority'') then o1
                else obj_remove ''service_tier'' o1);
          o3 = obj_modify ''tools'' normalize_builtin_tool_aliases o2
      in obj_modify ''tool_choice'' normalize_tool_choice_aliases o3)"

definition normalize_responses_request_body ::
  "fingerprint_mode \<Rightarrow> bool \<Rightarrow> models_snapshot option \<Rightarrow> json \<Rightarrow> json" where
  "normalize_responses_request_body mode codex_originator snapshot body =
     (case body of
        JObject obj \<Rightarrow>
          (let o1 = (if codex_originator then obj
                     else normalize_string_input_to_message
                            (normalize_non_codex_responses_compatibility obj))
           in if mode \<noteq> Normalize then JObject o1
              else
                (let o2 = normalize_instructions_field o1;
                     d = JBool (default_parallel_tool_calls (map_of o2 ''model'') snapshot);
                     o3 = obj_or_insert ''store'' (JBool False) o2
                 in JObject (obj_or_insert ''parallel_tool_calls'' d o3)))
      | _ \<Rightarrow> body)"

definition normalize_compact_request_body ::
  "fingerprint_mode \<Rightarrow> bool \<Rightarrow> models_snapshot option \<Rightarrow> json \<Rightarrow> json" where
  "normalize_compact_request_body mode codex_originator snapshot body =
     (case body of
        JObject obj \<Rightarrow>
          (let o1 = (if codex_originator then obj else normalize_string_input_to_message obj)
           in if mode \<noteq> Normalize then JObject o1
              else
                (let o2 = normalize_instructions_field o1;
                     d = JBool (default_parallel_tool_calls (map_of o2 ''model'') snapshot)
                 in JObject (obj_or_insert ''parallel_tool_calls'' d o2)))
      | _ \<Rightarrow> body)"

fun json_type_name :: "json \<Rightarrow> string" where
  "json_type_name JNull = ''null''"
| "json_type_name (JBool _) = ''boolean''"
| "json_type_name (JNumber _) = ''number''"
| "json_type_name (JString _) = ''string''"
| "json_type_name (JArray _) = ''array''"
| "json_type_name (JObject _) = ''object''"

text \<open>
  \<open>read\<close> is \<open>serde_json::from_value::<SessionSource>\<close> and \<open>print\<close> is \<open>to_string\<close> on the result.
\<close>

record session_source_codec =
  ssc_read :: "json \<Rightarrow> string + session_source"
  ssc_print :: "session_source \<Rightarrow> string + string"

definition apply_session_source_override ::
  "session_source_codec \<Rightarrow> header_map \<Rightarrow> json \<Rightarrow> string + header_map" where
  "apply_session_source_override S headers session_source =
     (if is_null session_source then Inr (hdr_remove ''x-codex-session-source'' headers)
      else case ssc_read S session_source of
        Inl e \<Rightarrow> Inl (''session_source must match codex_protocol::SessionSource JSON: '' @ e)
      | Inr parsed \<Rightarrow>
          (case ssc_print S parsed of
             Inl e \<Rightarrow> Inl (''invalid session_source: '' @ e)
           | Inr encoded \<Rightarrow> Inr (insert_header ''x-codex-session-source'' encoded headers)))"

definition apply_body_gateway_overrides ::
  "session_source_codec \<Rightarrow> header_map \<Rightarrow> json \<Rightarrow> string + (header_map \<times> json)" where
  "apply_body_gateway_overrides S headers body =
     (case body of
        JObject obj \<Rightarrow>
          (let body' = JObject (obj_remove GATEWAY_CONTROL_FIELD obj);
               gateway = or_else (map_of obj GATEWAY_CONTROL_FIELD) JNull
           in case gateway of
                JNull \<Rightarrow> Inr (headers, body')
              | JObject g \<Rightarrow>
                  (case map_of g ''session_source'' of
                     None \<Rightarrow> Inr (headers, body')
                   | Some session_source \<Rightarrow>
                       (case apply_session_source_override S headers session_source of
                          Inl e \<Rightarrow> Inl e
                        | Inr headers' \<Rightarrow> Inr (headers', body')))
              | other \<Rightarrow> Inl (''_gateway must be null or object; got '' @ json_type_name other))
      | _ \<Rightarrow> Inr (headers, body))"


section \<open>Objects\<close>

named_theorems norm \<open>looking up a member after a change of an object\<close>

lemma obj_insert_same: "map_of m k = Some v \<Longrightarrow> obj_insert k v m = m"
  unfolding obj_insert_def by (induction m) (auto split: if_splits)

lemma obj_remove_absent: "map_of m k = None \<Longrightarrow> obj_remove k m = m"
  by (induction m) (auto split: if_splits)

lemma map_of_obj_modify [norm]:
  "map_of (obj_modify k f m) x = (if x = k then map_option f (map_of m k) else map_of m x)"
  by (auto simp: obj_modify_def split: option.split)

lemma obj_modify_fixed: "map_option f (map_of m k) = map_of m k \<Longrightarrow> obj_modify k f m = m"
  by (auto simp: obj_modify_def obj_insert_same split: option.splits)

lemma distinct_obj_modify [norm]: "distinct (map fst m) \<Longrightarrow> distinct (map fst (obj_modify k f m))"
  by (auto simp: obj_modify_def split: option.split)

lemma map_of_or_insert [norm]:
  "map_of (obj_or_insert k v m) x = (if x = k then Some (or_else (map_of m k) v) else map_of m x)"
  by (auto simp: obj_or_insert_def or_else_def split: option.split)

lemma or_insert_present: "map_of m k \<noteq> None \<Longrightarrow> obj_or_insert k v m = m"
  by (auto simp: obj_or_insert_def)

lemma removes_distinct:
  "distinct (map fst m) \<Longrightarrow> distinct (map fst (foldl (\<lambda>m k. obj_remove k m) m ks))"
  by (induction ks arbitrary: m) (simp_all add: distinct_obj_remove)

lemma map_of_removes:
  "distinct (map fst m) \<Longrightarrow>
   map_of (foldl (\<lambda>m k. obj_remove k m) m ks) x = (if x \<in> set ks then None else map_of m x)"
  by (induction ks arbitrary: m) (auto simp: distinct_obj_remove map_of_obj_remove)

lemma removes_absent:
  "\<forall>k\<in>set ks. map_of m k = None \<Longrightarrow> foldl (\<lambda>m k. obj_remove k m) m ks = m"
  by (induction ks) (simp_all add: obj_remove_absent)

section \<open>The rewriting of values\<close>

lemma alias_type_idem [simp]:
  "normalize_builtin_tool_alias_type (normalize_builtin_tool_alias_type v) = normalize_builtin_tool_alias_type v"
proof (cases v)
  case (JString s)
  then show ?thesis
    by (simp add: normalize_builtin_tool_alias_type_def normalize_builtin_tool_type_def)
qed (simp_all add: normalize_builtin_tool_alias_type_def)

lemma alias_idem [simp]:
  "normalize_builtin_tool_alias (normalize_builtin_tool_alias v) = normalize_builtin_tool_alias v"
proof (cases v)
  case (JObject m)
  then show ?thesis
    by (auto simp: normalize_builtin_tool_alias_def norm option.map_comp comp_def intro!: obj_modify_fixed)
qed (simp_all add: normalize_builtin_tool_alias_def)

lemma aliases_idem [simp]:
  "normalize_builtin_tool_aliases (normalize_builtin_tool_aliases v) = normalize_builtin_tool_aliases v"
  by (cases v) (simp_all add: normalize_builtin_tool_aliases_def)

lemma choice_object_idem:
  "normalize_tool_choice_aliases (normalize_tool_choice_aliases (JObject m)) = normalize_tool_choice_aliases (JObject m)"
proof -
  let ?m = "obj_modify ''tools'' normalize_builtin_tool_aliases
      (obj_modify ''type'' normalize_builtin_tool_alias_type m)"
  have "obj_modify ''type'' normalize_builtin_tool_alias_type ?m = ?m"
    by (rule obj_modify_fixed) (simp add: norm option.map_comp comp_def)
  moreover have "obj_modify ''tools'' normalize_builtin_tool_aliases ?m = ?m"
    by (rule obj_modify_fixed) (simp add: norm option.map_comp comp_def)
  ultimately show ?thesis by (simp add: normalize_tool_choice_aliases_def)
qed

lemma choice_idem [simp]:
  "normalize_tool_choice_aliases (normalize_tool_choice_aliases v) = normalize_tool_choice_aliases v"
proof (cases v)
  case (JString s)
  show ?thesis
  proof (cases "normalize_builtin_tool_choice_string v = v")
    case True
    with JString show ?thesis by (simp add: normalize_tool_choice_aliases_def)
  next
    case False
    with JString have "normalize_tool_choice_aliases v = JObject [(''type'', JString ''web_search'')]"
      by (auto simp: normalize_tool_choice_aliases_def normalize_builtin_tool_choice_string_def
          normalize_builtin_tool_type_def split: if_splits)
    moreover have "normalize_tool_choice_aliases (JObject [(''type'', JString ''web_search'')])
        = JObject [(''type'', JString ''web_search'')]"
      by (simp add: normalize_tool_choice_aliases_def obj_modify_def normalize_builtin_tool_alias_type_def
          normalize_builtin_tool_type_def obj_insert_def)
    ultimately show ?thesis by simp
  qed
next
  case (JObject m)
  then show ?thesis using choice_object_idem by simp
qed (simp_all add: normalize_tool_choice_aliases_def)

section \<open>The rewriting of requests\<close>

definition lift_input :: "json \<Rightarrow> json" where
  "lift_input v = (case v of JString s \<Rightarrow> input_message s | _ \<Rightarrow> v)"

lemma lift_input_idem [simp]: "lift_input (lift_input v) = lift_input v"
  by (cases v) (simp_all add: lift_input_def input_message_def)

lemma map_of_string_input [norm]:
  "map_of (normalize_string_input_to_message m) x
     = (if x = ''input'' then map_option lift_input (map_of m x) else map_of m x)"
  by (cases "map_of m ''input''")
    (auto simp: normalize_string_input_to_message_def lift_input_def split: json.split option.splits)

lemma string_input_fixed:
  "map_option lift_input (map_of m ''input'') = map_of m ''input'' \<Longrightarrow> normalize_string_input_to_message m = m"
  by (cases "map_of m ''input''")
    (auto simp: normalize_string_input_to_message_def lift_input_def input_message_def obj_insert_same
      split: json.splits)

lemma map_of_compatibility:
  assumes "distinct (map fst m)"
  shows "map_of (normalize_non_codex_responses_compatibility m) x
     = (if x \<in> set unsupported_fields then None
        else if x = ''service_tier''
        then (if map_of m x = Some (JString ''priority'') then Some (JString ''priority'') else None)
        else if x = ''tools'' then map_option normalize_builtin_tool_aliases (map_of m x)
        else if x = ''tool_choice'' then map_option normalize_tool_choice_aliases (map_of m x)
        else map_of m x)"
proof -
  have u: "''service_tier'' \<notin> set unsupported_fields" "''tools'' \<notin> set unsupported_fields"
      "''tool_choice'' \<notin> set unsupported_fields"
    by (simp_all add: unsupported_fields_def)
  let ?m = "foldl (\<lambda>m k. obj_remove k m) m unsupported_fields"
  have d: "distinct (map fst ?m)" using assms by (rule removes_distinct)
  show ?thesis
    unfolding normalize_non_codex_responses_compatibility_def Let_def
    using u by (auto simp: norm map_of_obj_remove [OF d] map_of_removes [OF assms])
qed

lemma compatibility_fixed:
  assumes "\<forall>k\<in>set unsupported_fields. map_of m k = None"
    and "map_of m ''service_tier'' \<in> {None, Some (JString ''priority'')}"
    and "map_option normalize_builtin_tool_aliases (map_of m ''tools'') = map_of m ''tools''"
    and "map_option normalize_tool_choice_aliases (map_of m ''tool_choice'') = map_of m ''tool_choice''"
  shows "normalize_non_codex_responses_compatibility m = m"
  using assms(2)
  by (auto simp: normalize_non_codex_responses_compatibility_def Let_def removes_absent [OF assms(1)]
      obj_modify_fixed [OF assms(3)] obj_modify_fixed [OF assms(4)] obj_remove_absent)

lemma map_of_instructions [norm]:
  "map_of (normalize_instructions_field m) x
     = (if x = ''instructions''
        then Some (case map_of m x of None \<Rightarrow> JString [] | Some v \<Rightarrow> if is_null v then JString [] else v)
        else map_of m x)"
  by (auto simp: normalize_instructions_field_def split: option.split)

lemma instructions_fixed:
  "map_of m ''instructions'' = Some v \<Longrightarrow> v \<noteq> JNull \<Longrightarrow> normalize_instructions_field m = m"
  by (simp add: normalize_instructions_field_def is_null_def)

text \<open>The objects that the normalisation leaves alone.\<close>

definition settled_object :: "fingerprint_mode \<Rightarrow> bool \<Rightarrow> json_object \<Rightarrow> bool" where
  "settled_object mode codex m \<longleftrightarrow>
     (codex \<or>
       (\<forall>k\<in>set unsupported_fields. map_of m k = None)
       \<and> map_of m ''service_tier'' \<in> {None, Some (JString ''priority'')}
       \<and> map_option normalize_builtin_tool_aliases (map_of m ''tools'') = map_of m ''tools''
       \<and> map_option normalize_tool_choice_aliases (map_of m ''tool_choice'') = map_of m ''tool_choice''
       \<and> map_option lift_input (map_of m ''input'') = map_of m ''input'')
     \<and> (mode = Passthrough \<or>
       map_of m ''instructions'' \<notin> {None, Some JNull} \<and> map_of m ''store'' \<noteq> None
       \<and> map_of m ''parallel_tool_calls'' \<noteq> None)"

lemma settled_fixed:
  assumes "settled_object mode codex m"
  shows "normalize_responses_request_body mode codex sn (JObject m) = JObject m"
proof -
  have nc: "normalize_string_input_to_message (normalize_non_codex_responses_compatibility m) = m"
    if "\<not> codex"
  proof -
    have c: "\<forall>k\<in>set unsupported_fields. map_of m k = None"
        "map_of m ''service_tier'' \<in> {None, Some (JString ''priority'')}"
        "map_option normalize_builtin_tool_aliases (map_of m ''tools'') = map_of m ''tools''"
        "map_option normalize_tool_choice_aliases (map_of m ''tool_choice'') = map_of m ''tool_choice''"
        "map_option lift_input (map_of m ''input'') = map_of m ''input''"
      using assms that unfolding settled_object_def by blast+
    have "normalize_non_codex_responses_compatibility m = m" by (rule compatibility_fixed [OF c(1-4)])
    moreover have "normalize_string_input_to_message m = m" by (rule string_input_fixed [OF c(5)])
    ultimately show ?thesis by simp
  qed
  have n: "normalize_instructions_field m = m" "obj_or_insert ''store'' v m = m"
      "obj_or_insert ''parallel_tool_calls'' w m = m" if "mode = Normalize" for v w
    using assms that by (auto simp: settled_object_def intro!: instructions_fixed or_insert_present)
  show ?thesis
    by (cases mode) (auto simp: normalize_responses_request_body_def nc n Let_def)
qed

definition normal_object :: "fingerprint_mode \<Rightarrow> bool \<Rightarrow> models_snapshot option \<Rightarrow> json_object \<Rightarrow> json_object"
where
  "normal_object mode codex sn m =
     (case normalize_responses_request_body mode codex sn (JObject m) of JObject m' \<Rightarrow> m' | _ \<Rightarrow> [])"

lemma normal_object: "normalize_responses_request_body mode codex sn (JObject m) = JObject (normal_object mode codex sn m)"
  by (simp add: normal_object_def normalize_responses_request_body_def Let_def)

definition rewritten_fields :: "string list" where
  "rewritten_fields =
     unsupported_fields @ [''service_tier'', ''tools'', ''tool_choice'', ''input'', ''instructions'',
       ''store'', ''parallel_tool_calls'']"


lemma map_of_normal_object:
  assumes "distinct (map fst m)"
  shows "map_of (normal_object mode codex sn m) x =
     (let m1 = (if codex then m
                else normalize_string_input_to_message (normalize_non_codex_responses_compatibility m))
      in if mode = Passthrough then map_of m1 x
         else if x = ''instructions''
         then Some (case map_of m1 x of None \<Rightarrow> JString [] | Some v \<Rightarrow> if is_null v then JString [] else v)
         else if x = ''store'' then Some (or_else (map_of m1 x) (JBool False))
         else if x = ''parallel_tool_calls''
         then Some (or_else (map_of m1 x) (JBool (default_parallel_tool_calls (map_of m1 ''model'') sn)))
         else map_of m1 x)"
  by (cases mode) (simp_all add: normal_object_def normalize_responses_request_body_def Let_def norm)

lemma untouched:
  assumes "distinct (map fst m)" "k \<notin> set rewritten_fields"
  shows "map_of (normal_object mode codex sn m) k = map_of m k"
  using assms(2) unfolding map_of_normal_object [OF assms(1)] rewritten_fields_def
  by (auto simp: Let_def norm map_of_compatibility [OF assms(1)])

lemma settled_normal:
  assumes "distinct (map fst m)"
  shows "settled_object mode codex (normal_object mode codex sn m)"
proof -
  let ?m = "normal_object mode codex sn m"
  note look = map_of_normal_object [OF assms]
  have u: "k \<notin> {''service_tier'', ''tools'', ''tool_choice'', ''input'', ''instructions'', ''store'',
      ''parallel_tool_calls''}" if "k \<in> set unsupported_fields" for k
    using that by (auto simp: unsupported_fields_def)
  have nc: "(\<forall>k\<in>set unsupported_fields. map_of ?m k = None)"
      "map_of ?m ''service_tier'' \<in> {None, Some (JString ''priority'')}"
      "map_option normalize_builtin_tool_aliases (map_of ?m ''tools'') = map_of ?m ''tools''"
      "map_option normalize_tool_choice_aliases (map_of ?m ''tool_choice'') = map_of ?m ''tool_choice''"
      "map_option lift_input (map_of ?m ''input'') = map_of ?m ''input''" if "\<not> codex"
  proof -
    show "\<forall>k\<in>set unsupported_fields. map_of ?m k = None"
      using that u by (auto simp: look Let_def norm map_of_compatibility [OF assms])
    have n: "x \<notin> set unsupported_fields"
      if "x \<in> {''service_tier'', ''tools'', ''tool_choice'', ''input''}" for x
      using that u by auto
    show "map_of ?m ''service_tier'' \<in> {None, Some (JString ''priority'')}"
      "map_option normalize_builtin_tool_aliases (map_of ?m ''tools'') = map_of ?m ''tools''"
      "map_option normalize_tool_choice_aliases (map_of ?m ''tool_choice'') = map_of ?m ''tool_choice''"
      "map_option lift_input (map_of ?m ''input'') = map_of ?m ''input''"
      using that n
      by (simp_all add: look Let_def norm map_of_compatibility [OF assms] option.map_comp comp_def)
  qed
  have "map_of ?m ''instructions'' \<notin> {None, Some JNull}" "map_of ?m ''store'' \<noteq> None"
      "map_of ?m ''parallel_tool_calls'' \<noteq> None" if "mode = Normalize"
    using that by (simp_all add: look Let_def is_null_def split: option.split)
  with nc show ?thesis unfolding settled_object_def by (cases mode; cases codex) simp_all
qed

text \<open>
  C34: normalising the body of a responses request twice is the same as doing it once; every member
  outside of the rewritten ones is kept; the body of a Codex caller in passthrough mode is not changed
  at all; and the body of another caller has afterwards none of the parameters that the upstream
  rejects, no service tier but \<open>priority\<close>, and no plain string as input.
\<close>

theorem responses_normalization:
  assumes "distinct (map fst obj)" and "k \<notin> set rewritten_fields"
  shows "let N = normalize_responses_request_body mode codex sn; body = N (JObject obj)
    in N body = body \<and> jget body k = map_of obj k
       \<and> normalize_responses_request_body Passthrough True sn (JObject obj) = JObject obj
       \<and> (codex
          \<or> jget body ''temperature'' = None \<and> jget body ''top_p'' = None \<and> jget body ''user'' = None
            \<and> jget body ''truncation'' = None \<and> jget body ''max_output_tokens'' = None
            \<and> jget body ''max_completion_tokens'' = None
            \<and> jget body ''service_tier'' \<in> {None, Some (JString ''priority'')}
            \<and> jget_str body ''input'' = None)"
proof -
  let ?m = "normal_object mode codex sn obj"
  have s: "settled_object mode codex ?m" by (rule settled_normal [OF assms(1)])
  have input: "jget_str (JObject ?m) ''input'' = None" if "\<not> codex"
  proof (cases "map_of ?m ''input''")
    case None
    then show ?thesis by (simp add: jget_str_def jget_def)
  next
    case (Some v)
    with s that have "lift_input v = v" by (simp add: settled_object_def)
    then have "as_str v = None" by (cases v) (simp_all add: lift_input_def input_message_def)
    with Some show ?thesis by (simp add: jget_str_def jget_def)
  qed
  have "normalize_responses_request_body Passthrough True sn (JObject obj) = JObject obj"
    by (simp add: normalize_responses_request_body_def)
  moreover have "normalize_responses_request_body mode codex sn (JObject ?m) = JObject ?m"
    by (rule settled_fixed [OF s])
  moreover have "jget (JObject ?m) k = map_of obj k"
    using untouched [OF assms] by (simp add: jget_def)
  ultimately show ?thesis
    unfolding Let_def normal_object using s input
    by (cases codex) (simp_all add: settled_object_def jget_def unsupported_fields_def)
qed

theorem responses_normalization_witness:
  "let obj = [(''model'', JString ''gpt''), (''input'', JString ''hi''), (''temperature'', JNumber (JInt 1))];
       N = normalize_responses_request_body Normalize False None
   in N (N (JObject obj)) = N (JObject obj) \<and> jget (N (JObject obj)) ''model'' = Some (JString ''gpt'')"
proof -
  let ?obj = "[(''model'', JString ''gpt''), (''input'', JString ''hi''), (''temperature'', JNumber (JInt 1))]"
  have "distinct (map fst ?obj)" by simp
  moreover have "''model'' \<notin> set rewritten_fields"
    by (simp add: rewritten_fields_def unsupported_fields_def)
  ultimately show ?thesis
    using responses_normalization [of ?obj "''model''" Normalize False None] by (simp add: Let_def)
qed

end
