(* ===== verification/Ws_Protocol.thy ===== *)
theory Ws_Protocol
  imports Request_Normalization Event_Errors
begin

text \<open>
  \<open>src/responses/websocket/protocol.rs\<close>: what the websocket proxy does to single messages: the
  rewriting of requests, of rate limit events and of a lost previous response, the test for messages
  that commit or end a request, and the translation of close frames.
\<close>

section \<open>Messages\<close>

text \<open>The messages of the caller (\<open>axum\<close>); those of the upstream are \<open>ws_message\<close>.\<close>

datatype client_message =
  ClText string | ClBinary string | ClPing string | ClPong string | ClClose "close_frame option"

definition websocket_message_type :: "externals \<Rightarrow> string \<Rightarrow> string option" where
  "websocket_message_type E s = Option.bind (parse_json E s) (\<lambda>v. jget_str v ''type'')"

definition normalize_rate_limit_window_used_percent :: "json \<Rightarrow> json" where
  "normalize_rate_limit_window_used_percent window =
     (case window of
        JObject m \<Rightarrow> JObject (obj_insert ''used_percent'' (JNumber (JFloat ''0.0'')) m)
      | _ \<Rightarrow> window)"

definition normalize_rate_limit_event_payload :: "externals \<Rightarrow> string \<Rightarrow> string option" where
  "normalize_rate_limit_event_payload E s =
     (case parse_json E s of
        Some (JObject obj) \<Rightarrow>
          if jget_str (JObject obj) ''type'' \<noteq> Some ''codex.rate_limits'' then None
          else (case map_of obj ''rate_limits'' of
                  Some (JObject limits) \<Rightarrow>
                    Some (print_json E (JObject (obj_insert ''rate_limits''
                      (JObject (obj_modify ''secondary'' normalize_rate_limit_window_used_percent
                        (obj_modify ''primary'' normalize_rate_limit_window_used_percent limits))) obj)))
                | _ \<Rightarrow> None)
      | _ \<Rightarrow> None)"

definition normalize_websocket_rate_limit_message ::
  "externals \<Rightarrow> bool \<Rightarrow> ws_message \<Rightarrow> ws_message option" where
  "normalize_websocket_rate_limit_message E codex_originator message =
     (case message of
        WsText s \<Rightarrow>
          if websocket_message_type E s \<noteq> Some ''codex.rate_limits'' then Some message
          else if \<not> codex_originator then None
          else (case normalize_rate_limit_event_payload E s of
                  None \<Rightarrow> Some message
                | Some normalized \<Rightarrow> Some (WsText normalized))
      | _ \<Rightarrow> Some message)"

definition WEBSOCKET_CONNECTION_LIMIT_REACHED_CODE :: string where
  "WEBSOCKET_CONNECTION_LIMIT_REACHED_CODE = ''websocket_connection_limit_reached''"

definition WEBSOCKET_CONNECTION_LIMIT_REACHED_MESSAGE :: string where
  "WEBSOCKET_CONNECTION_LIMIT_REACHED_MESSAGE =
     ''Responses websocket connection limit reached (60 minutes). Create a new websocket connection to continue.''"

definition error_code_of :: "json \<Rightarrow> string option" where
  "error_code_of v = Option.bind (jget v ''error'') (\<lambda>e. jget_str e ''code'')"

definition rewrite_previous_response_not_found_payload :: "externals \<Rightarrow> string \<Rightarrow> string option" where
  "rewrite_previous_response_not_found_payload E s =
     (case parse_json E s of
        None \<Rightarrow> None
      | Some v \<Rightarrow>
          if jget_str v ''type'' \<noteq> Some ''error'' then None
          else if error_code_of v \<noteq> Some ''previous_response_not_found'' then None
          else Some (print_json E (JObject
            [(''type'', JString ''error''), (''status'', JNumber (JInt 400)),
             (''error'', JObject
               [(''type'', JString ''invalid_request_error''),
                (''code'', JString WEBSOCKET_CONNECTION_LIMIT_REACHED_CODE),
                (''message'', JString WEBSOCKET_CONNECTION_LIMIT_REACHED_MESSAGE)])])))"

definition rewrite_previous_response_not_found_message :: "externals \<Rightarrow> ws_message \<Rightarrow> ws_message" where
  "rewrite_previous_response_not_found_message E message =
     (case message of
        WsText s \<Rightarrow>
          (case rewrite_previous_response_not_found_payload E s of
             None \<Rightarrow> message
           | Some rewritten \<Rightarrow> WsText rewritten)
      | _ \<Rightarrow> message)"

text \<open>
  The comparison with the original in the code does not look at the order of members; the rewriting
  never reorders members without removing one, so that equality of lists is the same test here.
\<close>

definition normalize_response_create_payload ::
  "externals \<Rightarrow> fingerprint_mode \<Rightarrow> bool \<Rightarrow> models_snapshot option \<Rightarrow> string option \<Rightarrow> string
     \<Rightarrow> string option" where
  "normalize_response_create_payload E mode codex_originator snapshot installation_id s =
     (case parse_json E s of
        None \<Rightarrow> None
      | Some original \<Rightarrow>
          if jget_str original ''type'' \<noteq> Some ''response.create'' then None
          else
            (let v1 = normalize_responses_request_body mode codex_originator snapshot original;
                 v2 = (if mode = Normalize then fst (apply_client_metadata_user_thread_source E v1) else v1);
                 v3 = (if mode = Normalize
                       then (case installation_id of
                               Some i \<Rightarrow> fst (apply_client_metadata_installation_id v2 i)
                             | None \<Rightarrow> v2)
                       else v2)
             in if v3 = original then None else Some (print_json E v3)))"

definition normalize_response_create_message ::
  "externals \<Rightarrow> fingerprint_mode \<Rightarrow> bool \<Rightarrow> models_snapshot option \<Rightarrow> string option \<Rightarrow> ws_message
     \<Rightarrow> ws_message" where
  "normalize_response_create_message E mode codex_originator snapshot installation_id message =
     (case message of
        WsText s \<Rightarrow>
          (case normalize_response_create_payload E mode codex_originator snapshot installation_id s of
             None \<Rightarrow> message
           | Some normalized \<Rightarrow> WsText normalized)
      | _ \<Rightarrow> message)"

definition websocket_wrapped_error_has_code :: "externals \<Rightarrow> ws_message \<Rightarrow> string \<Rightarrow> bool" where
  "websocket_wrapped_error_has_code E message expected_code =
     (case message of
        WsText s \<Rightarrow> Option.bind (parse_json E s) error_code_of = Some expected_code
      | _ \<Rightarrow> False)"

definition should_passthrough_retryable_websocket_reset :: "externals \<Rightarrow> bool \<Rightarrow> ws_message \<Rightarrow> bool" where
  "should_passthrough_retryable_websocket_reset E has_pending_uncommitted_request message =
     (has_pending_uncommitted_request
      \<and> websocket_wrapped_error_has_code E message WEBSOCKET_CONNECTION_LIMIT_REACHED_CODE)"

definition is_responses_websocket_request_start :: "externals \<Rightarrow> ws_message \<Rightarrow> bool" where
  "is_responses_websocket_request_start E message =
     (case message of WsText s \<Rightarrow> websocket_message_type E s = Some ''response.create'' | _ \<Rightarrow> False)"

fun should_replay_client_message :: "ws_message \<Rightarrow> bool" where
  "should_replay_client_message (WsText _) = True"
| "should_replay_client_message (WsBinary _) = True"
| "should_replay_client_message _ = False"

fun should_buffer_upstream_message_before_commit :: "ws_message \<Rightarrow> bool" where
  "should_buffer_upstream_message_before_commit (WsText _) = True"
| "should_buffer_upstream_message_before_commit (WsBinary _) = True"
| "should_buffer_upstream_message_before_commit _ = False"

fun upstream_message_commits_request :: "externals \<Rightarrow> ws_message \<Rightarrow> bool" where
  "upstream_message_commits_request E (WsText s) =
     (websocket_message_type E s \<notin>
        Some ` {''error'', ''response.failed'', ''response.incomplete'', ''codex.rate_limits''})"
| "upstream_message_commits_request E (WsBinary _) = True"
| "upstream_message_commits_request E _ = False"

fun upstream_message_is_terminal :: "externals \<Rightarrow> ws_message \<Rightarrow> bool" where
  "upstream_message_is_terminal E (WsText s) =
     (websocket_message_type E s \<in>
        Some ` {''error'', ''response.failed'', ''response.incomplete'', ''response.completed''})"
| "upstream_message_is_terminal E (WsClose _) = True"
| "upstream_message_is_terminal E _ = False"

section \<open>Close frames and translation\<close>

text \<open>\<open>CloseCode\<close> of tungstenite is determined by the number: 1005, 1006 and 1015 have a meaning of
  their own, 1016 to 2999 are reserved, and what is not assigned is bad.\<close>

definition is_wire_legal_close_code :: "nat \<Rightarrow> bool" where
  "is_wire_legal_close_code code =
     (1000 \<le> code \<and> code \<le> 1003 \<or> 1007 \<le> code \<and> code \<le> 1013 \<or> 3000 \<le> code \<and> code \<le> 4999)"

definition sanitize_close_frame :: "close_frame \<Rightarrow> close_frame option" where
  "sanitize_close_frame frame = (if is_wire_legal_close_code (cf_code frame) then Some frame else None)"

fun map_client_message_to_upstream :: "client_message \<Rightarrow> ws_message option" where
  "map_client_message_to_upstream (ClText s) = Some (WsText s)"
| "map_client_message_to_upstream (ClBinary b) = Some (WsBinary b)"
| "map_client_message_to_upstream (ClPing b) = Some (WsPing b)"
| "map_client_message_to_upstream (ClPong b) = Some (WsPong b)"
| "map_client_message_to_upstream (ClClose frame) = Some (WsClose (Option.bind frame sanitize_close_frame))"

fun map_upstream_message_to_client :: "ws_message \<Rightarrow> client_message option" where
  "map_upstream_message_to_client (WsText s) = Some (ClText s)"
| "map_upstream_message_to_client (WsBinary b) = Some (ClBinary b)"
| "map_upstream_message_to_client (WsPing b) = Some (ClPing b)"
| "map_upstream_message_to_client (WsPong b) = Some (ClPong b)"
| "map_upstream_message_to_client (WsClose frame) = Some (ClClose (Option.bind frame sanitize_close_frame))"
| "map_upstream_message_to_client WsFrame = None"

end
