(* ===== verification/Upstream_Http.thy ===== *)
theory Upstream_Http
  imports Upstream_Headers Failover_Unary
begin

text \<open>
  The upstream client (\<open>src/upstream/mod.rs\<close>, \<open>client.rs\<close>, \<open>http.rs\<close>, \<open>refresh.rs\<close>,
  \<open>websocket.rs\<close>): the requests it builds, its retries, the refresh of a token, and the opening of a
  websocket. What the network answers is an argument.
\<close>

section \<open>The client\<close>

record retry_config =
  rc_max_attempts :: nat
  rc_base_delay :: duration
  rc_retry_429 :: bool
  rc_retry_5xx :: bool
  rc_retry_transport :: bool

record retry_on =
  on_429 :: bool
  on_5xx :: bool
  on_transport :: bool

record retry_policy =
  rp_max_attempts :: nat
  rp_base_delay :: duration
  rp_retry_on :: retry_on

definition retry_policy_of :: "retry_config \<Rightarrow> retry_policy" where
  "retry_policy_of c =
     \<lparr>rp_max_attempts = rc_max_attempts c, rp_base_delay = rc_base_delay c,
      rp_retry_on = \<lparr>on_429 = rc_retry_429 c, on_5xx = rc_retry_5xx c,
                     on_transport = rc_retry_transport c\<rparr>\<rparr>"

record provider =
  pv_base_url :: string
  pv_headers :: header_map
  pv_retry :: retry_config

datatype transport_kind = CodexTransport | PassthroughTransport

text \<open>The HTTP clients themselves are left out; a transport is named by its kind.\<close>

record upstream_client =
  uc_provider :: provider
  uc_codex_version :: string
  uc_fingerprint_mode :: fingerprint_mode
  uc_unary_request_timeout :: "duration option"
  uc_stream_request_timeout :: "duration option"
  uc_stream_connect_timeout :: "duration option"
  uc_websocket_connect_timeout :: "duration option"

definition DEFAULT_REQUEST_MAX_RETRIES :: nat where
  "DEFAULT_REQUEST_MAX_RETRIES = 4"

definition DEFAULT_REQUEST_RETRY_DELAY_MS :: nat where
  "DEFAULT_REQUEST_RETRY_DELAY_MS = 200"

definition trim_end_char :: "char \<Rightarrow> string \<Rightarrow> string" where
  "trim_end_char c s = rev (dropWhile (\<lambda>x. x = c) (rev s))"

definition trim_start_char :: "char \<Rightarrow> string \<Rightarrow> string" where
  "trim_start_char c s = dropWhile (\<lambda>x. x = c) s"

definition new_upstream_client ::
  "string \<Rightarrow> string \<Rightarrow> fingerprint_mode \<Rightarrow> nat \<Rightarrow> upstream_client" where
  "new_upstream_client base_url version mode timeout_seconds =
     \<lparr>uc_provider =
        \<lparr>pv_base_url = trim_end_char CHR ''/'' base_url, pv_headers = [],
         pv_retry = \<lparr>rc_max_attempts = DEFAULT_REQUEST_MAX_RETRIES,
                     rc_base_delay = DEFAULT_REQUEST_RETRY_DELAY_MS * 1000000,
                     rc_retry_429 = False, rc_retry_5xx = True, rc_retry_transport = True\<rparr>\<rparr>,
      uc_codex_version = version, uc_fingerprint_mode = mode,
      uc_unary_request_timeout = Some (from_secs timeout_seconds),
      uc_stream_request_timeout = None,
      uc_stream_connect_timeout = Some (from_secs timeout_seconds),
      uc_websocket_connect_timeout = Some (from_secs timeout_seconds)\<rparr>"

section \<open>Requests\<close>

datatype http_method = GET | POST

datatype compression = NoCompression | Zstd

record request =
  rq_method :: http_method
  rq_url :: string
  rq_headers :: header_map
  rq_body :: "json option"
  rq_compression :: compression
  rq_timeout :: "duration option"

definition join_url :: "string \<Rightarrow> string \<Rightarrow> string" where
  "join_url base_url path =
     (let base = trim_end_char CHR ''/'' base_url; p = trim_start_char CHR ''/'' path
      in if p = [] then base else base @ ''/'' @ p)"

definition build_request :: "provider \<Rightarrow> http_method \<Rightarrow> string \<Rightarrow> request" where
  "build_request P m path =
     \<lparr>rq_method = m, rq_url = join_url (pv_base_url P) path, rq_headers = pv_headers P, rq_body = None,
      rq_compression = NoCompression, rq_timeout = None\<rparr>"

definition make_request ::
  "provider \<Rightarrow> gateway_auth \<Rightarrow> http_method \<Rightarrow> string \<Rightarrow> header_map \<Rightarrow> json option \<Rightarrow> request" where
  "make_request P auth m path extra_headers body =
     (let r0 = build_request P m path;
          r1 = r0\<lparr>rq_headers := hdr_extend (rq_headers r0) extra_headers\<rparr>;
          r2 = (case body of Some b \<Rightarrow> r1\<lparr>rq_body := Some b\<rparr> | None \<Rightarrow> r1)
      in r2\<lparr>rq_headers := add_auth_headers_to_header_map auth (rq_headers r2)\<rparr>)"

definition append_client_version_query :: "string \<Rightarrow> request \<Rightarrow> request" where
  "append_client_version_query client_version r =
     (let separator = (if CHR ''?'' \<in> set (rq_url r) then ''&'' else ''?'')
      in r\<lparr>rq_url := rq_url r @ separator @ ''client_version='' @ client_version\<rparr>)"

definition configure_responses_stream_request :: "request \<Rightarrow> request" where
  "configure_responses_stream_request r =
     r\<lparr>rq_headers := hdr_insert ''accept'' ''text/event-stream'' (rq_headers r), rq_compression := Zstd\<rparr>"

definition apply_http_request_timeout :: "duration option \<Rightarrow> request \<Rightarrow> request" where
  "apply_http_request_timeout t r = r\<lparr>rq_timeout := t\<rparr>"

section \<open>Retries\<close>

definition should_retry_http_failure :: "externals \<Rightarrow> status \<Rightarrow> string option \<Rightarrow> bool" where
  "should_retry_http_failure E status body =
     (classify_request_http E status body \<in> {TemporaryFailure, InternalFailure})"

definition should_retry_request_error ::
  "externals \<Rightarrow> retry_policy \<Rightarrow> transport_error \<Rightarrow> nat \<Rightarrow> bool" where
  "should_retry_request_error E P error attempt =
     (if rp_max_attempts P \<le> attempt then False
      else case error of
        Http status _ _ body \<Rightarrow>
          on_429 (rp_retry_on P) \<and> status = 429
          \<or> on_5xx (rp_retry_on P) \<and> is_server_error status \<and> should_retry_http_failure E status body
      | Timeout \<Rightarrow> on_transport (rp_retry_on P)
      | Network _ \<Rightarrow> on_transport (rp_retry_on P)
      | Build _ \<Rightarrow> False
      | RetryLimit \<Rightarrow> False)"

text \<open>
  The loop over the attempts, with the answer of the network to each of them. The second component of
  the result lists the attempts that were made; the sleeps between them are not part of the model.
\<close>

fun retry_attempts ::
  "externals \<Rightarrow> retry_policy \<Rightarrow> request \<Rightarrow> (request \<Rightarrow> nat \<Rightarrow> transport_error + 'v)
     \<Rightarrow> nat list \<Rightarrow> transport_error option \<Rightarrow> (transport_error + 'v) \<times> nat list" where
  "retry_attempts E P req op [] last_error = (Inl (or_else last_error RetryLimit), [])"
| "retry_attempts E P req op (a # as) last_error =
     (case op req a of
        Inr v \<Rightarrow> (Inr v, [a])
      | Inl e \<Rightarrow>
          if should_retry_request_error E P e a
          then (case retry_attempts E P req op as (Some e) of (r, made) \<Rightarrow> (r, a # made))
          else (Inl e, [a]))"

definition execute_with_semantic_retry ::
  "externals \<Rightarrow> retry_policy \<Rightarrow> request \<Rightarrow> (request \<Rightarrow> nat \<Rightarrow> transport_error + 'v)
     \<Rightarrow> (transport_error + 'v) \<times> nat list" where
  "execute_with_semantic_retry E P req op =
     retry_attempts E P req op [0..<Suc (rp_max_attempts P)] None"

section \<open>The calls\<close>

text \<open>The answer of a transport to an attempt; a stream takes some time to connect.\<close>

record 'b network =
  nt_execute :: "transport_kind \<Rightarrow> request \<Rightarrow> nat \<Rightarrow> transport_error + unary_response"
  nt_stream :: "transport_kind \<Rightarrow> request \<Rightarrow> nat \<Rightarrow> duration \<times> (transport_error + (status \<times> header_map \<times> 'b))"

definition http_transport :: "upstream_client \<Rightarrow> transport_kind" where
  "http_transport C =
     (if uc_fingerprint_mode C = Passthrough then PassthroughTransport else CodexTransport)"

definition execute_with ::
  "externals \<Rightarrow> 'b network \<Rightarrow> upstream_client \<Rightarrow> http_method \<Rightarrow> string \<Rightarrow> upstream_account \<Rightarrow> header_map
     \<Rightarrow> json option \<Rightarrow> (request \<Rightarrow> request) \<Rightarrow> (transport_error + unary_response) \<times> nat list" where
  "execute_with E N C m path account extra_headers body configure =
     (let req = make_request (uc_provider C) (new_gateway_auth account) m path extra_headers body;
          req' = configure (apply_http_request_timeout (uc_unary_request_timeout C) req)
      in execute_with_semantic_retry E (retry_policy_of (pv_retry (uc_provider C))) req'
           (nt_execute N (http_transport C)))"

definition stream_with ::
  "externals \<Rightarrow> 'b network \<Rightarrow> upstream_client \<Rightarrow> http_method \<Rightarrow> string \<Rightarrow> upstream_account \<Rightarrow> header_map
     \<Rightarrow> json option \<Rightarrow> (request \<Rightarrow> request)
     \<Rightarrow> (transport_error + (status \<times> header_map \<times> 'b)) \<times> nat list" where
  "stream_with E N C m path account extra_headers body configure =
     (let req = make_request (uc_provider C) (new_gateway_auth account) m path extra_headers body;
          req' = configure (apply_http_request_timeout (uc_stream_request_timeout C) req)
      in execute_with_semantic_retry E (retry_policy_of (pv_retry (uc_provider C))) req'
           (\<lambda>r a. case nt_stream N (http_transport C) r a of (took, answer) \<Rightarrow>
              (case uc_stream_connect_timeout C of
                 Some limit \<Rightarrow> if limit < took then Inl Timeout else answer
               | None \<Rightarrow> answer)))"

definition sanitized_unary ::
  "client_externals \<Rightarrow> (transport_error + unary_response) \<times> nat list
     \<Rightarrow> (transport_error + unary_response) \<times> nat list" where
  "sanitized_unary X r =
     (case r of (Inl e, made) \<Rightarrow> (Inl e, made)
      | (Inr u, made) \<Rightarrow> (Inr (u\<lparr>uu_headers := sanitize_response_headers X (uu_headers u)\<rparr>), made))"

definition post_responses_json ::
  "externals \<Rightarrow> client_externals \<Rightarrow> 'b network \<Rightarrow> upstream_client \<Rightarrow> upstream_account \<Rightarrow> header_map
     \<Rightarrow> json \<Rightarrow> (transport_error + unary_response) \<times> nat list" where
  "post_responses_json E X N C account incoming body =
     (let mode = uc_fingerprint_mode C;
          body' = apply_responses_installation_id (installation_id_for_account X account mode) mode body
      in sanitized_unary X
           (execute_with E N C POST ''responses'' account
             (build_responses_extra_headers E X incoming mode) (Some body') (\<lambda>r. r)))"

definition post_json ::
  "externals \<Rightarrow> client_externals \<Rightarrow> 'b network \<Rightarrow> upstream_client \<Rightarrow> string \<Rightarrow> upstream_account
     \<Rightarrow> header_map \<Rightarrow> json \<Rightarrow> (transport_error + unary_response) \<times> nat list" where
  "post_json E X N C path account incoming body =
     (let mode = uc_fingerprint_mode C; i = installation_id_for_account X account mode
      in sanitized_unary X
           (execute_with E N C POST path account
             (build_unary_extra_headers E X path incoming mode i) (Some body) (\<lambda>r. r)))"

definition get_models ::
  "externals \<Rightarrow> client_externals \<Rightarrow> 'b network \<Rightarrow> upstream_client \<Rightarrow> upstream_account \<Rightarrow> header_map
     \<Rightarrow> (transport_error + unary_response) \<times> nat list" where
  "get_models E X N C account incoming =
     sanitized_unary X
       (execute_with E N C GET ''models'' account
         (build_models_extra_headers incoming (uc_fingerprint_mode C)) None
         (append_client_version_query (uc_codex_version C)))"

definition stream_json ::
  "externals \<Rightarrow> client_externals \<Rightarrow> 'b network \<Rightarrow> upstream_client \<Rightarrow> string \<Rightarrow> upstream_account
     \<Rightarrow> header_map \<Rightarrow> json \<Rightarrow> (transport_error + (status \<times> header_map \<times> 'b)) \<times> nat list" where
  "stream_json E X N C path account incoming body =
     (let mode = uc_fingerprint_mode C;
          body' = apply_responses_installation_id (installation_id_for_account X account mode) mode body
      in case stream_with E N C POST path account (build_responses_extra_headers E X incoming mode)
                (Some body') configure_responses_stream_request of
           (Inl e, made) \<Rightarrow> (Inl e, made)
         | (Inr (status, h, bytes), made) \<Rightarrow> (Inr (status, sanitize_response_headers X h, bytes), made))"


section \<open>Token refresh and websockets\<close>

text \<open>
  \<^item> \<open>oauth_client_id\<close>: \<open>CLIENT_ID\<close> of the Codex login;
  \<^item> \<open>decode_refresh\<close>: the body of an answer, when it arrives, as \<open>RefreshResponse\<close>, its two
    optional fields;
  \<^item> \<open>jwt_claims\<close>, \<open>jwt_expiration\<close>: the claims (account, plan, email) and the expiry of a token;
  \<^item> \<open>url_parse\<close>: \<open>Url::parse\<close>, as scheme and the rest with its colon;
  \<^item> \<open>client_request\<close>: the headers of the handshake request of a URL;
  \<^item> \<open>tls_config\<close>: the error of building the TLS configuration;
  \<^item> \<open>from_utf8\<close>: \<open>String::from_utf8\<close>.
\<close>

datatype url = Url string string

datatype ws_error =
  WsHttp status header_map "string option" | WsConnectionClosed | WsAlreadyClosed | WsIo string
| WsOther string

record net_externals =
  oauth_client_id :: string
  decode_refresh :: "string option \<Rightarrow> string + (string option \<times> string option)"
  jwt_claims :: "string \<Rightarrow> string + (string option \<times> string option \<times> string option)"
  jwt_expiration :: "string \<Rightarrow> string + time option"
  url_parse :: "string \<Rightarrow> string + url"
  client_request :: "url \<Rightarrow> string + header_map"
  tls_config :: "string + unit"
  from_utf8 :: "string \<Rightarrow> string option"

datatype refresh_reply =
  SendFailed string
| Reply status header_map "string option"

definition REFRESH_TOKEN_URL :: string where
  "REFRESH_TOKEN_URL = ''https://auth.openai.com/oauth/token''"

definition temporary_refresh_failure :: "string \<Rightarrow> refresh_failure" where
  "temporary_refresh_failure e =
     \<lparr>rf_status = 502, rf_body = e, rf_class = TemporaryFailure, rf_retry_after = None\<rparr>"

definition refresh_request :: "net_externals \<Rightarrow> upstream_client \<Rightarrow> string \<Rightarrow> request" where
  "refresh_request N C refresh_token =
     \<lparr>rq_method = POST, rq_url = REFRESH_TOKEN_URL, rq_headers = [(''content-type'', ''application/json'')],
      rq_body = Some (JObject
        [(''client_id'', JString (oauth_client_id N)), (''grant_type'', JString ''refresh_token''),
         (''refresh_token'', JString refresh_token)]),
      rq_compression = NoCompression, rq_timeout = uc_unary_request_timeout C\<rparr>"

text \<open>\<open>send\<close> is the reply of the token endpoint, whose text can fail to arrive.\<close>

definition refresh_access_token ::
  "externals \<Rightarrow> net_externals \<Rightarrow> time \<Rightarrow> (request \<Rightarrow> refresh_reply) \<Rightarrow> upstream_client \<Rightarrow> string
     \<Rightarrow> refresh_failure + refreshed_account" where
  "refresh_access_token E N now send C token =
     (case send (refresh_request N C token) of
        SendFailed e \<Rightarrow> Inl (temporary_refresh_failure e)
      | Reply status headers content \<Rightarrow>
          if \<not> is_success status then
            (let body = (case content of Some b \<Rightarrow> b | None \<Rightarrow> []);
                 semantics = analyze_refresh_http E now status (Some headers) (Some body)
             in Inl \<lparr>rf_status = status, rf_body = body, rf_class = es_failure semantics,
                     rf_retry_after = es_retry_after semantics\<rparr>)
          else
            (case decode_refresh N content of
               Inl e \<Rightarrow> Inl (temporary_refresh_failure e)
             | Inr (None, _) \<Rightarrow>
                 Inl (temporary_refresh_failure ''refresh response did not include access_token'')
             | Inr (Some access_token, refresh_token) \<Rightarrow>
                 (case jwt_claims N access_token of
                    Inl e \<Rightarrow> Inl (temporary_refresh_failure e)
                  | Inr (account_id, plan_type, email) \<Rightarrow>
                      (case jwt_expiration N access_token of
                         Inl e \<Rightarrow> Inl (temporary_refresh_failure e)
                       | Inr expires_at \<Rightarrow>
                           Inr \<lparr>ra_access_token = access_token, ra_refresh_token = refresh_token,
                                ra_account_id = account_id, ra_plan_type = plan_type, ra_email = email,
                                ra_access_token_expires_at = expires_at\<rparr>))))"

definition url_text :: "url \<Rightarrow> string" where
  "url_text u = (case u of Url scheme rest \<Rightarrow> scheme @ rest)"

definition websocket_url_for_path :: "net_externals \<Rightarrow> string \<Rightarrow> string \<Rightarrow> string + url" where
  "websocket_url_for_path N base_url path =
     (case url_parse N (join_url base_url path) of
        Inl e \<Rightarrow> Inl e
      | Inr (Url scheme rest) \<Rightarrow>
          Inr (if scheme = ''http'' then Url ''ws'' rest
               else if scheme = ''https'' then Url ''wss'' rest
               else Url scheme rest))"

fun map_ws_error :: "net_externals \<Rightarrow> url \<Rightarrow> ws_error \<Rightarrow> transport_error" where
  "map_ws_error N url (WsHttp status headers body) =
     Http status (Some (url_text url)) (Some headers) (Option.bind body (from_utf8 N))"
| "map_ws_error N url WsConnectionClosed = Network ''websocket closed''"
| "map_ws_error N url WsAlreadyClosed = Network ''websocket closed''"
| "map_ws_error N url (WsIo e) = Network e"
| "map_ws_error N url (WsOther e) = Network e"

record 's websocket_connection =
  wc_stream :: 's
  wc_installation_id :: "string option"
  wc_turn_state :: "string option"

text \<open>
  The connector is given the URL and the headers of the handshake, takes some time, and answers with
  an error or with the stream and the headers of the server.
\<close>

definition connect_responses_websocket ::
  "externals \<Rightarrow> client_externals \<Rightarrow> net_externals
     \<Rightarrow> (url \<Rightarrow> header_map \<Rightarrow> duration \<times> (ws_error + ('s \<times> header_map)))
     \<Rightarrow> upstream_client \<Rightarrow> upstream_account \<Rightarrow> header_map \<Rightarrow> transport_error + 's websocket_connection"
where
  "connect_responses_websocket E X N connect C account incoming =
     (case websocket_url_for_path N (pv_base_url (uc_provider C)) ''responses'' of
        Inl e \<Rightarrow> Inl (Build e)
      | Inr ws_url \<Rightarrow>
          (let headers = add_auth_headers_to_header_map (new_gateway_auth account)
                 (build_responses_websocket_headers E X incoming (uc_fingerprint_mode C) (uc_codex_version C))
           in case client_request N ws_url of
                Inl e \<Rightarrow> Inl (Build e)
              | Inr request_headers \<Rightarrow>
                  (case tls_config N of
                     Inl e \<Rightarrow> Inl (Build e)
                   | Inr _ \<Rightarrow>
                       (case connect ws_url (hdr_extend request_headers headers) of (took, answer) \<Rightarrow>
                          if (case uc_websocket_connect_timeout C of Some limit \<Rightarrow> limit < took | None \<Rightarrow> False)
                          then Inl Timeout
                          else case answer of
                            Inl e \<Rightarrow> Inl (map_ws_error N ws_url e)
                          | Inr (stream, response_headers) \<Rightarrow>
                              Inr \<lparr>wc_stream = stream,
                                   wc_installation_id =
                                     installation_id_for_account X account (uc_fingerprint_mode C),
                                   wc_turn_state = hdr_get_str response_headers ''x-codex-turn-state''\<rparr>))))"

section \<open>Facts\<close>

lemma retry_at_limit: "rp_max_attempts P \<le> a \<Longrightarrow> \<not> should_retry_request_error E P e a"
  by (simp add: should_retry_request_error_def)

lemma retry_attempts_runs:
  assumes "a \<le> rp_max_attempts P"
  shows "\<exists>k. a \<le> k \<and> k \<le> rp_max_attempts P
      \<and> retry_attempts E P req op [a..<Suc (rp_max_attempts P)] prior = (op req k, [a..<Suc k])
      \<and> (\<forall>j\<in>{a..<k}. \<exists>e. op req j = Inl e \<and> should_retry_request_error E P e j)
      \<and> (case op req k of Inl e \<Rightarrow> \<not> should_retry_request_error E P e k | Inr v \<Rightarrow> True)"
  using assms
proof (induction "rp_max_attempts P - a" arbitrary: a prior)
  case 0
  then have a: "a = rp_max_attempts P" by simp
  then show ?case
    by (intro exI [of _ a]) (auto simp: retry_at_limit split: sum.splits)
next
  case (Suc n)
  let ?m = "rp_max_attempts P"
  have up: "[a..<Suc ?m] = a # [Suc a..<Suc ?m]" using Suc.prems by (subst upt_conv_Cons) auto
  show ?case
  proof (cases "\<exists>e. op req a = Inl e \<and> should_retry_request_error E P e a")
    case True
    then obtain e where e: "op req a = Inl e" "should_retry_request_error E P e a" by blast
    have le: "Suc a \<le> ?m" using Suc.hyps(2) by simp
    have n: "n = ?m - Suc a" using Suc.hyps(2) by simp
    obtain k where k: "Suc a \<le> k" "k \<le> ?m"
        "retry_attempts E P req op [Suc a..<Suc ?m] (Some e) = (op req k, [Suc a..<Suc k])"
        "\<forall>j\<in>{Suc a..<k}. \<exists>e. op req j = Inl e \<and> should_retry_request_error E P e j"
        "case op req k of Inl e \<Rightarrow> \<not> should_retry_request_error E P e k | Inr v \<Rightarrow> True"
      using Suc.hyps(1) [OF n le, of "Some e"] by blast
    have "[a..<Suc k] = a # [Suc a..<Suc k]" using k(1) by (subst upt_conv_Cons) auto
    with e k up have "retry_attempts E P req op [a..<Suc ?m] prior = (op req k, [a..<Suc k])"
      by simp
    moreover have "\<forall>j\<in>{a..<k}. \<exists>e. op req j = Inl e \<and> should_retry_request_error E P e j"
      using k(4) e by (auto simp: Suc_le_eq le_eq_less_or_eq)
    ultimately show ?thesis using k Suc.prems by (intro exI [of _ k]) auto
  next
    case False
    with up have "retry_attempts E P req op [a..<Suc ?m] prior = (op req a, [a..<Suc a])"
      by (auto split: sum.split)
    with False Suc.prems show ?thesis
      by (intro exI [of _ a]) (auto split: sum.splits)
  qed
qed

lemma retried_class:
  "should_retry_request_error E P e a \<Longrightarrow> \<not> on_429 (rp_retry_on P)
   \<Longrightarrow> classify_request_error E e \<in> {TemporaryFailure, InternalFailure}"
  by (cases e) (auto simp: should_retry_request_error_def should_retry_http_failure_def split: if_splits)


text \<open>
  C30: a call upstream makes the attempts \<open>0, ..., k\<close> with \<open>k\<close> at most the configured number of
  retries and returns what the last of them answered: every earlier one failed with an error that is
  retried, which, unless rate limits are, is a temporary or an internal one, and the last one succeeded
  or failed with an error that is not. The error for exhausted retries is never made up by the loop.
\<close>

theorem semantic_retry_runs:
  "\<exists>k. k \<le> rp_max_attempts P
     \<and> execute_with_semantic_retry E P req op = (op req k, [0..<Suc k])
     \<and> (\<forall>j<k. \<exists>e. op req j = Inl e \<and> should_retry_request_error E P e j
          \<and> (on_429 (rp_retry_on P)
              \<or> classify_request_error E e \<in> {TemporaryFailure, InternalFailure}))
     \<and> (case op req k of Inl e \<Rightarrow> \<not> should_retry_request_error E P e k | Inr v \<Rightarrow> True)"
proof -
  obtain k where k: "k \<le> rp_max_attempts P"
      "execute_with_semantic_retry E P req op = (op req k, [0..<Suc k])"
      "\<forall>j\<in>{0..<k}. \<exists>e. op req j = Inl e \<and> should_retry_request_error E P e j"
      "case op req k of Inl e \<Rightarrow> \<not> should_retry_request_error E P e k | Inr v \<Rightarrow> True"
    using retry_attempts_runs [of 0 P E req op None] unfolding execute_with_semantic_retry_def by blast
  have "\<forall>j<k. \<exists>e. op req j = Inl e \<and> should_retry_request_error E P e j
      \<and> (on_429 (rp_retry_on P) \<or> classify_request_error E e \<in> {TemporaryFailure, InternalFailure})"
  proof (intro allI impI)
    fix j assume "j < k"
    then have "j \<in> {0..<k}" by simp
    with k(3) obtain e where "op req j = Inl e" "should_retry_request_error E P e j" by blast
    with retried_class [OF this(2)] show
      "\<exists>e. op req j = Inl e \<and> should_retry_request_error E P e j
        \<and> (on_429 (rp_retry_on P) \<or> classify_request_error E e \<in> {TemporaryFailure, InternalFailure})"
      by blast
  qed
  with k(1,2,4) show ?thesis by blast
qed

definition sample_request :: request where
  "sample_request =
     build_request (uc_provider (new_upstream_client ''https://host/'' ''1'' Normalize 30)) POST ''/responses''"

theorem semantic_retry_runs_witness:
  "let P = retry_policy_of (pv_retry (uc_provider (new_upstream_client ''https://host/'' ''1'' Normalize 30)));
       op = (\<lambda>_ j. if j = 0 then Inl Timeout else if j = 1 then Inl (Build ''tls'') else Inr (7 :: nat))
   in \<exists>k. k \<le> 4 \<and> execute_with_semantic_retry sample_externals P sample_request op
             = (op sample_request k, [0..<Suc k])
          \<and> k = 1"
proof -
  let ?P = "retry_policy_of (pv_retry (uc_provider (new_upstream_client ''https://host/'' ''1'' Normalize 30)))"
  let ?op = "\<lambda>_ j. if j = 0 then Inl Timeout else if j = 1 then Inl (Build ''tls'') else Inr (7 :: nat)"
  have m: "rp_max_attempts ?P = 4" "on_transport (rp_retry_on ?P)"
    by (simp_all add: retry_policy_of_def new_upstream_client_def DEFAULT_REQUEST_MAX_RETRIES_def)
  obtain k where k: "k \<le> 4"
      "execute_with_semantic_retry sample_externals ?P sample_request ?op
         = (?op sample_request k, [0..<Suc k])"
      "\<forall>j<k. \<exists>e. ?op sample_request j = Inl e \<and> should_retry_request_error sample_externals ?P e j"
      "case ?op sample_request k of Inl e \<Rightarrow> \<not> should_retry_request_error sample_externals ?P e k
         | Inr v \<Rightarrow> True"
    using semantic_retry_runs [of ?P sample_externals sample_request ?op] unfolding m by blast
  have "k \<noteq> 0"
  proof
    assume "k = 0"
    with k(4) have "\<not> should_retry_request_error sample_externals ?P Timeout 0" by simp
    with m show False by (simp add: should_retry_request_error_def)
  qed
  moreover have "\<not> 1 < k"
  proof
    assume "1 < k"
    with k(3) have "should_retry_request_error sample_externals ?P (Build ''tls'') 1" by auto
    with m show False by (simp add: should_retry_request_error_def)
  qed
  ultimately have "k = 1" by simp
  with k(1,2) show ?thesis unfolding Let_def by blast
qed



end
