(* ===== verification/Ws_Proxy.thy ===== *)
theory Ws_Proxy
  imports Ws_Protocol Upstream_Http
begin

text \<open>
  \<open>src/responses/websocket/mod.rs\<close>: the websocket proxy. It passes messages between the caller and
  the upstream, holds back what the upstream says about a request until the request is committed, and
  until then moves to another account when the upstream fails, replaying what the caller has sent.
\<close>

section \<open>Sockets and state\<close>

text \<open>
  A socket is what it does with a message after the messages it has already been sent: the error of
  the upstream's socket, or whether the caller's socket took the message.
\<close>

type_synonym upstream_socket = "ws_message list \<Rightarrow> ws_message \<Rightarrow> string option"
type_synonym connection = "upstream_socket websocket_connection"

record pending_websocket_request =
  pw_request_messages :: "ws_message list"
  pw_buffered_upstream_messages :: "ws_message list"
  pw_tried_accounts :: "string set"
  pw_committed :: bool

definition new_pending_request :: pending_websocket_request where
  "new_pending_request =
     \<lparr>pw_request_messages = [], pw_buffered_upstream_messages = [], pw_tried_accounts = {},
      pw_committed = False\<rparr>"

text \<open>
  The locals of the proxy loop. \<open>px_sent\<close> is what the current upstream socket and \<open>px_delivered\<close> what
  the caller's socket has been sent. Two fields are ghosts: \<open>px_mark\<close> is the length of \<open>px_delivered\<close>
  when the current request started, and \<open>px_request\<close> what the caller has sent for it since.
\<close>

record proxy_state =
  px_headers :: header_map
  px_allow_turn_state :: bool
  px_codex_originator :: bool
  px_account_id :: string
  px_connection :: connection
  px_sent :: "ws_message list"
  px_pending :: "pending_websocket_request option"
  px_delivered :: "client_message list"
  px_mark :: nat
  px_request :: "ws_message list"

text \<open>What \<open>select!\<close> delivers.\<close>

datatype proxy_event =
  ShutdownRequested
| ClientGone
| FromClient client_message
| UpstreamFailed string
| UpstreamClosed
| FromUpstream ws_message

text \<open>
  The surroundings of the proxy, in event \<open>i\<close> and round \<open>j\<close> of a reconnection: other tasks, the
  upstream as it answers to the given request headers, the cached list of models, the clock.
\<close>

record 'fs proxy_env =
  pe_externals :: externals
  pe_config :: fo_config
  pe_mode :: fingerprint_mode
  pe_world :: "nat \<Rightarrow> nat \<Rightarrow> 'fs world"
  pe_upstream :: "nat \<Rightarrow> nat \<Rightarrow> header_map \<Rightarrow> connection upstream"
  pe_snapshot :: "nat \<Rightarrow> nat \<Rightarrow> models_snapshot option"
  pe_client_takes :: "client_message list \<Rightarrow> client_message \<Rightarrow> bool"
  pe_now :: "nat \<Rightarrow> time"
  pe_rounds :: nat
  pe_inner_rounds :: nat

type_synonym routed_outcome = "websocket_proxy_outcome routed_execution"

section \<open>Outcomes\<close>

definition outcome_after_client_delivery_failure ::
  "websocket_proxy_outcome option \<Rightarrow> websocket_proxy_outcome" where
  "outcome_after_client_delivery_failure failure = or_else failure WsReleased"

definition routed_websocket_outcome :: "string \<Rightarrow> websocket_proxy_outcome \<Rightarrow> routed_outcome" where
  "routed_websocket_outcome account_id out = \<lparr>re_account_id = account_id, re_value = out\<rparr>"

definition stream_failed :: "string \<Rightarrow> string" where
  "stream_failed e = ''responses websocket upstream stream failed: '' @ e"

definition active_request_close_failure ::
  "bool \<Rightarrow> ws_message \<Rightarrow> websocket_proxy_outcome option \<Rightarrow> websocket_proxy_outcome option" where
  "active_request_close_failure has_pending message known_settlement =
     (if \<not> has_pending then known_settlement
      else case message of
        WsClose None \<Rightarrow>
          if known_settlement = Some WsReleased \<or> known_settlement = None
          then Some (WsFailed TemporaryFailure None (stream_failed ''closed''))
          else known_settlement
      | WsClose (Some frame) \<Rightarrow>
          if known_settlement = Some WsReleased
          then Some (WsFailed TemporaryFailure None
            (''responses websocket upstream closed before terminal response: code=''
               @ show_nat (cf_code frame) @ '' reason='' @ cf_reason frame))
          else known_settlement
      | _ \<Rightarrow> known_settlement)"

definition should_failover_precommit_failure ::
  "websocket_proxy_outcome \<Rightarrow> classified_event_failure option \<Rightarrow> bool" where
  "should_failover_precommit_failure out classified =
     (case classified of
        Some c \<Rightarrow> is_gateway_unavailable_status_failure (cef_status c) (cef_failure c)
      | None \<Rightarrow>
          (case out of WsFailed failure _ _ \<Rightarrow> should_failover_failure_class failure | _ \<Rightarrow> False))"

definition uncommitted :: "proxy_state \<Rightarrow> bool" where
  "uncommitted ps = (case px_pending ps of Some p \<Rightarrow> \<not> pw_committed p | None \<Rightarrow> False)"

definition map_pending ::
  "(pending_websocket_request \<Rightarrow> pending_websocket_request) \<Rightarrow> proxy_state \<Rightarrow> proxy_state" where
  "map_pending f ps = ps\<lparr>px_pending := map_option f (px_pending ps)\<rparr>"

section \<open>Delivery to the caller\<close>

definition forward_upstream_message ::
  "'fs proxy_env \<Rightarrow> ws_message \<Rightarrow> proxy_state \<Rightarrow> proxy_state \<times> bool" where
  "forward_upstream_message env message ps =
     (case map_upstream_message_to_client message of
        None \<Rightarrow> (ps, True)
      | Some mapped \<Rightarrow>
          if pe_client_takes env (px_delivered ps) mapped
          then (ps\<lparr>px_delivered := px_delivered ps @ [mapped]\<rparr>, True)
          else (ps, False))"

fun flush_buffered_upstream_messages ::
  "'fs proxy_env \<Rightarrow> ws_message list \<Rightarrow> proxy_state \<Rightarrow> proxy_state \<times> bool" where
  "flush_buffered_upstream_messages env [] ps = (ps, True)"
| "flush_buffered_upstream_messages env (m # ms) ps =
     (case forward_upstream_message env m ps of
        (ps1, False) \<Rightarrow> (ps1, False)
      | (ps1, True) \<Rightarrow> flush_buffered_upstream_messages env ms ps1)"

definition take_pending_buffered_upstream_messages ::
  "proxy_state \<Rightarrow> proxy_state \<times> ws_message list" where
  "take_pending_buffered_upstream_messages ps =
     (case px_pending ps of
        None \<Rightarrow> (ps, [])
      | Some p \<Rightarrow>
          (map_pending (\<lambda>p. p\<lparr>pw_buffered_upstream_messages := []\<rparr>) ps,
           pw_buffered_upstream_messages p))"

definition settle_unless ::
  "websocket_proxy_outcome option \<Rightarrow> proxy_state \<times> bool \<Rightarrow> proxy_state \<times> routed_outcome option" where
  "settle_unless known_settlement x =
     (case x of
        (ps, True) \<Rightarrow> (ps, None)
      | (ps, False) \<Rightarrow>
          (ps, Some (routed_websocket_outcome (px_account_id ps)
                      (outcome_after_client_delivery_failure known_settlement))))"

definition flush_buffered_or_settle ::
  "'fs proxy_env \<Rightarrow> websocket_proxy_outcome option \<Rightarrow> proxy_state \<Rightarrow> proxy_state \<times> routed_outcome option"
where
  "flush_buffered_or_settle env known_settlement ps =
     (case take_pending_buffered_upstream_messages ps of
        (ps1, messages) \<Rightarrow>
          settle_unless known_settlement (flush_buffered_upstream_messages env messages ps1))"

definition forward_message_or_settle ::
  "'fs proxy_env \<Rightarrow> ws_message \<Rightarrow> websocket_proxy_outcome option \<Rightarrow> proxy_state
     \<Rightarrow> proxy_state \<times> routed_outcome option" where
  "forward_message_or_settle env message known_settlement ps =
     settle_unless known_settlement (forward_upstream_message env message ps)"

definition deliver_pending_retry_failure_or_settle ::
  "'fs proxy_env \<Rightarrow> ws_message option \<Rightarrow> websocket_proxy_outcome option \<Rightarrow> proxy_state
     \<Rightarrow> proxy_state \<times> routed_outcome option" where
  "deliver_pending_retry_failure_or_settle env client_message known_settlement ps =
     (case flush_buffered_or_settle env known_settlement ps of
        (ps1, Some response) \<Rightarrow> (ps1, Some response)
      | (ps1, None) \<Rightarrow>
          (case client_message of
             Some message \<Rightarrow> forward_message_or_settle env message known_settlement ps1
           | None \<Rightarrow> (ps1, None)))"

section \<open>Reconnection\<close>

definition prepared_message ::
  "externals \<Rightarrow> fingerprint_mode \<Rightarrow> bool \<Rightarrow> models_snapshot option \<Rightarrow> string option \<Rightarrow> ws_message
     \<Rightarrow> ws_message" where
  "prepared_message E mode codex_originator snapshot installation_id message =
     (if is_responses_websocket_request_start E message
      then normalize_response_create_message E mode codex_originator snapshot installation_id message
      else message)"

text \<open>The messages that the socket has taken, and the error that ended the replay.\<close>

fun send_all :: "upstream_socket \<Rightarrow> ws_message list \<Rightarrow> ws_message list \<Rightarrow> ws_message list \<times> string option"
where
  "send_all socket sent [] = (sent, None)"
| "send_all socket sent (m # ms) =
     (case socket sent m of Some e \<Rightarrow> (sent, Some e) | None \<Rightarrow> send_all socket (sent @ [m]) ms)"

definition replay_buffered_request_messages ::
  "externals \<Rightarrow> fingerprint_mode \<Rightarrow> bool \<Rightarrow> models_snapshot option \<Rightarrow> connection \<Rightarrow> ws_message list
     \<Rightarrow> ws_message list \<times> string option" where
  "replay_buffered_request_messages E mode codex_originator snapshot conn request_messages =
     send_all (wc_stream conn) []
       (map (prepared_message E mode codex_originator snapshot (wc_installation_id conn))
         request_messages)"

definition apply_turn_state_to_request_headers :: "string option \<Rightarrow> bool \<Rightarrow> header_map \<Rightarrow> header_map" where
  "apply_turn_state_to_request_headers turn_state allow_upstream_turn_state headers =
     (if \<not> allow_upstream_turn_state then headers
      else case turn_state of
        None \<Rightarrow> headers
      | Some t \<Rightarrow> insert_header ''x-codex-turn-state'' t headers)"

datatype retry_result =
  Switched "connection routed_execution" "ws_message list"
| NoReplacement "ws_message option"

text \<open>
  A round of the reconnection: the failover loop, then the replay. The state is the set of tried
  accounts; \<open>None\<close> means that the fuel of the failover loop was not enough.
\<close>

definition retry_step ::
  "'fs proxy_env \<Rightarrow> nat \<Rightarrow> header_map \<Rightarrow> ws_message list \<Rightarrow> nat \<Rightarrow> string set \<times> 'fs world_state
     \<Rightarrow> (string set \<times> 'fs world_state)
        + ('fs world_state, string set \<times> retry_result) outcome option" where
  "retry_step env i headers request_messages j x =
     (case x of (tried, s) \<Rightarrow>
        (case execute_with_failover_from (pe_inner_rounds env) (pe_externals env)
                ((pe_config env)\<lparr>fc_disposition := HoldUntilCaller\<rparr>) (pe_world env i (Suc j))
                (pe_upstream env i j headers) tried s of
           None \<Rightarrow> Inr None
         | Some (Panicked s1) \<Rightarrow> Inr (Some (Panicked s1))
         | Some (Returned s1 (tried1, Inl failure)) \<Rightarrow>
             Inr (Some (Returned s1 (tried1,
               NoReplacement
                 (Some (websocket_error_message_for_failover_failure (pe_externals env) (pe_now env i)
                   failure)))))
         | Some (Returned s1 (tried1, Inr replacement)) \<Rightarrow>
             (case replay_buffered_request_messages (pe_externals env) (pe_mode env)
                     (response_shape_for_headers headers = Codex) (pe_snapshot env i j)
                     (re_value replacement) request_messages of
                (sent, None) \<Rightarrow> Inr (Some (Returned s1 (tried1, Switched replacement sent)))
              | (sent, Some e) \<Rightarrow>
                  (case settle_at (pe_externals env) (pe_world env i (Suc j)) (re_account_id replacement)
                          (SettleFailure TemporaryFailure None (stream_failed e)) s1 of
                     Panicked s2 \<Rightarrow> Inr (Some (Panicked s2))
                   | Returned s2 _ \<Rightarrow> Inl (insert (re_account_id replacement) tried1, s2)))))"

definition retry_pending_websocket_request ::
  "'fs proxy_env \<Rightarrow> nat \<Rightarrow> proxy_state \<Rightarrow> 'fs world_state
     \<Rightarrow> (proxy_state \<times> ('fs world_state, retry_result) outcome) option" where
  "retry_pending_websocket_request env i ps s =
     (case px_pending ps of
        None \<Rightarrow> Some (ps, Returned s (NoReplacement None))
      | Some pending \<Rightarrow>
          (case Option.bind
                  (run_loop (pe_rounds env)
                    (retry_step env i (px_headers ps) (pw_request_messages pending)) 0
                    (insert (px_account_id ps) (pw_tried_accounts pending), s)) (\<lambda>r. r) of
             None \<Rightarrow> None
           | Some (Panicked s1) \<Rightarrow> Some (ps, Panicked s1)
           | Some (Returned s1 (tried, r)) \<Rightarrow>
               Some (map_pending (\<lambda>p. p\<lparr>pw_tried_accounts := tried\<rparr>) ps, Returned s1 r)))"

text \<open>The new connection is used in any case; the account changes when the outcome is a failure.\<close>

definition apply_websocket_retry_switch ::
  "'fs proxy_env \<Rightarrow> nat \<Rightarrow> websocket_proxy_outcome \<Rightarrow> connection routed_execution \<Rightarrow> ws_message list
     \<Rightarrow> proxy_state \<Rightarrow> 'fs world_state \<Rightarrow> proxy_state \<times> ('fs world_state, unit) outcome" where
  "apply_websocket_retry_switch env i failure_outcome replacement sent ps s =
     (let ps1 = ps\<lparr>px_connection := re_value replacement, px_sent := sent\<rparr>
      in case failure_outcome of
           WsFailed failure retry_after details \<Rightarrow>
             (let ps2 = map_pending (\<lambda>p. p\<lparr>pw_buffered_upstream_messages := []\<rparr>) ps1;
                  ps3 = ps2\<lparr>px_account_id := re_account_id replacement,
                            px_headers := apply_turn_state_to_request_headers
                              (wc_turn_state (re_value replacement)) (px_allow_turn_state ps2)
                              (px_headers ps2)\<rparr>
              in (ps3, settle_at (pe_externals env) (pe_world env i 0) (px_account_id ps)
                         (SettleFailure failure retry_after details) s))
         | _ \<Rightarrow> (ps1, Returned s ()))"

section \<open>The loop\<close>

text \<open>
  One turn of the loop: it goes on, returns, panics in an account operation, or \<open>OutOfFuel\<close> when the
  rounds of a reconnection were not enough.
\<close>

datatype proxy_verdict = Continue | Finish routed_outcome | Crashed | OutOfFuel

type_synonym 'fs proxy_turn = "(proxy_state \<times> 'fs world_state) \<times> proxy_verdict"

definition finish :: "websocket_proxy_outcome \<Rightarrow> proxy_state \<Rightarrow> 'fs world_state \<Rightarrow> 'fs proxy_turn" where
  "finish out ps s = ((ps, s), Finish (routed_websocket_outcome (px_account_id ps) out))"

text \<open>The shared reaction to an upstream that fails: another account while that is possible.\<close>

definition retry_or_finish ::
  "'fs proxy_env \<Rightarrow> nat \<Rightarrow> websocket_proxy_outcome \<Rightarrow> proxy_state \<Rightarrow> 'fs world_state \<Rightarrow> 'fs proxy_turn" where
  "retry_or_finish env i failure ps s =
     (case retry_pending_websocket_request env i ps s of
        None \<Rightarrow> ((ps, s), OutOfFuel)
      | Some (ps1, Panicked s1) \<Rightarrow> ((ps1, s1), Crashed)
      | Some (ps1, Returned s1 (Switched replacement sent)) \<Rightarrow>
          (case apply_websocket_retry_switch env i failure replacement sent ps1 s1 of
             (ps2, Panicked s2) \<Rightarrow> ((ps2, s2), Crashed)
           | (ps2, Returned s2 _) \<Rightarrow> ((ps2, s2), Continue))
      | Some (ps1, Returned s1 (NoReplacement client_message)) \<Rightarrow>
          (case deliver_pending_retry_failure_or_settle env client_message (Some failure) ps1 of
             (ps2, Some response) \<Rightarrow> ((ps2, s1), Finish response)
           | (ps2, None) \<Rightarrow> finish failure ps2 s1))"

definition upstream_broken ::
  "'fs proxy_env \<Rightarrow> nat \<Rightarrow> string \<Rightarrow> proxy_state \<Rightarrow> 'fs world_state \<Rightarrow> 'fs proxy_turn" where
  "upstream_broken env i error ps s =
     (let failure = WsFailed TemporaryFailure None (stream_failed error)
      in if uncommitted ps then retry_or_finish env i failure ps s else finish failure ps s)"

text \<open>What is recorded of a message of the caller before it is sent.\<close>

definition noted_message :: "externals \<Rightarrow> ws_message \<Rightarrow> proxy_state \<Rightarrow> proxy_state" where
  "noted_message E mapped ps =
     (let ps1 = (if is_responses_websocket_request_start E mapped
                 then ps\<lparr>px_pending := Some new_pending_request,
                         px_mark := length (px_delivered ps), px_request := []\<rparr>
                 else ps);
          ps2 = (if should_replay_client_message mapped
                 then ps1\<lparr>px_request := px_request ps1 @ [mapped]\<rparr> else ps1)
      in if uncommitted ps2 \<and> should_replay_client_message mapped
         then map_pending (\<lambda>p. p\<lparr>pw_request_messages := pw_request_messages p @ [mapped]\<rparr>) ps2
         else ps2)"

definition on_client_message ::
  "'fs proxy_env \<Rightarrow> nat \<Rightarrow> client_message \<Rightarrow> proxy_state \<Rightarrow> 'fs world_state \<Rightarrow> 'fs proxy_turn" where
  "on_client_message env i message ps s =
     (let sent_close = (case message of ClClose _ \<Rightarrow> True | _ \<Rightarrow> False)
      in case map_client_message_to_upstream message of
           None \<Rightarrow> ((ps, s), Continue)
         | Some mapped \<Rightarrow>
             (let E = pe_externals env;
                  ps3 = noted_message E mapped ps;
                  out = prepared_message E (pe_mode env) (px_codex_originator ps3) (pe_snapshot env i 0)
                    (wc_installation_id (px_connection ps3)) mapped
              in case wc_stream (px_connection ps3) (px_sent ps3) out of
                   Some error \<Rightarrow>
                     if sent_close then finish WsReleased ps3 s
                     else upstream_broken env i error ps3 s
                 | None \<Rightarrow>
                     (let ps4 = ps3\<lparr>px_sent := px_sent ps3 @ [out]\<rparr>
                      in if sent_close then finish WsReleased ps4 s else ((ps4, s), Continue))))"

text \<open>What follows when a delivery to the caller succeeded.\<close>

definition delivered_then ::
  "proxy_state \<times> routed_outcome option \<Rightarrow> 'fs world_state \<Rightarrow> (proxy_state \<Rightarrow> 'fs proxy_turn)
     \<Rightarrow> 'fs proxy_turn" where
  "delivered_then x s k =
     (case x of (ps, Some response) \<Rightarrow> ((ps, s), Finish response) | (ps, None) \<Rightarrow> k ps)"

definition settled_turn ::
  "websocket_proxy_outcome option \<Rightarrow> proxy_state \<Rightarrow> 'fs world_state \<Rightarrow> 'fs proxy_turn" where
  "settled_turn known_settlement ps s =
     (case known_settlement of Some out \<Rightarrow> finish out ps s | None \<Rightarrow> ((ps, s), Continue))"

definition on_uncommitted ::
  "'fs proxy_env \<Rightarrow> ws_message \<Rightarrow> websocket_proxy_outcome option \<Rightarrow> proxy_state \<Rightarrow> 'fs world_state
     \<Rightarrow> 'fs proxy_turn" where
  "on_uncommitted env message known_settlement ps s =
     (let E = pe_externals env
      in delivered_then
           (if should_buffer_upstream_message_before_commit message
            then (map_pending (\<lambda>p. p\<lparr>pw_buffered_upstream_messages :=
                    pw_buffered_upstream_messages p @ [message]\<rparr>) ps, None)
            else forward_message_or_settle env message known_settlement ps) s
           (\<lambda>ps1. delivered_then
             (if upstream_message_commits_request E message
              then flush_buffered_or_settle env known_settlement
                     (map_pending (\<lambda>p. p\<lparr>pw_committed := True\<rparr>) ps1)
              else (ps1, None)) s
             (\<lambda>ps2. if upstream_message_is_terminal E message
                    then settled_turn known_settlement (ps2\<lparr>px_pending := None\<rparr>) s
                    else ((ps2, s), Continue))))"

definition on_established ::
  "'fs proxy_env \<Rightarrow> ws_message \<Rightarrow> websocket_proxy_outcome option \<Rightarrow> proxy_state \<Rightarrow> 'fs world_state
     \<Rightarrow> 'fs proxy_turn" where
  "on_established env message known_settlement ps s =
     delivered_then (forward_message_or_settle env message known_settlement ps) s
       (\<lambda>ps1. case known_settlement of
          Some out \<Rightarrow> finish out ps1 s
        | None \<Rightarrow>
            ((if upstream_message_is_terminal (pe_externals env) message
              then ps1\<lparr>px_pending := None\<rparr> else ps1, s), Continue))"

definition on_upstream_message ::
  "'fs proxy_env \<Rightarrow> nat \<Rightarrow> ws_message \<Rightarrow> proxy_state \<Rightarrow> 'fs world_state \<Rightarrow> 'fs proxy_turn" where
  "on_upstream_message env i raw ps s =
     (let E = pe_externals env
      in case normalize_websocket_rate_limit_message E (px_codex_originator ps) raw of
           None \<Rightarrow> ((ps, s), Continue)
         | Some limited \<Rightarrow>
             (let message = rewrite_previous_response_not_found_message E limited;
                  known_settlement = active_request_close_failure (px_pending ps \<noteq> None) message
                    (classify_websocket_upstream_control_message E (pe_now env i) message);
                  classified = classify_websocket_upstream_terminal_failure E (pe_now env i) message
              in if should_passthrough_retryable_websocket_reset E (uncommitted ps) message then
                   delivered_then (flush_buffered_or_settle env None ps) s
                     (\<lambda>ps1. delivered_then (forward_message_or_settle env message None ps1) s
                       (\<lambda>ps2. finish (outcome_after_client_delivery_failure None) ps2 s))
                 else
                   (case (uncommitted ps, known_settlement) of
                      (True, Some (WsFailed failure retry_after details)) \<Rightarrow>
                        (let out = WsFailed failure retry_after details
                         in if should_failover_precommit_failure out classified
                            then retry_or_finish env i out ps s
                            else delivered_then (flush_buffered_or_settle env (Some out) ps) s
                              (\<lambda>ps1. delivered_then
                                (forward_message_or_settle env message (Some out) ps1) s
                                (\<lambda>ps2. finish out ps2 s)))
                    | (True, _) \<Rightarrow> on_uncommitted env message known_settlement ps s
                    | (False, _) \<Rightarrow> on_established env message known_settlement ps s)))"

text \<open>The close frames sent on the way out; that a socket does not take one is ignored.\<close>

definition close_upstream :: "proxy_state \<Rightarrow> proxy_state" where
  "close_upstream ps =
     (case wc_stream (px_connection ps) (px_sent ps) (WsClose None) of
        Some error \<Rightarrow> ps
      | None \<Rightarrow> ps\<lparr>px_sent := px_sent ps @ [WsClose None]\<rparr>)"

definition close_client :: "'fs proxy_env \<Rightarrow> proxy_state \<Rightarrow> proxy_state" where
  "close_client env ps =
     (if pe_client_takes env (px_delivered ps) (ClClose None)
      then ps\<lparr>px_delivered := px_delivered ps @ [ClClose None]\<rparr> else ps)"

lemma close_keeps_account [simp]:
  "px_account_id (close_upstream ps) = px_account_id ps"
  "px_account_id (close_client env ps) = px_account_id ps"
  by (simp_all add: close_upstream_def close_client_def split: option.splits)

definition proxy_turn ::
  "'fs proxy_env \<Rightarrow> nat \<Rightarrow> proxy_event \<Rightarrow> proxy_state \<Rightarrow> 'fs world_state \<Rightarrow> 'fs proxy_turn" where
  "proxy_turn env i event ps s =
     (case event of
        ShutdownRequested \<Rightarrow> finish WsReleased (close_client env (close_upstream ps)) s
      | ClientGone \<Rightarrow> finish WsReleased (close_upstream ps) s
      | FromClient message \<Rightarrow> on_client_message env i message ps s
      | UpstreamFailed error \<Rightarrow> upstream_broken env i error ps s
      | UpstreamClosed \<Rightarrow> upstream_broken env i ''closed'' ps s
      | FromUpstream message \<Rightarrow> on_upstream_message env i message ps s)"

definition initial_proxy :: "header_map \<Rightarrow> connection routed_execution \<Rightarrow> bool \<Rightarrow> proxy_state" where
  "initial_proxy request_headers initial allow_upstream_turn_state =
     \<lparr>px_headers = apply_turn_state_to_request_headers (wc_turn_state (re_value initial))
        allow_upstream_turn_state request_headers,
      px_allow_turn_state = allow_upstream_turn_state,
      px_codex_originator = (response_shape_for_headers request_headers = Codex),
      px_account_id = re_account_id initial, px_connection = re_value initial, px_sent = [],
      px_pending = None, px_delivered = [], px_mark = 0, px_request = []\<rparr>"

text \<open>The proxy over the events it meets; it waits when they are used up.\<close>

fun proxy_loop ::
  "'fs proxy_env \<Rightarrow> nat \<Rightarrow> proxy_event list \<Rightarrow> proxy_state \<Rightarrow> 'fs world_state \<Rightarrow> 'fs proxy_turn" where
  "proxy_loop env i [] ps s = ((ps, s), Continue)"
| "proxy_loop env i (event # events) ps s =
     (case proxy_turn env i event ps s of
        ((ps1, s1), Continue) \<Rightarrow> proxy_loop env (Suc i) events ps1 s1
      | ((ps1, s1), v) \<Rightarrow> ((ps1, s1), v))"

definition proxy_websocket ::
  "'fs proxy_env \<Rightarrow> proxy_event list \<Rightarrow> header_map \<Rightarrow> connection routed_execution \<Rightarrow> bool
     \<Rightarrow> 'fs world_state \<Rightarrow> 'fs proxy_turn" where
  "proxy_websocket env events request_headers initial allow_upstream_turn_state s =
     proxy_loop env 0 events (initial_proxy request_headers initial allow_upstream_turn_state) s"


section \<open>What the phases keep\<close>

text \<open>Messages of an answer, as opposed to the control messages of the protocol.\<close>

fun content :: "client_message \<Rightarrow> bool" where
  "content (ClText _) = True"
| "content (ClBinary _) = True"
| "content _ = False"

text \<open>
  While a request is not committed, the caller has seen nothing of an answer since the request started,
  and the messages kept for a replay are all that the caller has sent for it.
\<close>

definition hidden :: "proxy_state \<Rightarrow> bool" where
  "hidden ps \<longleftrightarrow> px_mark ps \<le> length (px_delivered ps)
     \<and> (\<forall>m \<in> set (drop (px_mark ps) (px_delivered ps)). \<not> content m)"

definition proxy_inv :: "proxy_state \<Rightarrow> bool" where
  "proxy_inv ps \<longleftrightarrow>
     (\<forall>p. px_pending ps = Some p \<and> \<not> pw_committed p
        \<longrightarrow> hidden ps \<and> pw_request_messages p = px_request ps)"

lemma map_pending_simps [simp]:
  "px_pending (map_pending f ps) = map_option f (px_pending ps)"
  "px_delivered (map_pending f ps) = px_delivered ps" "px_mark (map_pending f ps) = px_mark ps"
  "px_request (map_pending f ps) = px_request ps" "px_account_id (map_pending f ps) = px_account_id ps"
  "px_sent (map_pending f ps) = px_sent ps" "px_connection (map_pending f ps) = px_connection ps"
  "px_headers (map_pending f ps) = px_headers ps"
  "px_allow_turn_state (map_pending f ps) = px_allow_turn_state ps"
  "px_codex_originator (map_pending f ps) = px_codex_originator ps"
  by (simp_all add: map_pending_def)

lemma hidden_map_pending [simp]: "hidden (map_pending f ps) = hidden ps"
  by (simp add: hidden_def)

lemma inv_map_pending:
  "proxy_inv ps \<Longrightarrow> (\<And>p. pw_committed (f p) = pw_committed p \<and> pw_request_messages (f p) = pw_request_messages p)
   \<Longrightarrow> proxy_inv (map_pending f ps)"
  by (auto simp: proxy_inv_def)

lemma inv_committed: "(\<And>p. pw_committed (f p)) \<Longrightarrow> proxy_inv (map_pending f ps)"
  by (auto simp: proxy_inv_def)

lemma inv_no_pending [simp]: "proxy_inv (ps\<lparr>px_pending := None\<rparr>)"
  by (simp add: proxy_inv_def)

lemma not_buffered_not_content:
  "\<not> should_buffer_upstream_message_before_commit m \<Longrightarrow> map_upstream_message_to_client m = Some c
   \<Longrightarrow> \<not> content c"
  by (cases m) auto

lemma forward_fields:
  assumes "forward_upstream_message env m ps = (ps', ok)"
  shows "px_pending ps' = px_pending ps" "px_account_id ps' = px_account_id ps"
    "px_mark ps' = px_mark ps" "px_request ps' = px_request ps" "px_sent ps' = px_sent ps"
  using assms by (auto simp: forward_upstream_message_def split: option.splits if_splits)

lemma forward_hidden:
  assumes "forward_upstream_message env m ps = (ps', ok)" "hidden ps"
    "\<not> should_buffer_upstream_message_before_commit m"
  shows "hidden ps'"
  using assms not_buffered_not_content
  by (auto simp: forward_upstream_message_def hidden_def split: option.splits if_splits)

lemma flush_fields:
  "flush_buffered_upstream_messages env ms ps = (ps', ok) \<Longrightarrow>
   px_pending ps' = px_pending ps \<and> px_account_id ps' = px_account_id ps"
  by (induction env ms ps arbitrary: ps' ok rule: flush_buffered_upstream_messages.induct)
    (fastforce dest: forward_fields split: prod.splits bool.splits)+

lemma settle_unless_cases:
  assumes "settle_unless ks x = (ps, r)"
  shows "ps = fst x" "r = (if snd x then None else Some (routed_websocket_outcome (px_account_id ps)
      (outcome_after_client_delivery_failure ks)))"
  using assms by (cases x; cases "snd x"; auto simp: settle_unless_def)+

lemma flush_or_settle_fields:
  assumes "flush_buffered_or_settle env ks ps = (ps', r)"
  shows "px_account_id ps' = px_account_id ps
    \<and> (px_pending ps' = None \<longleftrightarrow> px_pending ps = None)
    \<and> (\<forall>p. px_pending ps = Some p \<longrightarrow> px_pending ps' = Some (p\<lparr>pw_buffered_upstream_messages := []\<rparr>))
    \<and> (\<forall>x. r = Some x \<longrightarrow> re_account_id x = px_account_id ps)"
proof -
  obtain ps1 ms where t: "take_pending_buffered_upstream_messages ps = (ps1, ms)" by fastforce
  obtain ps2 ok where f: "flush_buffered_upstream_messages env ms ps1 = (ps2, ok)" by fastforce
  from assms t f have "ps' = ps2" "r = (if ok then None else Some (routed_websocket_outcome
      (px_account_id ps2) (outcome_after_client_delivery_failure ks)))"
    using settle_unless_cases [of ks "(ps2, ok)" ps' r] by (auto simp: flush_buffered_or_settle_def)
  with flush_fields [OF f] t show ?thesis
    by (cases "px_pending ps")
      (auto simp: take_pending_buffered_upstream_messages_def routed_websocket_outcome_def)
qed

lemma forward_or_settle_fields:
  assumes "forward_message_or_settle env m ks ps = (ps', r)"
  shows "px_account_id ps' = px_account_id ps \<and> px_pending ps' = px_pending ps
    \<and> px_mark ps' = px_mark ps \<and> px_request ps' = px_request ps
    \<and> (\<forall>x. r = Some x \<longrightarrow> re_account_id x = px_account_id ps)"
proof -
  obtain ps2 ok where f: "forward_upstream_message env m ps = (ps2, ok)" by fastforce
  with assms have "ps' = ps2" "r = (if ok then None else Some (routed_websocket_outcome
      (px_account_id ps2) (outcome_after_client_delivery_failure ks)))"
    using settle_unless_cases [of ks "(ps2, ok)" ps' r] by (auto simp: forward_message_or_settle_def)
  with forward_fields [OF f] show ?thesis by (auto simp: routed_websocket_outcome_def)
qed

lemma forward_or_settle_hidden:
  assumes "forward_message_or_settle env m ks ps = (ps', r)" "hidden ps"
    "\<not> should_buffer_upstream_message_before_commit m"
  shows "hidden ps'"
proof -
  obtain ps2 ok where f: "forward_upstream_message env m ps = (ps2, ok)" by fastforce
  with assms(1) have "ps' = ps2"
    using settle_unless_cases(1) [of ks "(ps2, ok)" ps' r] by (auto simp: forward_message_or_settle_def)
  with forward_hidden [OF f assms(2,3)] show ?thesis by simp
qed


section \<open>Reconnection and the invariant\<close>

lemma uncommitted_iff: "uncommitted ps \<longleftrightarrow> (\<exists>p. px_pending ps = Some p \<and> \<not> pw_committed p)"
  by (auto simp: uncommitted_def split: option.splits)

lemma inv_if_committed: "\<not> uncommitted ps \<Longrightarrow> proxy_inv ps"
  by (auto simp: uncommitted_iff proxy_inv_def)

lemma send_all_complete: "send_all socket sent ms = (sent', None) \<Longrightarrow> sent' = sent @ ms"
  by (induction socket sent ms rule: send_all.induct) (auto split: option.splits)

lemma replay_complete:
  assumes "replay_buffered_request_messages E mode cx sn conn ms = (sent, None)"
  shows "sent = map (prepared_message E mode cx sn (wc_installation_id conn)) ms"
  using send_all_complete [OF assms [unfolded replay_buffered_request_messages_def]] by simp

lemma retry_loop_switched:
  fixes env :: "'a proxy_env"
  assumes "run_loop n (retry_step env i headers ms) 0 x = Some (Some (Returned s1 (tried, Switched r sent)))"
  shows "\<exists>j. sent = map (prepared_message (pe_externals env) (pe_mode env)
      (response_shape_for_headers headers = Codex) (pe_snapshot env i j) (wc_installation_id (re_value r))) ms"
proof -
  define Q where "Q = (\<lambda>w :: ('a world_state, string set \<times> retry_result) outcome option. \<forall>s1 tried r sent. w = Some (Returned s1 (tried, Switched r sent)) \<longrightarrow>
      (\<exists>j. sent = map (prepared_message (pe_externals env) (pe_mode env)
        (response_shape_for_headers headers = Codex) (pe_snapshot env i j) (wc_installation_id (re_value r))) ms))"
  have "Q (Some (Returned s1 (tried, Switched r sent)))"
  proof (rule run_loop_induct [OF assms, where P = "\<lambda>_. True"])
    fix j x w assume "retry_step env i headers ms j x = Inr w"
    then show "Q w"
      unfolding Q_def
      by (cases x) (auto simp: retry_step_def dest!: replay_complete
          split: option.splits outcome.splits sum.splits prod.splits)
  qed simp_all
  then show ?thesis by (simp add: Q_def)
qed

lemma retry_pending_fields:
  assumes "retry_pending_websocket_request env i ps s = Some (ps1, r)"
  shows "ps1 = ps \<or> (\<exists>tried. ps1 = map_pending (\<lambda>p. p\<lparr>pw_tried_accounts := tried\<rparr>) ps)"
  using assms
  by (auto simp: retry_pending_websocket_request_def split: option.splits outcome.splits)

lemma retry_pending_switched:
  assumes "retry_pending_websocket_request env i ps s = Some (ps1, Returned s1 (Switched r sent))"
  shows "\<exists>p tried j. px_pending ps = Some p
    \<and> ps1 = map_pending (\<lambda>p. p\<lparr>pw_tried_accounts := tried\<rparr>) ps
    \<and> sent = map (prepared_message (pe_externals env) (pe_mode env)
        (response_shape_for_headers (px_headers ps) = Codex) (pe_snapshot env i j)
        (wc_installation_id (re_value r))) (pw_request_messages p)"
proof (cases "px_pending ps")
  case None
  with assms show ?thesis by (simp add: retry_pending_websocket_request_def)
next
  case (Some p)
  let ?run = "run_loop (pe_rounds env) (retry_step env i (px_headers ps) (pw_request_messages p)) 0
      (insert (px_account_id ps) (pw_tried_accounts p), s)"
  from assms Some obtain tried where run: "?run = Some (Some (Returned s1 (tried, Switched r sent)))"
      and ps1: "ps1 = map_pending (\<lambda>p. p\<lparr>pw_tried_accounts := tried\<rparr>) ps"
    by (cases ?run) (auto simp: retry_pending_websocket_request_def split: option.splits outcome.splits)
  from retry_loop_switched [OF run] Some ps1 show ?thesis by blast
qed

lemma retry_or_finish_continue:
  assumes "retry_or_finish env i (WsFailed f ra d) ps s = ((ps', s'), Continue)"
  shows "\<exists>p (r :: connection routed_execution) j tried. px_pending ps = Some p
    \<and> px_pending ps' = Some (p\<lparr>pw_tried_accounts := tried, pw_buffered_upstream_messages := []\<rparr>)
    \<and> px_account_id ps' = re_account_id r \<and> px_connection ps' = re_value r
    \<and> px_sent ps' = map (prepared_message (pe_externals env) (pe_mode env)
        (response_shape_for_headers (px_headers ps) = Codex) (pe_snapshot env i j)
        (wc_installation_id (re_value r))) (pw_request_messages p)
    \<and> px_delivered ps' = px_delivered ps \<and> px_mark ps' = px_mark ps \<and> px_request ps' = px_request ps"
proof -
  obtain ps1 s1 r sent where retry:
      "retry_pending_websocket_request env i ps s = Some (ps1, Returned s1 (Switched r sent))"
    and sw: "\<exists>o2. apply_websocket_retry_switch env i (WsFailed f ra d) r sent ps1 s1 = (ps', o2)"
    using assms unfolding retry_or_finish_def
    by (auto simp: finish_def split: option.splits outcome.splits retry_result.splits prod.splits)
  from retry_pending_switched [OF retry] obtain p tried j where k: "px_pending ps = Some p"
      "ps1 = map_pending (\<lambda>p. p\<lparr>pw_tried_accounts := tried\<rparr>) ps"
      "sent = map (prepared_message (pe_externals env) (pe_mode env)
        (response_shape_for_headers (px_headers ps) = Codex) (pe_snapshot env i j)
        (wc_installation_id (re_value r))) (pw_request_messages p)" by blast
  from sw k(2) have ps': "ps' = (map_pending (\<lambda>p. p\<lparr>pw_buffered_upstream_messages := []\<rparr>)
       (ps1\<lparr>px_connection := re_value r, px_sent := sent\<rparr>))
     \<lparr>px_account_id := re_account_id r,
      px_headers := apply_turn_state_to_request_headers (wc_turn_state (re_value r))
        (px_allow_turn_state ps1) (px_headers ps1)\<rparr>"
    by (auto simp: apply_websocket_retry_switch_def Let_def)
  show ?thesis
    by (intro exI [of _ p] exI [of _ r] exI [of _ j] exI [of _ tried] conjI)
      (simp_all add: ps' k map_pending_def)
qed

text \<open>A turn that goes on keeps the account, or comes from a reconnection.\<close>

definition switched_turn ::
  "'fs proxy_env \<Rightarrow> nat \<Rightarrow> proxy_state \<Rightarrow> 'fs world_state \<Rightarrow> proxy_state \<Rightarrow> 'fs world_state \<Rightarrow> bool" where
  "switched_turn env i ps s ps' s' \<longleftrightarrow>
     (\<exists>ps0 f ra d. retry_or_finish env i (WsFailed f ra d) ps0 s = ((ps', s'), Continue)
        \<and> uncommitted ps0 \<and> proxy_inv ps0 \<and> px_delivered ps0 = px_delivered ps
        \<and> px_account_id ps0 = px_account_id ps \<and> px_headers ps0 = px_headers ps)"

definition kept_turn :: "proxy_state \<Rightarrow> 'fs world_state \<Rightarrow> proxy_state \<Rightarrow> 'fs world_state \<Rightarrow> bool" where
  "kept_turn ps s ps' s' \<longleftrightarrow> proxy_inv ps' \<and> px_account_id ps' = px_account_id ps \<and> s' = s"

lemma switched_inv:
  assumes "switched_turn env i ps s ps' s'"
  shows "proxy_inv ps'"
proof -
  from assms obtain ps0 f ra d where r: "retry_or_finish env i (WsFailed f ra d) ps0 s = ((ps', s'), Continue)"
    and u: "uncommitted ps0" "proxy_inv ps0" by (auto simp: switched_turn_def)
  from retry_or_finish_continue [OF r] u show ?thesis
    by (auto simp: proxy_inv_def uncommitted_iff hidden_def)
qed

lemma broken_continue:
  assumes "upstream_broken env i e ps0 s = ((ps', s'), Continue)" "proxy_inv ps0"
    "px_delivered ps0 = px_delivered ps" "px_account_id ps0 = px_account_id ps" "px_headers ps0 = px_headers ps"
  shows "switched_turn env i ps s ps' s'"
  using assms unfolding switched_turn_def
  by (auto simp: upstream_broken_def Let_def finish_def split: if_splits)


lemma noted_fields:
  "px_delivered (noted_message E m ps) = px_delivered ps"
  "px_account_id (noted_message E m ps) = px_account_id ps"
  "px_headers (noted_message E m ps) = px_headers ps"
  by (simp_all add: noted_message_def Let_def)

lemma noted_inv:
  assumes "proxy_inv ps"
  shows "proxy_inv (noted_message E m ps)"
proof -
  define ps1 where "ps1 = (if is_responses_websocket_request_start E m
      then ps\<lparr>px_pending := Some new_pending_request, px_mark := length (px_delivered ps), px_request := []\<rparr>
      else ps)"
  have inv1: "proxy_inv ps1"
    using assms by (auto simp: ps1_def proxy_inv_def hidden_def new_pending_request_def)
  have n: "noted_message E m ps
      = (if should_replay_client_message m
         then (if uncommitted ps1
               then map_pending (\<lambda>p. p\<lparr>pw_request_messages := pw_request_messages p @ [m]\<rparr>)
                      (ps1\<lparr>px_request := px_request ps1 @ [m]\<rparr>)
               else ps1\<lparr>px_request := px_request ps1 @ [m]\<rparr>)
         else ps1)"
    by (simp add: noted_message_def ps1_def [symmetric] Let_def uncommitted_def)
  show ?thesis
  proof (cases "uncommitted ps1")
    case True
    then obtain p where p: "px_pending ps1 = Some p" "\<not> pw_committed p" by (auto simp: uncommitted_iff)
    with inv1 have "hidden ps1" "pw_request_messages p = px_request ps1" by (auto simp: proxy_inv_def)
    with inv1 p True show ?thesis unfolding n by (simp add: proxy_inv_def hidden_def)
  next
    case False
    then have "\<not> uncommitted (ps1\<lparr>px_request := r\<rparr>)" for r by (simp add: uncommitted_def)
    with False show ?thesis unfolding n by (simp add: inv_if_committed)
  qed
qed

lemma client_turn:
  assumes "on_client_message env i m ps s = ((ps', s'), Continue)" "proxy_inv ps"
  shows "kept_turn ps s ps' s' \<or> switched_turn env i ps s ps' s'"
proof (cases "map_client_message_to_upstream m")
  case None
  with assms show ?thesis by (simp add: on_client_message_def Let_def kept_turn_def)
next
  case (Some mapped)
  define ps3 where "ps3 = noted_message (pe_externals env) mapped ps"
  define out where "out = prepared_message (pe_externals env) (pe_mode env) (px_codex_originator ps3)
      (pe_snapshot env i 0) (wc_installation_id (px_connection ps3)) mapped"
  note f = noted_fields [of "pe_externals env" mapped ps, folded ps3_def]
  have inv3: "proxy_inv ps3" unfolding ps3_def by (rule noted_inv [OF assms(2)])
  have eq: "on_client_message env i m ps s =
      (case wc_stream (px_connection ps3) (px_sent ps3) out of
         Some error \<Rightarrow> if (case m of ClClose _ \<Rightarrow> True | _ \<Rightarrow> False) then finish WsReleased ps3 s
                       else upstream_broken env i error ps3 s
       | None \<Rightarrow> (let ps4 = ps3\<lparr>px_sent := px_sent ps3 @ [out]\<rparr>
                  in if (case m of ClClose _ \<Rightarrow> True | _ \<Rightarrow> False) then finish WsReleased ps4 s
                     else ((ps4, s), Continue)))"
    unfolding on_client_message_def Some option.case ps3_def [symmetric] Let_def out_def [symmetric] ..
  show ?thesis
  proof (cases "wc_stream (px_connection ps3) (px_sent ps3) out")
    case None
    with assms(1) eq have "ps' = ps3\<lparr>px_sent := px_sent ps3 @ [out]\<rparr>" "s' = s"
      by (auto simp: Let_def finish_def split: if_splits)
    with inv3 f show ?thesis by (auto simp: kept_turn_def proxy_inv_def hidden_def)
  next
    case (Some e)
    with assms(1) eq have "upstream_broken env i e ps3 s = ((ps', s'), Continue)"
      by (auto simp: finish_def split: if_splits)
    from broken_continue [OF this inv3 f] show ?thesis by blast
  qed
qed

lemma established_turn:
  assumes "on_established env m ks ps s = ((ps', s'), Continue)" "\<not> uncommitted ps"
  shows "kept_turn ps s ps' s'"
proof -
  obtain ps1 r where fw: "forward_message_or_settle env m ks ps = (ps1, r)" by fastforce
  note f = forward_or_settle_fields [OF fw]
  have "ps' = (if upstream_message_is_terminal (pe_externals env) m then ps1\<lparr>px_pending := None\<rparr> else ps1)"
      "s' = s"
    using assms(1) fw
    by (auto simp: on_established_def delivered_then_def finish_def split: option.splits)
  moreover have "proxy_inv ps1" using assms(2) f by (auto intro!: inv_if_committed simp: uncommitted_iff)
  ultimately show ?thesis using f by (auto simp: kept_turn_def)
qed

text \<open>The two parts of a message before the commit: it is kept or passed on, and it may commit.\<close>

lemma kept_back:
  assumes "(if should_buffer_upstream_message_before_commit m
      then (map_pending (\<lambda>p. p\<lparr>pw_buffered_upstream_messages := pw_buffered_upstream_messages p @ [m]\<rparr>) ps, None)
      else forward_message_or_settle env m ks ps) = (ps1, r)" "proxy_inv ps"
  shows "px_account_id ps1 = px_account_id ps \<and> proxy_inv ps1"
proof (cases "should_buffer_upstream_message_before_commit m")
  case True
  with assms show ?thesis by (auto intro: inv_map_pending)
next
  case False
  with assms(1) have fw: "forward_message_or_settle env m ks ps = (ps1, r)" by simp
  show ?thesis
    using forward_or_settle_fields [OF fw] forward_or_settle_hidden [OF fw _ False] assms(2)
    by (auto simp: proxy_inv_def)
qed

lemma maybe_committed:
  assumes "(if commits then flush_buffered_or_settle env ks (map_pending (\<lambda>p. p\<lparr>pw_committed := True\<rparr>) ps)
      else (ps, None)) = (ps2, r)" "proxy_inv ps"
  shows "px_account_id ps2 = px_account_id ps \<and> proxy_inv ps2"
proof (cases commits)
  case True
  with assms(1) have fl: "flush_buffered_or_settle env ks (map_pending (\<lambda>p. p\<lparr>pw_committed := True\<rparr>) ps)
      = (ps2, r)" by simp
  have "\<not> uncommitted ps2"
    using flush_or_settle_fields [OF fl] by (cases "px_pending ps") (auto simp: uncommitted_iff)
  with flush_or_settle_fields [OF fl] inv_if_committed show ?thesis by simp
qed (use assms in simp)

lemma uncommitted_turn:
  assumes "on_uncommitted env m ks ps s = ((ps', s'), Continue)" "uncommitted ps" "proxy_inv ps"
  shows "kept_turn ps s ps' s'"
proof -
  let ?E = "pe_externals env"
  obtain ps1 r where d: "(if should_buffer_upstream_message_before_commit m
      then (map_pending (\<lambda>p. p\<lparr>pw_buffered_upstream_messages := pw_buffered_upstream_messages p @ [m]\<rparr>) ps, None)
      else forward_message_or_settle env m ks ps) = (ps1, r)" by fastforce
  obtain ps2 r2 where d2: "(if upstream_message_commits_request ?E m
      then flush_buffered_or_settle env ks (map_pending (\<lambda>p. p\<lparr>pw_committed := True\<rparr>) ps1)
      else (ps1, None)) = (ps2, r2)" by fastforce
  have "((ps', s'), Continue) = (case r of Some x \<Rightarrow> ((ps1, s), Finish x)
      | None \<Rightarrow> (case r2 of Some x \<Rightarrow> ((ps2, s), Finish x)
        | None \<Rightarrow> if upstream_message_is_terminal ?E m then settled_turn ks (ps2\<lparr>px_pending := None\<rparr>) s
                 else ((ps2, s), Continue)))"
    using assms(1) unfolding on_uncommitted_def Let_def d
    by (simp add: delivered_then_def d2 split: option.splits)
  then have "s' = s" "ps' = ps2 \<or> ps' = ps2\<lparr>px_pending := None\<rparr>"
    by (auto simp: settled_turn_def finish_def split: option.splits if_splits)
  with kept_back [OF d assms(3)] maybe_committed [OF d2] show ?thesis by (auto simp: kept_turn_def)
qed

lemma delivered_finish:
  "delivered_then x s (\<lambda>ps. finish out ps s) \<noteq> ((ps', s'), Continue)"
  "delivered_then x s (\<lambda>ps. delivered_then (f ps) s (\<lambda>ps. finish out ps s)) \<noteq> ((ps', s'), Continue)"
  by (auto simp: delivered_then_def finish_def split: prod.splits option.splits)

lemma answered_turn:
  assumes "(case (uncommitted ps, ks) of
        (True, Some (WsFailed failure retry_after details)) \<Rightarrow>
          (let out = WsFailed failure retry_after details
           in if should_failover_precommit_failure out classified
              then retry_or_finish env i out ps s
              else delivered_then (flush_buffered_or_settle env (Some out) ps) s
                (\<lambda>ps1. delivered_then (forward_message_or_settle env m (Some out) ps1) s
                  (\<lambda>ps2. finish out ps2 s)))
      | (True, _) \<Rightarrow> on_uncommitted env m ks ps s
      | (False, _) \<Rightarrow> on_established env m ks ps s) = ((ps', s'), Continue)"
    and "proxy_inv ps"
  shows "kept_turn ps s ps' s' \<or> switched_turn env i ps s ps' s'"
proof (cases "uncommitted ps")
  case False
  with assms(1) have "on_established env m ks ps s = ((ps', s'), Continue)" by simp
  from established_turn [OF this False] show ?thesis ..
next
  case True
  show ?thesis
  proof (cases "\<exists>f ra d. ks = Some (WsFailed f ra d)")
    case False
    with assms(1) True have "on_uncommitted env m ks ps s = ((ps', s'), Continue)"
      by (auto split: option.splits websocket_proxy_outcome.splits)
    from uncommitted_turn [OF this True assms(2)] show ?thesis ..
  next
    case failed: True
    then obtain f ra d where "ks = Some (WsFailed f ra d)" by blast
    with assms(1) True have "retry_or_finish env i (WsFailed f ra d) ps s = ((ps', s'), Continue)"
      by (auto simp: delivered_finish Let_def split: if_splits)
    with True assms(2) show ?thesis unfolding switched_turn_def by blast
  qed
qed

lemma upstream_turn:
  assumes "on_upstream_message env i raw ps s = ((ps', s'), Continue)" "proxy_inv ps"
  shows "kept_turn ps s ps' s' \<or> switched_turn env i ps s ps' s'"
proof (cases "normalize_websocket_rate_limit_message (pe_externals env) (px_codex_originator ps) raw")
  case None
  with assms show ?thesis by (simp add: on_upstream_message_def Let_def kept_turn_def)
next
  case (Some limited)
  let ?m = "rewrite_previous_response_not_found_message (pe_externals env) limited"
  show ?thesis
  proof (cases "should_passthrough_retryable_websocket_reset (pe_externals env) (uncommitted ps) ?m")
    case True
    with assms(1) Some show ?thesis by (simp add: on_upstream_message_def Let_def delivered_finish)
  next
    case False
    from assms(1) [unfolded on_upstream_message_def Let_def Some option.case if_not_P [OF False]] assms(2)
    show ?thesis by (intro answered_turn) (simp_all only: Let_def)
  qed
qed

lemma turn_cases:
  assumes "proxy_turn env i event ps s = ((ps', s'), Continue)" "proxy_inv ps"
  shows "kept_turn ps s ps' s' \<or> switched_turn env i ps s ps' s'"
proof (cases event)
  case (FromClient m)
  with assms(1) show ?thesis by (intro client_turn [OF _ assms(2)]) (simp add: proxy_turn_def)
next
  case (FromUpstream m)
  with assms(1) show ?thesis by (intro upstream_turn [OF _ assms(2)]) (simp add: proxy_turn_def)
next
  case (UpstreamFailed e)
  with assms(1) show ?thesis
    by (intro disjI2 broken_continue [OF _ assms(2) refl refl refl]) (simp add: proxy_turn_def)
next
  case UpstreamClosed
  with assms(1) show ?thesis
    by (intro disjI2 broken_continue [OF _ assms(2) refl refl refl]) (simp add: proxy_turn_def)
qed (use assms(1) in \<open>simp_all add: proxy_turn_def finish_def\<close>)

lemma turn_inv:
  "proxy_turn env i event ps s = ((ps', s'), Continue) \<Longrightarrow> proxy_inv ps \<Longrightarrow> proxy_inv ps'"
  using turn_cases switched_inv by (fastforce simp: kept_turn_def)

lemma loop_inv:
  "proxy_loop env i events ps s = ((ps', s'), Continue) \<Longrightarrow> proxy_inv ps \<Longrightarrow> proxy_inv ps'"
  by (induction env i events ps s rule: proxy_loop.induct)
    (auto split: prod.splits proxy_verdict.splits intro: turn_inv)

lemma initial_inv: "proxy_inv (initial_proxy headers initial allow)"
  by (simp add: proxy_inv_def initial_proxy_def)

lemma switch_invisible:
  assumes "switched_turn env i ps s ps' s'"
  shows "\<exists>p j. px_pending ps' = Some p \<and> \<not> pw_committed p \<and> pw_buffered_upstream_messages p = []
    \<and> px_delivered ps' = px_delivered ps
    \<and> (\<forall>m \<in> set (drop (px_mark ps') (px_delivered ps')). \<not> content m)
    \<and> px_sent ps' = map (prepared_message (pe_externals env) (pe_mode env)
        (response_shape_for_headers (px_headers ps) = Codex) (pe_snapshot env i j)
        (wc_installation_id (px_connection ps'))) (px_request ps')"
proof -
  from assms obtain ps0 f ra d where r: "retry_or_finish env i (WsFailed f ra d) ps0 s = ((ps', s'), Continue)"
    and u: "uncommitted ps0" "proxy_inv ps0" "px_delivered ps0 = px_delivered ps"
      "px_headers ps0 = px_headers ps" by (auto simp: switched_turn_def)
  from retry_or_finish_continue [OF r] obtain p j tried and rep :: "connection routed_execution" where k:
    "px_pending ps0 = Some p"
    "px_pending ps' = Some (p\<lparr>pw_tried_accounts := tried, pw_buffered_upstream_messages := []\<rparr>)"
    "px_connection ps' = re_value rep"
    "px_sent ps' = map (prepared_message (pe_externals env) (pe_mode env)
        (response_shape_for_headers (px_headers ps0) = Codex) (pe_snapshot env i j)
        (wc_installation_id (re_value rep))) (pw_request_messages p)"
    "px_delivered ps' = px_delivered ps0" "px_mark ps' = px_mark ps0" "px_request ps' = px_request ps0"
    by blast
  have "\<not> pw_committed p" "hidden ps0" "pw_request_messages p = px_request ps0"
    using u(1,2) k(1) by (auto simp: uncommitted_iff proxy_inv_def)
  with k u(3,4) show ?thesis
    by (intro exI [of _ "p\<lparr>pw_tried_accounts := tried, pw_buffered_upstream_messages := []\<rparr>"] exI [of _ j])
      (simp add: hidden_def)
qed



text \<open>A run: the caller starts a request on \<open>a\<close>, the upstream closes, the proxy moves to \<open>b\<close>.\<close>

definition sample_connection :: connection where
  "sample_connection = \<lparr>wc_stream = (\<lambda>_ _. None), wc_installation_id = None, wc_turn_state = None\<rparr>"

definition reads_create :: "string \<Rightarrow> json option" where
  "reads_create s = (if s = ''r'' then Some (JObject [(''type'', JString ''response.create'')]) else None)"

definition sample_proxy_env :: "unit proxy_env" where
  "sample_proxy_env =
     \<lparr>pe_externals = sample_externals\<lparr>parse_json := reads_create\<rparr>, pe_config = sample_config,
      pe_mode = Passthrough, pe_world = (\<lambda>_ _. quiet_world),
      pe_upstream = (\<lambda>_ _ _. answering_with sample_connection), pe_snapshot = (\<lambda>_ _. None),
      pe_client_takes = (\<lambda>_ _. True), pe_now = (\<lambda>_. 0), pe_rounds = 2, pe_inner_rounds = 3\<rparr>"

definition sample_start :: proxy_state where
  "sample_start = initial_proxy [(''originator'', ''codex'')]
     \<lparr>re_account_id = ''a'', re_value = sample_connection\<rparr> False"

lemma sample_env_simps [simp]:
  "pe_externals sample_proxy_env = sample_externals\<lparr>parse_json := reads_create\<rparr>"
  "pe_config sample_proxy_env = sample_config" "pe_mode sample_proxy_env = Passthrough"
  "pe_world sample_proxy_env i j = quiet_world"
  "pe_upstream sample_proxy_env i j h = answering_with sample_connection"
  "pe_snapshot sample_proxy_env i j = None" "pe_rounds sample_proxy_env = 2"
  "pe_inner_rounds sample_proxy_env = 3" "pe_client_takes sample_proxy_env d m"
  by (simp_all add: sample_proxy_env_def)

lemma sample_prepared:
  "prepared_message (sample_externals\<lparr>parse_json := reads_create\<rparr>) Passthrough True None inst (WsText ''r'')
   = WsText ''r''"
  by (simp add: prepared_message_def normalize_response_create_message_def
      normalize_response_create_payload_def reads_create_def jget_str_def jget_def
      normalize_responses_request_body_def Let_def)

lemma sample_codex: "response_shape_for_headers [(''originator'', ''codex'')] = Codex"
  by (simp add: response_shape_for_headers_def hdr_get_str_def hdr_get_def hv_to_str_def)

lemma sample_first_turn:
  "proxy_turn sample_proxy_env 0 (FromClient (ClText ''r'')) sample_start s
     = ((sample_start\<lparr>px_pending := Some (new_pending_request\<lparr>pw_request_messages := [WsText ''r'']\<rparr>),
                      px_request := [WsText ''r''], px_sent := [WsText ''r'']\<rparr>, s), Continue)"
proof -
  have start: "is_responses_websocket_request_start (sample_externals\<lparr>parse_json := reads_create\<rparr>) (WsText ''r'')"
    by (simp add: is_responses_websocket_request_start_def websocket_message_type_def reads_create_def
        jget_str_def jget_def)
  have n: "noted_message (sample_externals\<lparr>parse_json := reads_create\<rparr>) (WsText ''r'') sample_start
      = sample_start\<lparr>px_pending := Some (new_pending_request\<lparr>pw_request_messages := [WsText ''r'']\<rparr>),
                     px_request := [WsText ''r'']\<rparr>"
    by (simp add: noted_message_def start Let_def uncommitted_def new_pending_request_def map_pending_def
        sample_start_def initial_proxy_def)
  show ?thesis
    unfolding proxy_turn_def on_client_message_def Let_def proxy_event.case client_message.case
      map_client_message_to_upstream.simps option.case sample_env_simps n
    by (simp add: sample_start_def initial_proxy_def sample_codex sample_prepared sample_connection_def
        apply_turn_state_to_request_headers_def)
qed

text \<open>The reconnection of a request on the account \<open>a\<close>, which the pool does not have, to the account \<open>b\<close>.\<close>

abbreviation reading_externals :: externals where
  "reading_externals \<equiv> sample_externals\<lparr>parse_json := reads_create\<rparr>"

lemma sample_reconnection:
  fixes ps :: proxy_state
  assumes "px_headers ps = [(''originator'', ''codex'')]" "px_account_id ps = ''a''"
    "px_pending ps = Some (new_pending_request\<lparr>pw_request_messages := [WsText ''r'']\<rparr>)"
  shows "\<exists>s1. retry_pending_websocket_request sample_proxy_env 1 ps sample_world_state
      = Some (map_pending (\<lambda>p. p\<lparr>pw_tried_accounts := {''a''}\<rparr>) ps,
          Returned s1 (Switched \<lparr>re_account_id = ''b'', re_value = sample_connection\<rparr> [WsText ''r'']))
    \<and> records_get (ws_store s1) ''a'' = None"
proof -
  let ?E = reading_externals
  obtain s1 where fo: "execute_with_failover_from 3 ?E sample_config quiet_world
       (answering_with sample_connection) {''a''} sample_world_state
     = Some (Returned s1 ({''a''}, Inr \<lparr>re_account_id = ''b'', re_value = sample_connection\<rparr>))"
    using sample_failover_with [of "{''a''}" reads_create sample_connection "()"] by auto
  have hold: "sample_config\<lparr>fc_disposition := HoldUntilCaller\<rparr> = sample_config"
    by (simp add: sample_config_def)
  have replay: "replay_buffered_request_messages ?E Passthrough True None sample_connection [WsText ''r'']
      = ([WsText ''r''], None)"
    by (simp add: replay_buffered_request_messages_def sample_prepared)
      (simp add: sample_connection_def)
  have step: "retry_step sample_proxy_env 1 [(''originator'', ''codex'')] [WsText ''r''] 0
        ({''a''}, sample_world_state)
      = Inr (Some (Returned s1 ({''a''}, Switched \<lparr>re_account_id = ''b'', re_value = sample_connection\<rparr>
          [WsText ''r''])))"
    by (simp add: retry_step_def hold fo sample_codex replay)
  have "retry_pending_websocket_request sample_proxy_env 1 ps sample_world_state
      = Some (map_pending (\<lambda>p. p\<lparr>pw_tried_accounts := {''a''}\<rparr>) ps,
          Returned s1 (Switched \<lparr>re_account_id = ''b'', re_value = sample_connection\<rparr> [WsText ''r'']))"
    unfolding retry_pending_websocket_request_def assms
    by (simp add: numeral_2_eq_2 step new_pending_request_def del: One_nat_def)
  moreover have "pool {''b''} (ws_store s1)"
    using failover_loop_settles [OF sample_pool fo] by blast
  ultimately show ?thesis by (auto simp: pool_def)
qed

lemma sample_second_turn:
  fixes ps :: proxy_state
  defines "ps \<equiv> sample_start\<lparr>px_pending := Some (new_pending_request\<lparr>pw_request_messages := [WsText ''r'']\<rparr>),
      px_request := [WsText ''r''], px_sent := [WsText ''r'']\<rparr>"
  shows "\<exists>ps' s'. proxy_turn sample_proxy_env 1 UpstreamClosed ps sample_world_state = ((ps', s'), Continue)
    \<and> px_account_id ps' = ''b'' \<and> px_request ps' = [WsText ''r''] \<and> px_connection ps' = sample_connection"
proof -
  let ?d = "stream_failed ''closed''" and ?new = "\<lparr>re_account_id = ''b'', re_value = sample_connection\<rparr>"
  have ps: "px_headers ps = [(''originator'', ''codex'')]" "px_account_id ps = ''a''"
      "px_pending ps = Some (new_pending_request\<lparr>pw_request_messages := [WsText ''r'']\<rparr>)"
      "px_request ps = [WsText ''r'']" "uncommitted ps"
    by (simp_all add: ps_def sample_start_def initial_proxy_def apply_turn_state_to_request_headers_def
        uncommitted_def new_pending_request_def)
  from sample_reconnection [OF ps(1-3)] obtain s1 where
    retry: "retry_pending_websocket_request sample_proxy_env 1 ps sample_world_state
      = Some (map_pending (\<lambda>p. p\<lparr>pw_tried_accounts := {''a''}\<rparr>) ps, Returned s1 (Switched ?new [WsText ''r'']))"
    and gone: "records_get (ws_store s1) ''a'' = None" by blast
  obtain s2 where s2: "settle_at reading_externals quiet_world ''a'' (SettleFailure TemporaryFailure None ?d) s1
      = Returned s2 ()"
    using gone by (simp add: settle_at_def Let_def mark_request_failure_def apply_failure_def)
  have "proxy_turn sample_proxy_env 1 UpstreamClosed ps sample_world_state
      = retry_or_finish sample_proxy_env 1 (WsFailed TemporaryFailure None ?d) ps sample_world_state"
    by (simp add: proxy_turn_def upstream_broken_def Let_def ps)
  also have "\<dots> = ((fst (apply_websocket_retry_switch sample_proxy_env 1
        (WsFailed TemporaryFailure None ?d) ?new
        [WsText ''r''] (map_pending (\<lambda>p. p\<lparr>pw_tried_accounts := {''a''}\<rparr>) ps) s1), s2), Continue)"
    unfolding retry_or_finish_def retry by (simp add: apply_websocket_retry_switch_def Let_def ps s2)
  finally show ?thesis
    by (simp add: apply_websocket_retry_switch_def Let_def ps)
qed


section \<open>A failure that is lost\<close>

text \<open>
  C40: a failure the upstream reports in an event that has no \<open>response\<close> member is lost when nothing of
  the answer has been passed on yet. The event is put behind the buffered messages, is recognised as
  the end of the request, and the request is dropped with its buffer: the caller, who waits for the
  end of its request, is sent nothing, no other account is tried, the account is not blocked, and the proxy goes on.
\<close>

theorem malformed_failure_is_lost:
  assumes "uncommitted ps" "parse_json (pe_externals env) t = Some v"
    and "jget_str v ''type'' \<in> Some ` {''response.failed'', ''response.incomplete''}"
    and "jget v ''response'' = None"
    and "error_code_of v \<noteq> Some WEBSOCKET_CONNECTION_LIMIT_REACHED_CODE"
  shows "proxy_turn env i (FromUpstream (WsText t)) ps s = ((ps\<lparr>px_pending := None\<rparr>, s), Continue)"
proof -
  let ?E = "pe_externals env"
  have type: "jget_str v ''type'' = Some ''response.failed'' \<or> jget_str v ''type'' = Some ''response.incomplete''"
    using assms(3) by blast
  then have unknown: "analyze_websocket_terminal_text ?E now t = None" for now
    using assms(2,4) by (auto simp: analyze_websocket_terminal_text_def)
  have message: "normalize_websocket_rate_limit_message ?E x (WsText t) = Some (WsText t)"
      "rewrite_previous_response_not_found_message ?E (WsText t) = WsText t" for x
    using type assms(2)
    by (auto simp: normalize_websocket_rate_limit_message_def websocket_message_type_def
        rewrite_previous_response_not_found_message_def rewrite_previous_response_not_found_payload_def)
  have kind: "\<not> upstream_message_commits_request ?E (WsText t)" "upstream_message_is_terminal ?E (WsText t)"
    using type assms(2) by (auto simp: websocket_message_type_def)
  have reset: "\<not> should_passthrough_retryable_websocket_reset ?E x (WsText t)" for x
    using assms(2,5) by (simp add: should_passthrough_retryable_websocket_reset_def websocket_wrapped_error_has_code_def)
  have settlement: "active_request_close_failure x (WsText t)
      (classify_websocket_upstream_control_message ?E now (WsText t)) = None" for x now
    by (simp add: active_request_close_failure_def classify_websocket_control_text_def unknown)
  have "on_uncommitted env (WsText t) None ps s = ((ps\<lparr>px_pending := None\<rparr>, s), Continue)"
    unfolding on_uncommitted_def Let_def should_buffer_upstream_message_before_commit.simps if_True
      if_not_P [OF kind(1)] if_P [OF kind(2)]
    by (simp add: delivered_then_def settled_turn_def map_pending_def)
  then show ?thesis
    unfolding proxy_turn_def on_upstream_message_def Let_def proxy_event.case message option.case settlement
      if_not_P [OF reset]
    using assms(1) by simp
qed

theorem malformed_failure_is_lost_witness:
  "proxy_turn (sample_proxy_env\<lparr>pe_externals := sample_externals\<lparr>parse_json :=
        \<lambda>_. Some (JObject [(''type'', JString ''response.failed'')])\<rparr>\<rparr>) 2 (FromUpstream (WsText ''f''))
      (sample_start\<lparr>px_pending := Some new_pending_request\<rparr>) sample_world_state
    = ((sample_start, sample_world_state), Continue)"
proof -
  let ?ps = "sample_start\<lparr>px_pending := Some new_pending_request\<rparr>"
  let ?env = "sample_proxy_env\<lparr>pe_externals := sample_externals\<lparr>parse_json :=
        \<lambda>_. Some (JObject [(''type'', JString ''response.failed'')])\<rparr>\<rparr>"
  have a: "uncommitted ?ps" by (simp add: uncommitted_def new_pending_request_def)
  have "?ps\<lparr>px_pending := None\<rparr> = sample_start" by (simp add: sample_start_def initial_proxy_def)
  with malformed_failure_is_lost [OF a, where env = ?env and t = "''f''" and i = 2 and s = sample_world_state
      and v = "JObject [(''type'', JString ''response.failed'')]"]
  show ?thesis by (simp add: jget_str_def jget_def error_code_of_def)
qed

end
