(* ===== verification/Ws_Settlement.thy ===== *)
theory Ws_Settlement
  imports Ws_Proxy
begin

text \<open>
  The websocket proxy gives back every account it takes: the reconnection loop returns, and of the
  accounts a proxy selects each is settled once, but the one it reports, which its caller settles.
\<close>

section \<open>Books\<close>

text \<open>The events of a run that holds one account, \<open>k\<close>, and has settled every other one.\<close>

definition holding :: "string \<Rightarrow> store_event list \<Rightarrow> bool" where
  "holding k evs \<longleftrightarrow> all_settled (evs @ [Settled k])"

text \<open>The same up to a selection whose record has disappeared.\<close>

definition settled_but_gone :: "account_store \<Rightarrow> store_event list \<Rightarrow> bool" where
  "settled_but_gone st evs \<longleftrightarrow>
     (\<forall>k. balanced k evs) \<and>
     ((\<forall>k. opened k evs = settled k evs)
      \<or> (\<exists>k. records_get st k = None \<and> (\<forall>j. opened j evs = settled j evs + (if j = k then 1 else 0))))"

lemma all_settled_but_gone: "all_settled evs \<Longrightarrow> settled_but_gone st evs"
  by (simp add: all_settled_def settled_but_gone_def)

lemma balanced_prefix: "balanced k (xs @ ys) \<Longrightarrow> balanced k xs"
  unfolding balanced_def
proof (intro allI impI)
  fix n assume all: "\<forall>n\<le>length (xs @ ys). settled k (take n (xs @ ys)) \<le> opened k (take n (xs @ ys))"
    and n: "n \<le> length xs"
  from n have "n \<le> length (xs @ ys)" by simp
  with all have "settled k (take n (xs @ ys)) \<le> opened k (take n (xs @ ys))" by blast
  with n show "settled k (take n xs) \<le> opened k (take n xs)" by simp
qed

lemma counts_single [simp]:
  "opened j [Settled k] = 0" "settled j [Settled k] = (if j = k then 1 else 0)"
  "opened j [Selected k] = (if j = k then 1 else 0)" "settled j [Selected k] = 0"
  by (simp_all add: opened_def settled_def)

lemma holding_counts:
  assumes "holding k evs"
  shows "balanced j evs" "opened j evs = settled j evs + (if j = k then 1 else 0)"
proof -
  have b: "balanced j (evs @ [Settled k])" and o: "opened j (evs @ [Settled k]) = settled j (evs @ [Settled k])"
    using assms by (auto simp: holding_def all_settled_def)
  show "balanced j evs" using b by (rule balanced_prefix)
  show "opened j evs = settled j evs + (if j = k then 1 else 0)"
    using o by (simp add: opened_append settled_append)
qed

lemma balanced_snoc_settled:
  assumes "balanced j evs" "settled j evs + (if j = k then 1 else 0) \<le> opened j evs"
  shows "balanced j (evs @ [Settled k])"
  unfolding balanced_def
proof (intro allI impI)
  fix n assume n: "n \<le> length (evs @ [Settled k])"
  show "settled j (take n (evs @ [Settled k])) \<le> opened j (take n (evs @ [Settled k]))"
  proof (cases "n \<le> length evs")
    case True
    with assms(1) show ?thesis by (simp add: balanced_def)
  next
    case False
    with n have "take n (evs @ [Settled k]) = evs @ [Settled k]" by simp
    then show ?thesis using assms(2) by (simp only: opened_append settled_append counts_single)
  qed
qed

lemma holdingI:
  assumes "\<And>j. balanced j evs" "\<And>j. opened j evs = settled j evs + (if j = k then 1 else 0)"
  shows "holding k evs"
  unfolding holding_def all_settled_def
proof (intro allI conjI)
  fix j
  show "balanced j (evs @ [Settled k])"
    by (rule balanced_snoc_settled [OF assms(1)]) (simp add: assms(2))
  show "opened j (evs @ [Settled k]) = settled j (evs @ [Settled k])"
    using assms(2) [of j] by (simp add: opened_append settled_append)
qed

lemma holding_start: "holding k [Selected k]"
  by (rule holdingI) (auto simp: balanced_def le_Suc_eq opened_def settled_def)

text \<open>A run that holds \<open>a\<close>, a reconnection that ends with \<open>k\<close>, and the settlement of \<open>a\<close>.\<close>

lemma holding_switch:
  assumes "holding a xs" "holding k ys"
  shows "holding k (xs @ ys @ [Settled a])"
proof (rule holdingI)
  fix j
  note x = holding_counts [OF assms(1), of j] and y = holding_counts [OF assms(2), of j]
  show "opened j (xs @ ys @ [Settled a]) = settled j (xs @ ys @ [Settled a]) + (if j = k then 1 else 0)"
    using x(2) y(2) by (simp add: opened_append settled_append)
  have "balanced j (xs @ ys)" using balanced_append [OF x(1) _ y(1)] x(2) by simp
  moreover have "settled j (xs @ ys) + (if j = a then 1 else 0) \<le> opened j (xs @ ys)"
    using x(2) y(2) by (simp add: opened_append settled_append)
  ultimately show "balanced j (xs @ ys @ [Settled a])"
    using balanced_snoc_settled [of j "xs @ ys" a] by simp
qed

lemma holding_gone:
  assumes "holding a xs" "settled_but_gone st ys"
  shows "settled_but_gone st (xs @ ys @ [Settled a])"
proof -
  have c: "opened j (xs @ ys @ [Settled a]) = settled j (xs @ ys @ [Settled a]) + n"
    if "opened j ys = settled j ys + n" for j n
    using holding_counts(2) [OF assms(1), of j] that by (simp add: opened_append settled_append)
  have "balanced j (xs @ ys @ [Settled a])" for j
  proof -
    have y: "balanced j ys" "settled j ys \<le> opened j ys"
      using assms(2) by (auto simp: settled_but_gone_def)
    have "balanced j (xs @ ys)"
      using balanced_append [OF holding_counts(1) [OF assms(1)] _ y(1)] holding_counts(2) [OF assms(1), of j]
      by simp
    moreover have "settled j (xs @ ys) + (if j = a then 1 else 0) \<le> opened j (xs @ ys)"
      using holding_counts(2) [OF assms(1), of j] y(2) by (simp add: opened_append settled_append)
    ultimately show ?thesis using balanced_snoc_settled [of j "xs @ ys" a] by simp
  qed
  with assms(2) c [where n = 0] c show ?thesis
    unfolding settled_but_gone_def by (metis add.right_neutral)
qed


section \<open>The reconnection\<close>

lemma failover_failed:
  assumes "confined X W" "pool X (ws_store s)"
    "execute_with_failover_from fuel E C W U tried s = Some (Returned s1 (tried', Inl f))"
  shows "pool X (ws_store s1) \<and> (\<exists>evs. accounting s1 = accounting s @ evs \<and> settled_but_gone (ws_store s1) evs)"
proof -
  from failover_loop_settles [OF assms] obtain evs where e: "accounting s1 = accounting s @ evs"
    "pool X (ws_store s1)" "\<And>k. balanced k evs"
    "(\<forall>k. opened k evs = settled k evs) \<or> (\<exists>k e. f = FoInternal 500 e
       \<and> records_get (ws_store s1) k = None
       \<and> (\<forall>j. opened j evs = settled j evs + (if j = k then 1 else 0)))"
    by auto
  then show ?thesis unfolding settled_but_gone_def by blast
qed

definition retry_inv :: "string set \<Rightarrow> 'fs proxy_env \<Rightarrow> string set \<times> 'fs world_state \<Rightarrow> bool" where
  "retry_inv X env x \<longleftrightarrow>
     finite X \<and> 2 * card X < pe_inner_rounds env \<and> (\<forall>i j. confined X (pe_world env i j))
     \<and> pool X (ws_store (snd x))"

definition retry_budget :: "string set \<Rightarrow> string set \<times> 'fs world_state \<Rightarrow> nat" where
  "retry_budget X x = card (X - fst x)"

lemma retry_again:
  assumes "\<And>i j. confined X (pe_world env i j)" "pool X (ws_store s)"
    "retry_step env i h ms j (tried, s) = Inl (tried', s')"
  shows "pool X (ws_store s') \<and> (\<exists>k \<in> X. k \<notin> tried \<and> insert k tried \<subseteq> tried')
    \<and> (\<exists>evs. accounting s' = accounting s @ evs \<and> all_settled evs)"
proof -
  let ?W = "pe_world env i (Suc j)"
  from assms(3) obtain s1 tried1 x e s2 u where inner:
    "execute_with_failover_from (pe_inner_rounds env) (pe_externals env)
       ((pe_config env)\<lparr>fc_disposition := HoldUntilCaller\<rparr>) ?W (pe_upstream env i j h) tried s
     = Some (Returned s1 (tried1, Inr x))"
    and st: "settle_at (pe_externals env) ?W (re_account_id x)
        (SettleFailure TemporaryFailure None (stream_failed e)) s1 = Returned s2 u"
      "s' = s2" "tried' = insert (re_account_id x) tried1"
    by (auto simp: retry_step_def split: option.splits outcome.splits sum.splits prod.splits)
  from inner_then_settled [OF assms(1,2) inner] obtain evs where e:
    "pool X (ws_store s1)" "re_account_id x \<in> X - tried1" "tried \<subseteq> tried1"
    "accounting s1 = accounting s @ evs" "all_settled (evs @ [Settled (re_account_id x)])"
    by blast
  from settle_at_keeps [where W = ?W and X = X and s = s1 and E = "pe_externals env" and k = "re_account_id x"
      and st = "SettleFailure TemporaryFailure None (stream_failed e)", OF assms(1) e(1)] st
  have "pool X (ws_store s')" "accounting s' = accounting s @ (evs @ [Settled (re_account_id x)])"
    using e(4) by simp_all
  with e(2,3,5) st(3) show ?thesis by blast
qed

interpretation ws_retry: budgeted_loop "retry_step env i h ms" "retry_inv X env" "retry_budget X"
  for env :: "'fs proxy_env" and i h ms X
proof
  fix x j and x' :: "string set \<times> 'fs world_state"
  assume inv: "retry_inv X env x" and step: "retry_step env i h ms j x = Inl x'"
  obtain tried s tried' s' where x: "x = (tried, s)" "x' = (tried', s')" by fastforce
  from inv have r: "finite X" "\<And>i j. confined X (pe_world env i j)" "pool X (ws_store s)"
    by (auto simp: retry_inv_def x)
  from retry_again [OF r(2,3) step [unfolded x]] obtain k where
    k: "pool X (ws_store s')" "k \<in> X" "k \<notin> tried" "insert k tried \<subseteq> tried'" by blast
  have "card (X - tried') < card (X - tried)"
    by (rule psubset_card_mono) (use r(1) k in auto)
  with inv k(1) show "retry_inv X env x' \<and> retry_budget X x' < retry_budget X x"
    by (auto simp: retry_inv_def retry_budget_def x)
qed

text \<open>The account book of a reconnection, counted from \<open>log\<close>.\<close>

definition retry_book ::
  "string set \<Rightarrow> store_event list \<Rightarrow> 'fs world_state \<Rightarrow> retry_result \<Rightarrow> bool" where
  "retry_book X log s1 r \<longleftrightarrow>
     pool X (ws_store s1) \<and>
     (\<exists>evs. accounting s1 = log @ evs \<and>
        (case r of
           Switched replacement sent \<Rightarrow> holding (re_account_id replacement) evs
         | NoReplacement m \<Rightarrow> settled_but_gone (ws_store s1) evs))"

lemma retry_book_append:
  assumes "retry_book X (log @ evs) s1 r" "all_settled evs"
  shows "retry_book X log s1 r"
proof -
  from assms(1) obtain ys where y: "pool X (ws_store s1)" "accounting s1 = log @ evs @ ys"
      "case r of Switched replacement sent \<Rightarrow> holding (re_account_id replacement) ys
         | NoReplacement m \<Rightarrow> settled_but_gone (ws_store s1) ys"
    by (auto simp: retry_book_def)
  have b: "balanced j evs" "opened j evs = settled j evs" for j
    using assms(2) by (auto simp: all_settled_def)
  have bal: "balanced j ys \<Longrightarrow> balanced j (evs @ ys)" for j using balanced_append [OF b(1)] b(2) by simp
  have "case r of Switched replacement sent \<Rightarrow> holding (re_account_id replacement) (evs @ ys)
         | NoReplacement m \<Rightarrow> settled_but_gone (ws_store s1) (evs @ ys)"
  proof (cases r)
    case (Switched rep sent)
    with y(3) have h: "holding (re_account_id rep) ys" by simp
    have "holding (re_account_id rep) (evs @ ys)"
      using bal holding_counts [OF h] b(2)
      by (intro holdingI) (simp_all add: opened_append settled_append)
    with Switched show ?thesis by simp
  next
    case (NoReplacement m)
    with y(3) bal b(2) show ?thesis
      by (auto simp: settled_but_gone_def opened_append settled_append)
  qed
  with y(1,2) show ?thesis unfolding retry_book_def by blast
qed

lemma retry_stop:
  assumes "retry_inv X env (tried, s)" "retry_step env i h ms j (tried, s) = Inr w"
  shows "\<exists>res. w = Some res \<and>
    (\<forall>s1 tried1 r. res = Returned s1 (tried1, r) \<longrightarrow> retry_book X (accounting s) s1 r)"
proof -
  let ?W = "pe_world env i (Suc j)"
  let ?C = "(pe_config env)\<lparr>fc_disposition := HoldUntilCaller\<rparr>"
  from assms(1) have a: "finite X" "confined X ?W" "pool X (ws_store s)" "2 * card X < pe_inner_rounds env"
    by (auto simp: retry_inv_def)
  from failover_loop_returns [OF a] obtain res where inner:
    "execute_with_failover_from (pe_inner_rounds env) (pe_externals env) ?C ?W (pe_upstream env i j h) tried s
      = Some res" by blast
  show ?thesis
  proof (cases res)
    case (Panicked s1)
    with assms(2) inner show ?thesis by (auto simp: retry_step_def)
  next
    case (Returned s1 v)
    obtain tried1 r where v: "v = (tried1, r)" by fastforce
    note inner = inner [unfolded Returned v]
    show ?thesis
    proof (cases r)
      case (Inl f)
      with assms(2) inner have "\<exists>m. w = Some (Returned s1 (tried1, NoReplacement m))"
        by (auto simp: retry_step_def)
      with failover_failed [OF a(2,3) inner [unfolded Inl]] show ?thesis by (auto simp: retry_book_def)
    next
      case (Inr x)
      from inner_then_settled [OF a(2,3) inner [unfolded Inr]]
      have "retry_book X (accounting s) s1 (Switched x sent)" for sent
        by (auto simp: retry_book_def holding_def)
      moreover have "(\<exists>sent. w = Some (Returned s1 (tried1, Switched x sent))) \<or> (\<exists>s2. w = Some (Panicked s2))"
        using assms(2) inner Inr
        by (auto simp: retry_step_def split: prod.splits option.splits outcome.splits)
      ultimately show ?thesis by auto
    qed
  qed
qed


lemma all_settled_Nil [simp]: "all_settled []"
  by (simp add: all_settled_def balanced_def opened_def settled_def)

lemma settled_but_gone_Nil [simp]: "settled_but_gone st []"
  by (rule all_settled_but_gone) simp

text \<open>The hypotheses on the surroundings: a finite pool, and fuel in proportion to it.\<close>

definition surroundings_ok :: "string set \<Rightarrow> 'fs proxy_env \<Rightarrow> bool" where
  "surroundings_ok X env \<longleftrightarrow>
     finite X \<and> (\<forall>i j. confined X (pe_world env i j)) \<and> card X < pe_rounds env
     \<and> 2 * card X < pe_inner_rounds env"

lemma retry_loop_book:
  fixes env :: "'fs proxy_env"
  assumes ok: "surroundings_ok X env" and pool: "pool X (ws_store s)"
  shows "\<exists>res. run_loop (pe_rounds env) (retry_step env i h ms) 0 (tried, s) = Some (Some res)
    \<and> (\<forall>s1 tried1 r. res = Returned s1 (tried1, r) \<longrightarrow> retry_book X (accounting s) s1 r)"
proof -
  have inv: "retry_inv X env (tried, s)" using ok pool by (auto simp: retry_inv_def surroundings_ok_def)
  have "card (X - tried) \<le> card X" using ok by (simp add: card_mono surroundings_ok_def)
  then have "retry_budget X (tried, s) < pe_rounds env"
    using ok by (simp add: retry_budget_def surroundings_ok_def)
  from ws_retry.returns [OF inv this] obtain w
    where run: "run_loop (pe_rounds env) (retry_step env i h ms) 0 (tried, s) = Some w" by blast
  define P where "P = (\<lambda>x :: string set \<times> 'fs world_state. retry_inv X env x
    \<and> (\<exists>evs. accounting (snd x) = accounting s @ evs \<and> all_settled evs))"
  define Q where "Q = (\<lambda>w :: ('fs world_state, string set \<times> retry_result) outcome option. \<exists>res. w = Some res
    \<and> (\<forall>s1 tried1 r. res = Returned s1 (tried1, r) \<longrightarrow> retry_book X (accounting s) s1 r))"
  have "Q w"
  proof (rule run_loop_induct [OF run, where P = P])
    show "P (tried, s)" using inv by (simp add: P_def)
  next
    fix j x x' assume P: "P x" and step: "retry_step env i h ms j x = Inl x'"
    obtain t u t' u' where x: "x = (t, u)" "x' = (t', u')" by fastforce
    from P obtain evs where e: "accounting u = accounting s @ evs" "all_settled evs"
      by (auto simp: P_def x)
    from P have "\<And>i j. confined X (pe_world env i j)" "pool X (ws_store u)"
      by (auto simp: P_def x retry_inv_def)
    from retry_again [OF this step [unfolded x]] obtain ys where
      "accounting u' = accounting u @ ys" "all_settled ys" by blast
    moreover have "retry_inv X env x'" using ws_retry.round [OF _ step] P by (simp add: P_def)
    ultimately show "P x'" using e by (auto simp: P_def x intro!: all_settled_append)
  next
    fix j x w assume P: "P x" and step: "retry_step env i h ms j x = Inr w"
    obtain t u where x: "x = (t, u)" by fastforce
    from P obtain evs where e: "accounting u = accounting s @ evs" "all_settled evs"
      by (auto simp: P_def x)
    from P have "retry_inv X env (t, u)" by (simp add: P_def x)
    from retry_stop [OF this step [unfolded x]] obtain res where w: "w = Some res"
      and b: "\<And>s1 tried1 r. res = Returned s1 (tried1, r) \<Longrightarrow> retry_book X (accounting u) s1 r" by blast
    have "retry_book X (accounting s) s1 r" if "res = Returned s1 (tried1, r)" for s1 tried1 r
      using b [OF that] unfolding e(1) by (rule retry_book_append [OF _ e(2)])
    with w show "Q w" by (simp add: Q_def)
  qed
  with run show ?thesis by (auto simp: Q_def)
qed

lemma retry_pending_book:
  assumes "surroundings_ok X env" "pool X (ws_store s)"
  shows "\<exists>ps1 res. retry_pending_websocket_request env i ps s = Some (ps1, res)
    \<and> px_account_id ps1 = px_account_id ps
    \<and> (\<forall>s1 r. res = Returned s1 r \<longrightarrow> retry_book X (accounting s) s1 r)"
proof (cases "px_pending ps")
  case None
  with assms(2) show ?thesis
    by (simp add: retry_pending_websocket_request_def retry_book_def)
next
  case (Some p)
  from retry_loop_book [OF assms, of i "px_headers ps" "pw_request_messages p"
      "insert (px_account_id ps) (pw_tried_accounts p)"] obtain res where
    run: "run_loop (pe_rounds env) (retry_step env i (px_headers ps) (pw_request_messages p)) 0
        (insert (px_account_id ps) (pw_tried_accounts p), s) = Some (Some res)"
    and book: "\<And>s1 tried1 r. res = Returned s1 (tried1, r) \<Longrightarrow> retry_book X (accounting s) s1 r" by blast
  show ?thesis
    using book by (cases res) (auto simp: retry_pending_websocket_request_def Some run)
qed

text \<open>What a turn adds to the books, when the proxy holds an account.\<close>

definition turn_book :: "string set \<Rightarrow> proxy_state \<Rightarrow> 'fs world_state \<Rightarrow> 'fs proxy_turn \<Rightarrow> bool" where
  "turn_book X ps s t \<longleftrightarrow>
     (case t of ((ps', s'), v) \<Rightarrow>
        v \<noteq> OutOfFuel \<and>
        (v \<noteq> Crashed \<longrightarrow> pool X (ws_store s') \<and>
           (\<exists>evs. accounting s' = accounting s @ evs \<and>
              (case v of
                 Finish r \<Rightarrow> re_account_id r = px_account_id ps \<and> settled_but_gone (ws_store s') evs
               | _ \<Rightarrow> (evs = [] \<and> px_account_id ps' = px_account_id ps)
                   \<or> (\<exists>ys. evs = ys @ [Settled (px_account_id ps)] \<and> holding (px_account_id ps') ys)))))"

text \<open>Most phases of a turn neither touch the accounts nor change the one in use.\<close>

definition calm :: "proxy_state \<Rightarrow> 'fs world_state \<Rightarrow> 'fs proxy_turn \<Rightarrow> bool" where
  "calm ps s t \<longleftrightarrow>
     (case t of ((ps', s'), v) \<Rightarrow> s' = s \<and> px_account_id ps' = px_account_id ps
        \<and> v \<noteq> OutOfFuel \<and> v \<noteq> Crashed \<and> (\<forall>r. v = Finish r \<longrightarrow> re_account_id r = px_account_id ps))"

lemma calm_book: "calm ps s t \<Longrightarrow> pool X (ws_store s) \<Longrightarrow> turn_book X ps s t"
  by (auto simp: calm_def turn_book_def
      split: prod.splits proxy_verdict.splits)

named_theorems calm

lemma calm_finish [calm]: "px_account_id ps' = px_account_id ps \<Longrightarrow> calm ps s (finish out ps' s)"
  by (simp add: calm_def finish_def routed_websocket_outcome_def)

lemma calm_continue [calm]: "px_account_id ps' = px_account_id ps \<Longrightarrow> calm ps s ((ps', s), Continue)"
  by (simp add: calm_def)

lemma calm_settled [calm]: "px_account_id ps' = px_account_id ps \<Longrightarrow> calm ps s (settled_turn ks ps' s)"
  by (auto simp: settled_turn_def intro: calm split: option.splits)

lemma calm_delivered [calm]:
  assumes "px_account_id (fst x) = px_account_id ps"
    "\<And>r. snd x = Some r \<Longrightarrow> re_account_id r = px_account_id ps"
    "\<And>ps1. px_account_id ps1 = px_account_id ps \<Longrightarrow> calm ps s (k ps1)"
  shows "calm ps s (delivered_then x s k)"
  using assms by (cases x; cases "snd x") (auto simp: delivered_then_def calm_def)

lemma flush_account [simp]:
  "px_account_id (fst (flush_buffered_or_settle env ks ps)) = px_account_id ps"
  "snd (flush_buffered_or_settle env ks ps) = Some r \<Longrightarrow> re_account_id r = px_account_id ps"
  using flush_or_settle_fields [OF prod.collapse [symmetric], of env ks ps] by auto

lemma forward_account [simp]:
  "px_account_id (fst (forward_message_or_settle env m ks ps)) = px_account_id ps"
  "snd (forward_message_or_settle env m ks ps) = Some r \<Longrightarrow> re_account_id r = px_account_id ps"
  using forward_or_settle_fields [OF prod.collapse [symmetric], of env m ks ps] by auto

lemma calm_uncommitted: "calm ps s (on_uncommitted env m ks ps s)"
  unfolding on_uncommitted_def Let_def by (intro calm) (auto intro!: calm split: if_splits)

lemma calm_established: "calm ps s (on_established env m ks ps s)"
  unfolding on_established_def by (intro calm) (auto intro!: calm split: option.splits)


text \<open>The two ends of a reconnection: no account was found, or the request moved to another one.\<close>

lemma not_replaced_book:
  assumes "px_account_id ps1 = px_account_id ps" "retry_book X (accounting s) s1 (NoReplacement m)"
  shows "turn_book X ps s
    (case deliver_pending_retry_failure_or_settle env m (Some failure) ps1 of
       (ps2, Some response) \<Rightarrow> ((ps2, s1), Finish response)
     | (ps2, None) \<Rightarrow> finish failure ps2 s1)"
proof -
  obtain ps2 ro where d: "deliver_pending_retry_failure_or_settle env m (Some failure) ps1 = (ps2, ro)"
    by fastforce
  have "px_account_id ps2 = px_account_id ps \<and> (\<forall>x. ro = Some x \<longrightarrow> re_account_id x = px_account_id ps)"
    using d assms(1) by (auto simp: deliver_pending_retry_failure_or_settle_def
        dest!: flush_or_settle_fields forward_or_settle_fields split: prod.splits option.splits)
  with assms(2) show ?thesis
    by (auto simp: retry_book_def d turn_book_def finish_def routed_websocket_outcome_def split: option.splits)
qed

lemma replaced_book:
  assumes "surroundings_ok X env" "px_account_id ps1 = px_account_id ps"
    "retry_book X (accounting s) s1 (Switched rep sent)"
  shows "turn_book X ps s
    (case apply_websocket_retry_switch env i (WsFailed f ra d) rep sent ps1 s1 of
       (ps2, Panicked s2) \<Rightarrow> ((ps2, s2), Crashed)
     | (ps2, Returned s2 _) \<Rightarrow> ((ps2, s2), Continue))"
proof -
  let ?o = "settle_at (pe_externals env) (pe_world env i 0) (px_account_id ps) (SettleFailure f ra d) s1"
  from assms(3) obtain evs where e: "pool X (ws_store s1)" "accounting s1 = accounting s @ evs"
      "holding (re_account_id rep) evs" by (auto simp: retry_book_def)
  obtain ps2 where sw: "apply_websocket_retry_switch env i (WsFailed f ra d) rep sent ps1 s1 = (ps2, ?o)"
      "px_account_id ps2 = re_account_id rep"
    by (simp add: apply_websocket_retry_switch_def Let_def assms(2))
  have "confined X (pe_world env i 0)" using assms(1) by (simp add: surroundings_ok_def)
  note k = settle_at_keeps [OF this e(1), of "pe_externals env" "px_account_id ps" "SettleFailure f ra d"]
  with e sw show ?thesis by (cases ?o) (simp_all add: turn_book_def)
qed

lemma retry_or_finish_book:
  assumes "surroundings_ok X env" "pool X (ws_store s)"
  shows "turn_book X ps s (retry_or_finish env i (WsFailed f ra d) ps s)"
proof -
  from retry_pending_book [OF assms, of i ps] obtain ps1 res where
    retry: "retry_pending_websocket_request env i ps s = Some (ps1, res)"
    and a: "px_account_id ps1 = px_account_id ps"
    and book: "\<And>s1 r. res = Returned s1 r \<Longrightarrow> retry_book X (accounting s) s1 r" by blast
  show ?thesis
  proof (cases res)
    case (Panicked s1)
    then show ?thesis by (simp add: retry_or_finish_def retry turn_book_def)
  next
    case (Returned s1 r)
    note book = book [OF Returned]
    show ?thesis
      unfolding retry_or_finish_def retry Returned option.case prod.case outcome.case
      using not_replaced_book [OF a] replaced_book [OF assms(1) a] book by (cases r) simp_all
  qed
qed

lemma broken_book:
  assumes "surroundings_ok X env" "pool X (ws_store s)" "px_account_id ps' = px_account_id ps"
  shows "turn_book X ps s (upstream_broken env i e ps' s)"
proof -
  have same: "turn_book X ps' s = turn_book X ps s" by (intro ext) (simp only: turn_book_def assms(3))
  show ?thesis
    using retry_or_finish_book [OF assms(1,2)] calm_book [OF calm_finish assms(2)]
    by (auto simp: upstream_broken_def Let_def same [symmetric])
qed

lemma client_book:
  assumes "surroundings_ok X env" "pool X (ws_store s)"
  shows "turn_book X ps s (on_client_message env i m ps s)"
proof (cases "map_client_message_to_upstream m")
  case None
  with assms(2) show ?thesis by (auto simp: on_client_message_def Let_def intro!: calm_book calm)
next
  case (Some mapped)
  show ?thesis
    unfolding on_client_message_def Some option.case Let_def
    by (auto simp: noted_fields intro!: broken_book [OF assms]
        calm_book [OF calm_finish assms(2)] calm_book [OF calm_continue assms(2)] split: option.splits)
qed

lemma upstream_book:
  assumes "surroundings_ok X env" "pool X (ws_store s)"
  shows "turn_book X ps s (on_upstream_message env i raw ps s)"
proof (cases "normalize_websocket_rate_limit_message (pe_externals env) (px_codex_originator ps) raw")
  case None
  with assms(2) show ?thesis by (auto simp: on_upstream_message_def Let_def intro!: calm_book calm)
next
  case (Some limited)
  show ?thesis
    unfolding on_upstream_message_def Some option.case Let_def
    by (auto intro!: retry_or_finish_book [OF assms] calm_book [OF calm_uncommitted assms(2)]
        calm_book [OF calm_established assms(2)] calm_book [OF calm_delivered assms(2)]
        calm_delivered calm_finish split: option.splits bool.splits websocket_proxy_outcome.splits)
qed

lemma turn_books:
  assumes "surroundings_ok X env" "pool X (ws_store s)"
  shows "turn_book X ps s (proxy_turn env i event ps s)"
  unfolding proxy_turn_def
  by (cases event) (auto intro!: client_book upstream_book broken_book [OF assms] assms
      calm_book [OF calm_finish assms(2)])


section \<open>The run\<close>

text \<open>The books of a run: it holds the account in use, or has finished and reports one.\<close>

definition run_book ::
  "string set \<Rightarrow> store_event list \<Rightarrow> 'fs world_state \<Rightarrow> 'fs proxy_turn \<Rightarrow> bool" where
  "run_book X held s t \<longleftrightarrow>
     (case t of ((ps', s'), v) \<Rightarrow>
        v \<noteq> OutOfFuel \<and>
        (v \<noteq> Crashed \<longrightarrow> pool X (ws_store s') \<and>
           (\<exists>evs. accounting s' = accounting s @ evs \<and>
              (case v of
                 Finish r \<Rightarrow> settled_but_gone (ws_store s') (held @ evs @ [Settled (re_account_id r)])
               | _ \<Rightarrow> holding (px_account_id ps') (held @ evs)))))"

lemma loop_books:
  assumes "surroundings_ok X env" "pool X (ws_store s)" "holding (px_account_id ps) held"
  shows "run_book X held s (proxy_loop env i events ps s)"
  using assms(2,3)
proof (induction events arbitrary: i ps s held)
  case Nil
  then show ?case by (auto simp: run_book_def)
next
  case (Cons event events)
  obtain ps1 s1 v where t: "proxy_turn env i event ps s = ((ps1, s1), v)" by (metis prod.collapse)
  have tb: "turn_book X ps s ((ps1, s1), v)" using turn_books [OF assms(1) Cons.prems(1)] t by metis
  show ?case
  proof (cases v)
    case Continue
    with tb obtain evs where e: "pool X (ws_store s1)" "accounting s1 = accounting s @ evs"
        "evs = [] \<and> px_account_id ps1 = px_account_id ps
         \<or> (\<exists>ys. evs = ys @ [Settled (px_account_id ps)] \<and> holding (px_account_id ps1) ys)"
      by (auto simp: turn_book_def)
    from e(3) have "holding (px_account_id ps1) (held @ evs)"
      using Cons.prems(2) holding_switch by auto
    from Cons.IH [OF e(1) this, of "Suc i"] e(2) show ?thesis
      by (auto simp: run_book_def t Continue split: prod.splits proxy_verdict.splits)
  next
    case (Finish r)
    with tb obtain evs where "pool X (ws_store s1)" "accounting s1 = accounting s @ evs"
        "re_account_id r = px_account_id ps" "settled_but_gone (ws_store s1) evs"
      by (auto simp: turn_book_def)
    with holding_gone [OF Cons.prems(2)] show ?thesis by (auto simp: run_book_def t Finish)
  qed (use tb in \<open>auto simp: run_book_def t turn_book_def\<close>)
qed

lemma run_books:
  assumes "surroundings_ok X env" "pool X (ws_store s)"
  shows "run_book X [Selected (re_account_id initial)] s (proxy_websocket env events headers initial allow s)"
  unfolding proxy_websocket_def
  by (rule loop_books [OF assms]) (simp add: initial_proxy_def holding_start)

text \<open>
  Every turn of the websocket proxy returns, and it gives back every account. The reconnection
  ends within one round more than there are accounts. At any moment of a run the account in use is
  selected and not settled, and every other account that the run has selected is settled once, the first
  one, selected for the connection, included. When the proxy ends, the account it
  reports, which its caller settles, is the one still open; only an account whose record has
  disappeared meanwhile can be left over. A panic of an account operation is the exception.
\<close>

theorem websocket_settles:
  assumes "surroundings_ok X env" "pool X (ws_store s)"
    and "proxy_websocket env events headers initial allow s = ((ps, s'), v)"
  shows "v \<noteq> OutOfFuel \<and> (v \<noteq> Crashed \<longrightarrow> pool X (ws_store s')
    \<and> (\<exists>evs. accounting s' = accounting s @ evs
        \<and> (v = Continue \<longrightarrow> holding (px_account_id ps) (Selected (re_account_id initial) # evs))
        \<and> (\<forall>r. v = Finish r \<longrightarrow> settled_but_gone (ws_store s')
              (Selected (re_account_id initial) # evs @ [Settled (re_account_id r)]))))"
  using run_books [OF assms(1,2), of initial events headers allow] assms(3)
  by (cases v) (auto simp: run_book_def)

theorem websocket_settles_witness:
  "\<exists>ps s' evs. proxy_websocket sample_proxy_env [FromClient (ClText ''r''), UpstreamClosed]
        [(''originator'', ''codex'')] \<lparr>re_account_id = ''a'', re_value = sample_connection\<rparr> False
        sample_world_state = ((ps, s'), Continue)
     \<and> px_account_id ps = ''b'' \<and> accounting s' = accounting sample_world_state @ evs
     \<and> holding ''b'' (Selected ''a'' # evs)"
proof -
  have ok: "surroundings_ok {''b''} sample_proxy_env"
    by (simp add: surroundings_ok_def sample_proxy_env_def confined_def quiet_world_def)
  obtain ps' s' where turn: "proxy_turn sample_proxy_env 1 UpstreamClosed
      (sample_start\<lparr>px_pending := Some (new_pending_request\<lparr>pw_request_messages := [WsText ''r'']\<rparr>),
                    px_request := [WsText ''r''], px_sent := [WsText ''r'']\<rparr>) sample_world_state
      = ((ps', s'), Continue)" "px_account_id ps' = ''b''"
    using sample_second_turn by blast
  have run: "proxy_websocket sample_proxy_env [FromClient (ClText ''r''), UpstreamClosed]
        [(''originator'', ''codex'')] \<lparr>re_account_id = ''a'', re_value = sample_connection\<rparr> False
        sample_world_state = ((ps', s'), Continue)"
    unfolding proxy_websocket_def using sample_first_turn turn(1) by (simp add: sample_start_def)
  from websocket_settles [OF ok sample_pool(2) run] turn(2) run show ?thesis by auto
qed

end
