(* ===== verification/Sse_Roundtrip.thy ===== *)
theory Sse_Roundtrip
  imports Managed_Stream
begin

text \<open>
  Gateways in series on a stream: an event that one gateway renders is framed, read and classified
  by another as it was meant, however it is cut into chunks.
\<close>


section \<open>Valid text\<close>

text \<open>Text that \<open>from_utf8_lossy\<close> keeps: every step over it finds a complete sequence.\<close>

inductive utf8_text :: "string \<Rightarrow> bool" where
  empty: "utf8_text []"
| sequence: "s \<noteq> [] \<Longrightarrow> utf8_step s = Inr n \<Longrightarrow> utf8_text (drop n s) \<Longrightarrow> utf8_text s"

lemma byte_at_append: "i < length s \<Longrightarrow> byte_at (s @ r) i = byte_at s i"
  by (simp add: byte_at_def nth_append)

lemma byte_at_present: "0 < byte_at s i \<Longrightarrow> i < length s"
  by (simp add: byte_at_def split: if_splits)

lemma utf8_step_append:
  assumes "s \<noteq> []" "utf8_step s = Inr n"
  shows "utf8_step (s @ r) = Inr n \<and> 0 < n \<and> n \<le> length s"
proof -
  have b0: "byte_at (s @ r) 0 = byte_at s 0" using assms(1) by (simp add: byte_at_append)
  have b: "byte_at (s @ r) i = byte_at s i \<and> i < length s" if "0 < byte_at s i" for i
    using byte_at_present [OF that] byte_at_append by blast
  have l: "Suc 0 \<le> length s" using assms(1) by (simp add: Suc_le_eq)
  show ?thesis
    using assms(2) l b0 b [of 1] b [of 2] b [of 3]
    unfolding utf8_step_def Let_def by (auto split: if_splits)
qed

lemma utf8_text_append: "utf8_text s \<Longrightarrow> utf8_text r \<Longrightarrow> utf8_text (s @ r)"
proof (induction rule: utf8_text.induct)
  case (sequence s n)
  from utf8_step_append [OF sequence.hyps(1,2), of r] have
    n: "utf8_step (s @ r) = Inr n" "n \<le> length s" by simp_all
  show ?case
    by (rule utf8_text.sequence [OF _ n(1)]) (use sequence n(2) in simp_all)
qed simp

lemma utf8_text_kept: "utf8_text s \<Longrightarrow> length s \<le> k \<Longrightarrow> utf8_lossy_from k s = s"
proof (induction arbitrary: k rule: utf8_text.induct)
  case empty
  then show ?case by (cases k) simp_all
next
  case (sequence s n)
  have "0 < n" "n \<le> length s" using utf8_step_append [OF sequence.hyps(1,2), of "[]"] by simp_all
  moreover obtain j where "k = Suc j" using sequence.prems sequence.hyps(1) by (cases k) auto
  ultimately show ?case
    using sequence.IH [of j] sequence.hyps sequence.prems by simp
qed

lemma utf8_text_lossy: "utf8_text s \<Longrightarrow> utf8_lossy s = s"
  by (simp add: utf8_lossy_def utf8_text_kept)

lemma utf8_ascii: "\<forall>c \<in> set s. of_char c < (128 :: nat) \<Longrightarrow> utf8_text s"
proof (induction s)
  case (Cons c s)
  then have "utf8_step (c # s) = Inr 1" by (simp add: utf8_step_def Let_def byte_at_def)
  from utf8_text.sequence [OF _ this] Cons show ?case by simp
qed (rule utf8_text.empty)

section \<open>A rendered event is framed and read\<close>

text \<open>Text that fits on a line: no line end, and no white space in front.\<close>

definition one_line :: "string \<Rightarrow> bool" where
  "one_line s \<longleftrightarrow> utf8_text s \<and> NL \<notin> set s \<and> CR \<notin> set s \<and> trim_start s = s"

lemma nl_NL: "nl = [NL]"
  by (simp add: nl_def char_of_eq_iff)

lemma find_end_skip:
  "NL \<notin> set xs \<Longrightarrow> CR \<notin> set xs \<Longrightarrow>
     find_sse_event_end (xs @ r) = map_option (\<lambda>n. length xs + n) (find_sse_event_end r)"
  by (induction xs; cases "find_sse_event_end r") auto

lemma split_lines_line: "NL \<notin> set l \<Longrightarrow> split_lines (l @ NL # r) = l # split_lines r"
  by (induction l) auto

lemma trim_end_cr_keeps: "CR \<notin> set l \<Longrightarrow> trim_end_cr l = l"
  by (cases "rev l") (auto simp: trim_end_cr_def dropWhile_eq_self_iff)

lemma trim_start_blank: "trim_start (CHR '' '' # s) = trim_start s"
proof -
  have "char_of n \<noteq> CHR '' ''" if "take_bit 8 n \<noteq> 32" for n :: nat
    using that by (simp add: char_of_eq_iff)
  moreover have "char_of (32 :: nat) = CHR '' ''" by (simp add: char_of_eq_iff)
  ultimately have "find (\<lambda>w. w \<noteq> [] \<and> starts_with (CHR '' '' # s) w) white_space = Some [CHR '' '']"
    by (simp add: white_space_def eq_commute [of "CHR '' ''"])
  then show ?thesis by (simp add: trim_start_def)
qed

definition event_bytes :: "string \<Rightarrow> string \<Rightarrow> string" where
  "event_bytes name data = ''event: '' @ name @ NL # ''data: '' @ data @ [NL, NL]"

lemma event_bytes_lines:
  assumes "one_line name" "one_line data"
  shows "event_lines (event_bytes name data) = [''event: '' @ name, ''data: '' @ data, []]"
proof -
  have "utf8_text ''event: ''" "utf8_text (NL # ''data: '')" "utf8_text [NL, NL]" "utf8_text name" "utf8_text data"
    using assms by (auto simp: one_line_def intro!: utf8_ascii)
  then have "utf8_text (''event: '' @ name @ (NL # ''data: '') @ data @ [NL, NL])"
    by (intro utf8_text_append)
  then have "utf8_text (event_bytes name data)" by (simp add: event_bytes_def)
  then have "utf8_lossy (event_bytes name data) = (''event: '' @ name) @ NL # (''data: '' @ data) @ NL # [NL]"
    by (simp add: utf8_text_lossy event_bytes_def)
  moreover have "NL \<notin> set (''event: '' @ name)" "NL \<notin> set (''data: '' @ data)"
    "CR \<notin> set (''event: '' @ name)" "CR \<notin> set (''data: '' @ data)"
    using assms by (simp_all add: one_line_def)
  ultimately show ?thesis
    unfolding event_lines_def by (simp only: split_lines_line) (simp add: trim_end_cr_keeps split_lines_line)
qed


lemma event_bytes_end:
  assumes "one_line name" "one_line data"
  shows "find_sse_event_end (event_bytes name data) = Some (length (event_bytes name data))"
proof -
  have a: "NL \<notin> set (''event: '' @ name)" "CR \<notin> set (''event: '' @ name)"
    "NL \<notin> set (''data: '' @ data)" "CR \<notin> set (''data: '' @ data)"
    using assms by (simp_all add: one_line_def)
  have e: "event_bytes name data = (''event: '' @ name) @ NL # ((''data: '' @ data) @ [NL, NL])"
    by (simp add: event_bytes_def)
  have "find_sse_event_end ((''data: '' @ data) @ [NL, NL]) = Some (length (''data: '' @ data) + 2)"
    unfolding find_end_skip [OF a(3,4)] by simp
  moreover have "\<not> starts_with ((''data: '' @ data) @ [NL, NL]) [NL]" by simp
  ultimately have "find_sse_event_end (NL # ((''data: '' @ data) @ [NL, NL])) = Some (Suc (length (''data: '' @ data) + 2))"
    by simp
  then show ?thesis unfolding e find_end_skip [OF a(1,2)] by simp
qed

lemma event_bytes_consumed:
  assumes "one_line name" "one_line data" "parse_json E data = Some json"
  shows "consume_event E now shape st (event_bytes name data)
    = consume_json_event E now shape (Some name) json (event_bytes name data) st"
proof -
  note ls = event_bytes_lines [OF assms(1,2)]
  have "event_data_of [''event: '' @ name, ''data: '' @ data, []] = [data]"
    using assms(2) by (simp add: event_data_of_def strip_prefix_def trim_start_blank one_line_def)
  moreover have "event_name_of [''event: '' @ name, ''data: '' @ data, []] = Some name"
    using assms(1) by (simp add: event_name_of_def strip_prefix_def trim_start_blank one_line_def)
  ultimately show ?thesis
    unfolding consume_event_def Let_def ls using assms(3) by simp
qed

lemma drain_one:
  assumes "f buf = Some (length buf)" "buf \<noteq> []" "f [] = None" "consume m buf = (st, out)"
  shows "drain_events f consume halted (length buf) m buf = (st, [], [out])"
proof -
  from assms(2) obtain k where k: "length buf = Suc k" by (cases buf) auto
  with assms have "take (Suc k) buf = buf" "drop (Suc k) buf = []" by simp_all
  with assms k show ?thesis by (cases k) simp_all
qed

text \<open>A reader that has seen nothing yet reads the event, in however many chunks it comes.\<close>

definition reading :: "string \<Rightarrow> responses_sse_state" where
  "reading bytes = sse_default\<lparr>sse_mode := True, sse_buffer := bytes\<rparr>"

lemma event_observed:
  assumes "one_line name" "one_line data" "parse_json E data = Some json"
    "concat cs = event_bytes name data"
    "consume_json_event E now shape (Some name) json (concat cs) (reading (concat cs)) = (st, out)"
  shows "observe_chunks E now shape cs sse_default = (st\<lparr>sse_buffer := []\<rparr>, out)"
proof -
  let ?b = "event_bytes name data"
  obtain c bs where b: "?b = c # bs" by (simp add: event_bytes_def)
  have "starts_with ?b ''event:''" by (simp add: event_bytes_def)
  then have "classify_sse_line_start ?b = LsFull" by (simp add: classify_sse_line_start_def SSE_LINE_PREFIXES_def)
  then have "scan_chunk True ?b = ([], ScanFull ?b)" unfolding b by simp
  moreover have "drain_events find_sse_event_end (consume_event E now shape) has_terminal_event (length ?b)
      (reading ?b) ?b = (st, [], [out])"
    by (rule drain_one [where f = find_sse_event_end, OF event_bytes_end [OF assms(1,2)]])
      (use event_bytes_consumed [OF assms(1-3), of now shape "reading ?b"] assms(4,5) b in simp_all)
  ultimately have "observe_bytes E now shape ?b sse_default = (st\<lparr>sse_buffer := []\<rparr>, [out])"
    by (simp add: observe_bytes_def observe_plain_bytes_def pass_through_def consume_buffered_events_def
        has_terminal_event_def reading_def sse_default_def)
  moreover have "cs \<noteq> []" using assms(4) b by auto
  moreover have "chunk_inv sse_default" by (simp add: chunk_inv_def sse_default_def)
  ultimately show ?thesis
    using observe_chunks_concat [of sse_default cs E now shape] assms(4) by (simp add: flat_def)
qed

section \<open>Gateways in series\<close>

text \<open>The round trip of serde\_json for one value, on one line.\<close>

definition printable :: "externals \<Rightarrow> json \<Rightarrow> bool" where
  "printable E json \<longleftrightarrow> parse_json E (print_json E json) = Some json \<and> one_line (print_json E json)"

lemma response_failed_one_line: "one_line ''response.failed''"
proof -
  have "char_of n \<noteq> CHR ''r''" if "take_bit 8 n \<noteq> 114" for n :: nat
    using that by (simp add: char_of_eq_iff)
  then have "find (\<lambda>w. w \<noteq> [] \<and> starts_with ''response.failed'' w) white_space = None"
    by (simp add: white_space_def eq_commute [of "CHR ''r''"])
  then have "trim_start ''response.failed'' = ''response.failed''" by (simp add: trim_start_def)
  moreover have "utf8_text ''response.failed''" by (rule utf8_ascii) simp
  ultimately show ?thesis by (simp add: one_line_def)
qed

lemma synthetic_event_bytes:
  "render_synthetic_response_failed_event_with_metadata E now rid seq p
    = event_bytes ''response.failed'' (print_json E (synthetic_response_failed_json now rid seq p))"
  by (simp add: render_synthetic_response_failed_event_with_metadata_def event_bytes_def nl_NL)

text \<open>What a reader gets from the object of a synthetic failure.\<close>

abbreviation synthetic_code :: "synthetic_payload \<Rightarrow> string" where
  "synthetic_code p \<equiv> or_else (p_code p) ''internal_server_error''"

abbreviation synthetic_message :: "synthetic_payload \<Rightarrow> string" where
  "synthetic_message p \<equiv> or_else (p_message p) ''Upstream request failed.''"

lemma map_of_append_fields: "map_of (xs @ ys) k = (case map_of xs k of None \<Rightarrow> map_of ys k | Some v \<Rightarrow> Some v)"
  by (simp add: map_add_def)

lemma synthetic_json_fields:
  fixes now rid seq p
  defines "json \<equiv> synthetic_response_failed_json now rid seq p"
  shows "jget_str json ''type'' = Some ''response.failed''"
    and "jget json ''sequence_number'' = Some (JNumber (JInt seq))"
    and "jpath json ''response'' ''id'' = Some (JString (or_else rid (''resp_gateway_'' @ show_int (now div 1000))))"
    and "\<exists>m. jpath json ''response'' ''error'' = Some (JObject m)
      \<and> map_of m ''code'' = Some (JString (synthetic_code p))
      \<and> map_of m ''message'' = Some (JString (synthetic_message p))
      \<and> map_of m ''type'' = map_option JString (p_error_type p)"
  unfolding json_def
  by (auto simp: synthetic_response_failed_json_def Let_def jget_str_def jget_def jpath_def map_of_append_fields
      map_of_opt_field simp del: map_of_append split: option.split)


text \<open>The class a reader gives to a failure with this code, type and message.\<close>

definition read_status :: "synthetic_payload \<Rightarrow> status" where
  "read_status p = infer_response_error_status (Some (synthetic_code p)) (p_error_type p) (synthetic_message p)"

definition read_class :: "synthetic_payload \<Rightarrow> failure_class" where
  "read_class p = classify_error (read_status p) (Some (synthetic_code p)) (p_error_type p)
     (Some (synthetic_message p)) AccessTokenRejected"

lemma synthetic_error_classified:
  assumes "map_of m ''code'' = Some (JString (synthetic_code p))"
    "map_of m ''message'' = Some (JString (synthetic_message p))"
    "map_of m ''type'' = map_option JString (p_error_type p)"
  shows "cef_status (classify_response_failed_event E now (JObject m)) = read_status p"
    "cef_failure (classify_response_failed_event E now (JObject m)) = read_class p"
    "cef_details (classify_response_failed_event E now (JObject m)) = synthetic_message p"
proof -
  have f: "jget_str (JObject m) ''code'' = Some (synthetic_code p)"
    "jget_str (JObject m) ''message'' = Some (synthetic_message p)"
    "jget_str (JObject m) ''type'' = p_error_type p"
    using assms by (cases "p_error_type p"; simp add: jget_str_def jget_def)+
  have s: "or_else (Some x) y = x" for x y :: 'a by (simp add: or_else_def)
  show "cef_status (classify_response_failed_event E now (JObject m)) = read_status p"
    "cef_failure (classify_response_failed_event E now (JObject m)) = read_class p"
    "cef_details (classify_response_failed_event E now (JObject m)) = synthetic_message p"
    unfolding classify_response_failed_event_def classify_error_object_def Let_def cef_simps f s
      read_class_def read_status_def
    by (simp_all add: es_failure_analyze parse_structured_error_value_def f opt_or_None
        parse_structured_error_body_def default_payload_def)
qed

lemma unavailable_read_as_temporary:
  "p_code p = Some GATEWAY_UNAVAILABLE_CODE \<Longrightarrow> p_error_type p = None \<Longrightarrow> read_class p = TemporaryFailure"
  by (simp add: read_class_def read_status_def or_else_def GATEWAY_UNAVAILABLE_CODE_def
      infer_response_error_status_def classify_error_def classify_structured_error_def)

text \<open>
  C19: gateways in series, on a stream. The event with which the gateway ends a Codex caller's stream when the
  upstream fails is read by a gateway in front of it, cut into chunks in any way, as the failed end of
  the response it belongs to, with its sequence number and message, classified by the code, type and
  message that were put in; in particular, that no account is left looks like a temporary failure of that upstream. An
  error the caller is to see is passed on byte for byte. The hypothesis is the round trip of serde\_json for
  the event, printed on one line.
\<close>

theorem synthetic_event_read_back:
  assumes "printable E (synthetic_response_failed_json now rid seq p)" "- (2 ^ 63) \<le> seq" "seq < 2 ^ 63"
    and "concat cs = render_synthetic_response_failed_event_with_metadata E now rid seq p"
  shows "\<exists>st out ra. observe_chunks E later shape cs sse_default = (st, out)
    \<and> sse_terminal_state st = Some (Failed (read_class p) ra (synthetic_message p))
    \<and> sse_last_sequence_number st = Some seq
    \<and> sse_last_response_id st = Some (or_else rid (''resp_gateway_'' @ show_int (now div 1000)))
    \<and> (p_code p = Some GATEWAY_UNAVAILABLE_CODE \<and> p_error_type p = None \<longrightarrow> read_class p = TemporaryFailure)
    \<and> (downstream_failure_kind_from_status (read_status p) (read_class p) = CallerError \<longrightarrow> out = concat cs)"
proof -
  define json where "json = synthetic_response_failed_json now rid seq p"
  note fields = synthetic_json_fields [where now = now and rid = rid and seq = seq and p = p,
      folded json_def]
  from fields(4) obtain m where m: "jpath json ''response'' ''error'' = Some (JObject m)"
    "map_of m ''code'' = Some (JString (synthetic_code p))"
    "map_of m ''message'' = Some (JString (synthetic_message p))"
    "map_of m ''type'' = map_option JString (p_error_type p)" by blast
  define c where "c = classify_response_failed_event E later (JObject m)"
  note c = synthetic_error_classified [OF m(2-4), of E later, folded c_def]
  from assms(1) have r: "parse_json E (print_json E json) = Some json" "one_line (print_json E json)"
    by (simp_all add: printable_def json_def)
  have bytes: "concat cs = event_bytes ''response.failed'' (print_json E json)"
    using assms(4) by (simp add: synthetic_event_bytes json_def)
  have num: "jget_i64 json ''sequence_number'' = Some seq"
    using assms(2,3) fields(2) by (simp add: jget_i64_def)
  obtain st out where run:
    "consume_json_event E later shape (Some ''response.failed'') json (concat cs) (reading (concat cs)) = (st, out)"
    by fastforce
  have kind: "or_else (opt_or (Some ''response.failed'') y) [] = ''response.failed''"
    "or_else (Some (JObject m)) JNull = JObject m" for y
    by (simp_all add: or_else_def)
  note out = run [unfolded consume_json_event_def Let_def kind m(1) c_def [symmetric] apply_failed_event_def]
  have "st = note_failure c (note_json json (reading (concat cs)))"
    and o: "\<not> is_gateway_unavailable_status_failure (cef_status c) (cef_failure c) \<Longrightarrow> out = concat cs"
    using out by (simp_all split: if_splits)
  then have "sse_terminal_state st = Some (Failed (read_class p) (cef_retry_after c) (synthetic_message p))"
    "sse_last_sequence_number st = Some seq"
    "sse_last_response_id st = Some (or_else rid (''resp_gateway_'' @ show_int (now div 1000)))"
    using fields(3) num by (simp_all add: note_failure_def note_json_def Let_def c)
  moreover have "observe_chunks E later shape cs sse_default = (st\<lparr>sse_buffer := []\<rparr>, out)"
    by (rule event_observed [OF response_failed_one_line r(2,1) bytes run])
  ultimately show ?thesis
    using o unavailable_read_as_temporary [of p]
    by (auto simp: is_gateway_unavailable_status_failure_def c)
qed

text \<open>A printer for one value.\<close>

definition one_value :: "json \<Rightarrow> externals" where
  "one_value json = sample_externals\<lparr>print_json := \<lambda>_. ''{}'', parse_json := \<lambda>_. Some json\<rparr>"

theorem synthetic_event_read_back_witness:
  "\<exists>st out ra. observe_chunks
       (one_value (synthetic_response_failed_json 0 None 3 gateway_unavailable_payload)) 5 Codex
       [''event: response.fail'', ''ed'' @ nl @ ''data: {'', ''}'' @ nl @ nl] sse_default = (st, out)
     \<and> sse_terminal_state st = Some (Failed TemporaryFailure ra GATEWAY_UNAVAILABLE_MESSAGE)"
proof -
  let ?json = "synthetic_response_failed_json 0 None 3 gateway_unavailable_payload"
  have "char_of n \<noteq> CHR ''{''" if "take_bit 8 n \<noteq> 123" for n :: nat
    using that by (simp add: char_of_eq_iff)
  then have "find (\<lambda>w. w \<noteq> [] \<and> starts_with ''{}'' w) white_space = None"
    by (simp add: white_space_def eq_commute [of "CHR ''{''"])
  then have "trim_start ''{}'' = ''{}''" by (simp add: trim_start_def)
  moreover have "utf8_text ''{}''" by (rule utf8_ascii) simp
  ultimately have "printable (one_value ?json) ?json"
    by (simp add: printable_def one_line_def one_value_def)
  from synthetic_event_read_back [OF this, of "[''event: response.fail'', ''ed'' @ nl @ ''data: {'', ''}'' @ nl @ nl]" 5 Codex]
  show ?thesis
    by (auto simp: render_synthetic_response_failed_event_with_metadata_def one_value_def gateway_unavailable_payload_def
        default_payload_def or_else_def)
qed

end
