(* ===== verification/Api_Requests.thy ===== *)
theory Api_Requests
  imports Gateway_Errors Models_Cache Request_Normalization Ws_Settlement
begin

text \<open>
  \<open>src/app/api.rs\<close>: the handlers of the public API, from the request of a caller to the response,
  with the body of a stream, the list of models and the websocket, and what becomes of the accounts.
\<close>

section \<open>Surroundings\<close>

text \<open>
  The parts of \<open>AppState\<close> that a handler reads, and its surroundings: in outer round \<open>j\<close> and inner
  round \<open>i\<close>, what the network and the token endpoint answer; other tasks; the fuel of the two loops. The
  fingerprint mode of the configuration is the one the client is made with.
\<close>

record ('fs, 'b) api_env =
  ae_externals :: externals
  ae_client_externals :: client_externals
  ae_net_externals :: net_externals
  ae_codec :: session_source_codec
  ae_decode_models :: decode_models
  ae_config :: fo_config
  ae_client :: upstream_client
  ae_world :: "nat \<Rightarrow> 'fs world"
  ae_network :: "nat \<Rightarrow> nat \<Rightarrow> 'b network"
  ae_token_endpoint :: "nat \<Rightarrow> nat \<Rightarrow> request \<Rightarrow> refresh_reply"
  ae_now :: time
  ae_rounds :: nat
  ae_inner_rounds :: nat

text \<open>The upstream of a failover loop for one kind of call.\<close>

definition upstream_for ::
  "('fs, 'b) api_env \<Rightarrow> (nat \<Rightarrow> request \<Rightarrow> refresh_reply)
     \<Rightarrow> (nat \<Rightarrow> upstream_account \<Rightarrow> transport_error + 'v) \<Rightarrow> 'v upstream" where
  "upstream_for env endpoint call =
     \<lparr>up_refresh = (\<lambda>i token. refresh_access_token (ae_externals env) (ae_net_externals env) (ae_now env)
        (endpoint i) (ae_client env) token),
      up_execute = call\<rparr>"

section \<open>Preparing a request\<close>

record failure_context =
  fx_response_shape :: response_shape
  fx_render_mode :: render_mode

record prepared_json_request =
  pj_failure_context :: failure_context
  pj_headers :: header_map
  pj_body :: json

record prepared_request_error =
  pr_failure_context :: failure_context
  pr_status :: status
  pr_message :: string

definition failure_context_for :: "header_map \<Rightarrow> render_mode \<Rightarrow> failure_context" where
  "failure_context_for headers mode =
     \<lparr>fx_response_shape = response_shape_for_headers headers, fx_render_mode = mode\<rparr>"

definition prepared_error_response ::
  "('fs, 'b) api_env \<Rightarrow> prepared_request_error \<Rightarrow> http_response" where
  "prepared_error_response env e =
     render_status_message_error (ae_externals env) (ae_client_externals env) (ae_now env)
       (fx_response_shape (pr_failure_context e)) (fx_render_mode (pr_failure_context e)) (pr_status e)
       (pr_message e)"

text \<open>The JSON body of a request, or the status and text of axum's rejection.\<close>

type_synonym json_body = "(status \<times> string) + json"

definition extract_json_request_body ::
  "failure_context \<Rightarrow> json_body \<Rightarrow> prepared_request_error + json" where
  "extract_json_request_body ctx body =
     (case body of
        Inr v \<Rightarrow> Inr v
      | Inl (status, message) \<Rightarrow>
          Inl \<lparr>pr_failure_context = ctx, pr_status = status, pr_message = message\<rparr>)"

definition should_stream_responses_request :: "json \<Rightarrow> bool" where
  "should_stream_responses_request body = (jget body ''stream'' \<noteq> Some (JBool False))"

definition overridden_request ::
  "session_source_codec \<Rightarrow> failure_context \<Rightarrow> header_map \<Rightarrow> json
     \<Rightarrow> prepared_request_error + prepared_json_request" where
  "overridden_request S ctx headers body =
     (case apply_body_gateway_overrides S headers body of
        Inl message \<Rightarrow> Inl \<lparr>pr_failure_context = ctx, pr_status = 400, pr_message = message\<rparr>
      | Inr (headers', body') \<Rightarrow>
          Inr \<lparr>pj_failure_context = ctx, pj_headers = headers', pj_body = body'\<rparr>)"

definition prepare_responses_request ::
  "('fs, 'b) api_env \<Rightarrow> models_snapshot option \<Rightarrow> header_map \<Rightarrow> json_body
     \<Rightarrow> prepared_request_error + prepared_json_request" where
  "prepare_responses_request env snapshot headers body =
     (let default_context = failure_context_for headers ResponsesPreStream
      in case extract_json_request_body default_context body of
           Inl e \<Rightarrow> Inl e
         | Inr v \<Rightarrow>
             (let ctx = default_context\<lparr>fx_render_mode :=
                    (if should_stream_responses_request v then ResponsesPreStream else UnaryJson)\<rparr>;
                  v1 = normalize_responses_request_body (uc_fingerprint_mode (ae_client env))
                    (fx_response_shape default_context = Codex) snapshot v
              in overridden_request (ae_codec env) ctx headers v1))"

definition prepare_compact_request ::
  "('fs, 'b) api_env \<Rightarrow> models_snapshot option \<Rightarrow> header_map \<Rightarrow> json_body
     \<Rightarrow> prepared_request_error + prepared_json_request" where
  "prepare_compact_request env snapshot headers body =
     (let ctx = failure_context_for headers UnaryJson
      in case extract_json_request_body ctx body of
           Inl e \<Rightarrow> Inl e
         | Inr v \<Rightarrow>
             overridden_request (ae_codec env) ctx headers
               (normalize_compact_request_body (uc_fingerprint_mode (ae_client env))
                 (fx_response_shape ctx = Codex) snapshot v))"

section \<open>Shaping a response\<close>

definition shape_openai_success_headers :: "response_shape \<Rightarrow> header_map \<Rightarrow> header_map" where
  "shape_openai_success_headers shape headers =
     (if shape \<noteq> OpenAi then headers else shape_openai_http_headers headers)"

definition shape_responses_success_headers :: "response_shape \<Rightarrow> json \<Rightarrow> header_map \<Rightarrow> header_map" where
  "shape_responses_success_headers shape request_body headers =
     (let h = shape_openai_success_headers shape headers
      in if shape = OpenAi \<and> should_stream_responses_request request_body
         then set_content_type SSE_CONTENT_TYPE h else h)"

definition shape_unary_responses_success_headers :: "response_shape \<Rightarrow> header_map \<Rightarrow> header_map" where
  "shape_unary_responses_success_headers shape headers =
     (let h = shape_openai_success_headers shape headers
      in if shape = OpenAi then set_content_type JSON_CONTENT_TYPE h else h)"

definition compaction_item :: "json \<Rightarrow> json" where
  "compaction_item item =
     (if jget_str item ''type'' = Some ''compaction_summary''
      then (case item of JObject m \<Rightarrow> JObject (obj_insert ''type'' (JString ''compaction'') m) | _ \<Rightarrow> item)
      else item)"

definition rewrite_openai_compact_response_body :: "json \<Rightarrow> json" where
  "rewrite_openai_compact_response_body body =
     (case body of
        JObject m \<Rightarrow>
          (case map_of m ''output'' of
             Some (JArray items) \<Rightarrow> JObject (obj_insert ''output'' (JArray (map compaction_item items)) m)
           | _ \<Rightarrow> body)
      | _ \<Rightarrow> body)"

definition shape_compact_success_response ::
  "response_shape \<Rightarrow> header_map \<Rightarrow> json \<Rightarrow> header_map \<times> json" where
  "shape_compact_success_response shape headers body =
     (let h = shape_openai_success_headers shape headers
      in if shape = OpenAi
         then (set_content_type JSON_CONTENT_TYPE h, rewrite_openai_compact_response_body body)
         else (h, body))"

definition models_openai_success_response :: "models_snapshot \<Rightarrow> header_map \<Rightarrow> http_response" where
  "models_openai_success_response snapshot headers =
     json_response 200 (set_content_type JSON_CONTENT_TYPE (shape_openai_success_headers OpenAi headers))
       (sn_openai_json snapshot)"

definition apply_turn_state_header :: "string option \<Rightarrow> header_map \<Rightarrow> header_map" where
  "apply_turn_state_header turn_state headers =
     (case turn_state of None \<Rightarrow> headers | Some t \<Rightarrow> insert_header ''x-codex-turn-state'' t headers)"

section \<open>JSON requests and streams\<close>

definition render_failure ::
  "('fs, 'b) api_env \<Rightarrow> failure_context \<Rightarrow> failover_failure \<Rightarrow> http_response" where
  "render_failure env ctx f =
     render_failover_failure (ae_externals env) (ae_client_externals env) (ae_now env) f
       (fx_response_shape ctx) (fx_render_mode ctx)"

text \<open>The common end of the handlers of unary requests.\<close>

definition unary_answer ::
  "('fs, 'b) api_env \<Rightarrow> failure_context \<Rightarrow> ('b network \<Rightarrow> upstream_account \<Rightarrow> transport_error + unary_response)
     \<Rightarrow> (status \<Rightarrow> header_map \<Rightarrow> json \<Rightarrow> http_response) \<Rightarrow> 'fs world_state
     \<Rightarrow> ('fs world_state, http_response) outcome option" where
  "unary_answer env ctx call shape_response s =
     map_option (\<lambda>res. and_then res (\<lambda>s1 r. Returned s1
         (case r of Inr response \<Rightarrow> response | Inl f \<Rightarrow> render_failure env ctx f)))
       (execute_unary_json_with_failover_shaped (ae_rounds env) (ae_inner_rounds env) (ae_externals env)
         (ae_config env) (ae_world env)
         (\<lambda>j. upstream_for env (ae_token_endpoint env j) (\<lambda>i. call (ae_network env j i))) shape_response s)"

datatype 'b reply =
  Answer http_response
| StreamAnswer status header_map string 'b response_shape

definition stream_reply ::
  "('fs, 'b) api_env \<Rightarrow> failure_context \<Rightarrow> json
     \<Rightarrow> failover_failure + (status \<times> header_map \<times> 'b) routed_execution \<Rightarrow> 'b reply" where
  "stream_reply env ctx request_body r =
     (case r of
        Inl f \<Rightarrow> Answer (render_failure env ctx f)
      | Inr routed \<Rightarrow>
          (case re_value routed of (status, headers, bytes) \<Rightarrow>
             StreamAnswer status
               (shape_responses_success_headers (fx_response_shape ctx) request_body headers)
               (re_account_id routed) bytes (fx_response_shape ctx)))"

definition post_responses ::
  "('fs, 'b) api_env \<Rightarrow> models_snapshot option \<Rightarrow> header_map \<Rightarrow> json_body \<Rightarrow> 'fs world_state
     \<Rightarrow> ('fs world_state, 'b reply) outcome option" where
  "post_responses env snapshot headers body s =
     (case prepare_responses_request env snapshot headers body of
        Inl e \<Rightarrow> Some (Returned s (Answer (prepared_error_response env e)))
      | Inr prepared \<Rightarrow>
          (let E = ae_externals env; X = ae_client_externals env; C = ae_client env;
               ctx = pj_failure_context prepared; shape = fx_response_shape ctx;
               h = pj_headers prepared; b = pj_body prepared
           in if should_stream_responses_request b then
                map_option (\<lambda>res. and_then res (\<lambda>s1 r. Returned s1 (stream_reply env ctx b (snd r))))
                  (execute_with_failover (ae_inner_rounds env) E
                    ((ae_config env)\<lparr>fc_disposition := HoldUntilCaller\<rparr>) (ae_world env 0)
                    (upstream_for env (ae_token_endpoint env 0)
                      (\<lambda>i account. fst (stream_json E X (ae_network env 0 i) C ''responses'' account h b))) s)
              else
                map_option (\<lambda>res. and_then res (\<lambda>s1 r. Returned s1 (Answer r)))
                  (unary_answer env ctx
                    (\<lambda>net account. fst (post_responses_json E X net C account h b))
                    (\<lambda>status response_headers v. json_response status
                       (shape_unary_responses_success_headers shape response_headers) v) s)))"

definition post_responses_compact ::
  "('fs, 'b) api_env \<Rightarrow> models_snapshot option \<Rightarrow> header_map \<Rightarrow> json_body \<Rightarrow> 'fs world_state
     \<Rightarrow> ('fs world_state, http_response) outcome option" where
  "post_responses_compact env snapshot headers body s =
     (case prepare_compact_request env snapshot headers body of
        Inl e \<Rightarrow> Some (Returned s (prepared_error_response env e))
      | Inr prepared \<Rightarrow>
          unary_answer env (pj_failure_context prepared)
            (\<lambda>net account. fst (post_json (ae_externals env) (ae_client_externals env) net (ae_client env)
               ''responses/compact'' account (pj_headers prepared) (pj_body prepared)))
            (\<lambda>status response_headers v.
               (case shape_compact_success_response (fx_response_shape (pj_failure_context prepared))
                       response_headers v of
                  (h, v') \<Rightarrow> json_response status h v')) s)"

definition post_memories_trace_summarize ::
  "('fs, 'b) api_env \<Rightarrow> header_map \<Rightarrow> json \<Rightarrow> 'fs world_state
     \<Rightarrow> ('fs world_state, http_response) outcome option" where
  "post_memories_trace_summarize env headers body s =
     (case apply_body_gateway_overrides (ae_codec env) headers body of
        Inl message \<Rightarrow> Some (Returned s (json_error 400 message))
      | Inr (headers', body') \<Rightarrow>
          unary_answer env \<lparr>fx_response_shape = Codex, fx_render_mode = UnaryJson\<rparr>
            (\<lambda>net account. fst (post_json (ae_externals env) (ae_client_externals env) net (ae_client env)
               ''memories/trace_summarize'' account headers' body'))
            json_response s)"

section \<open>The life of a streamed response\<close>

text \<open>
  What the managed stream hands to \<open>spawn_account_settlement\<close> over the polls of the caller and its
  drop is applied to the account.
\<close>

fun settle_all ::
  "externals \<Rightarrow> 'fs world \<Rightarrow> string \<Rightarrow> account_settlement list \<Rightarrow> 'fs world_state
     \<Rightarrow> ('fs world_state, unit) outcome" where
  "settle_all E W k [] s = Returned s ()"
| "settle_all E W k (x # xs) s = and_then (settle_at E W k x s) (\<lambda>s1 _. settle_all E W k xs s1)"

definition deliver_reply ::
  "externals \<Rightarrow> 'fs world \<Rightarrow> (time \<times> bool \<times> inner_event list) list \<Rightarrow> 'b reply \<Rightarrow> 'fs world_state
     \<Rightarrow> ('fs world_state, unit) outcome" where
  "deliver_reply E W polls reply s =
     (case reply of
        Answer response \<Rightarrow> Returned s ()
      | StreamAnswer status headers k bytes shape \<Rightarrow>
          settle_all E W k
            (ms_settlements (drop_stream (fst (run_polls E polls [] (new_managed_stream shape))))) s)"

section \<open>The list of models\<close>

text \<open>The cache, the flag of a refresh in flight, and the refreshes that have been spawned.\<close>

record models_state =
  md_cache :: models_cache
  md_refresh_in_flight :: bool
  md_spawned :: "header_map list"

definition decode_models_answer ::
  "externals \<Rightarrow> decode_models \<Rightarrow> unary_response \<Rightarrow> string + (models_snapshot \<times> header_map)" where
  "decode_models_answer E decode u =
     (case body_as_json E (uu_body u) of
        Inl details \<Rightarrow> Inl details
      | Inr v \<Rightarrow>
          (case snapshot_from_value decode v of
             Inl details \<Rightarrow> Inl details
           | Inr snapshot \<Rightarrow> Inr (snapshot, uu_headers u)))"

definition fetch_models_snapshot ::
  "('fs, 'b) api_env \<Rightarrow> header_map \<Rightarrow> models_state \<Rightarrow> 'fs world_state
     \<Rightarrow> (models_state \<times> ('fs world_state, failover_failure + (models_snapshot \<times> header_map)) outcome) option"
where
  "fetch_models_snapshot env headers md s =
     map_option
       (\<lambda>res. ((case res of
            Returned s1 (Inr (snapshot, h)) \<Rightarrow> md\<lparr>md_cache := cache_replace (ae_now env) snapshot h\<rparr>
          | _ \<Rightarrow> md), res))
       (decoding_loop (ae_rounds env) (ae_inner_rounds env) (ae_externals env) (ae_config env) (ae_world env)
         (\<lambda>j. upstream_for env (ae_token_endpoint env j)
            (\<lambda>i account. fst (get_models (ae_externals env) (ae_client_externals env) (ae_network env j i)
               (ae_client env) account headers)))
         (decode_models_answer (ae_externals env) (ae_decode_models env)) s)"

definition stale_models_cached_entry ::
  "models_snapshot \<times> header_map \<Rightarrow> models_snapshot \<times> header_map" where
  "stale_models_cached_entry entry =
     (case entry of (snapshot, h) \<Rightarrow>
        (snapshot, hdr_insert ''cache-control'' ''no-store'' (hdr_remove ''cache-control'' h)))"

definition maybe_spawn_models_refresh :: "header_map \<Rightarrow> models_state \<Rightarrow> models_state" where
  "maybe_spawn_models_refresh headers md =
     (if md_refresh_in_flight md then md
      else md\<lparr>md_refresh_in_flight := True, md_spawned := md_spawned md @ [headers]\<rparr>)"

text \<open>The spawned task; a panic ends it before the flag is cleared.\<close>

definition models_refresh_task ::
  "('fs, 'b) api_env \<Rightarrow> header_map \<Rightarrow> models_state \<Rightarrow> 'fs world_state
     \<Rightarrow> (models_state \<times> 'fs world_state) option" where
  "models_refresh_task env headers md s =
     map_option (\<lambda>x. case x of
         (md1, Returned s1 _) \<Rightarrow> (md1\<lparr>md_refresh_in_flight := False\<rparr>, s1)
       | (md1, Panicked s1) \<Rightarrow> (md1, s1))
       (fetch_models_snapshot env headers md s)"

definition cached_or_refreshing_models_snapshot ::
  "time \<Rightarrow> header_map \<Rightarrow> models_state \<Rightarrow> models_state \<times> (models_snapshot \<times> header_map) option" where
  "cached_or_refreshing_models_snapshot now headers md =
     (case cache_fresh_entry now (md_cache md) of
        Some entry \<Rightarrow> (md, Some entry)
      | None \<Rightarrow>
          (case cache_current_entry (md_cache md) of
             Some entry \<Rightarrow> (maybe_spawn_models_refresh headers md, Some (stale_models_cached_entry entry))
           | None \<Rightarrow> (md, None)))"

definition fetched_models_answer ::
  "('fs, 'b) api_env \<Rightarrow> failure_context \<Rightarrow> header_map \<Rightarrow> (models_snapshot \<times> header_map \<Rightarrow> http_response)
     \<Rightarrow> models_state \<Rightarrow> 'fs world_state
     \<Rightarrow> (models_state \<times> ('fs world_state, http_response) outcome) option" where
  "fetched_models_answer env ctx headers k md s =
     map_option (\<lambda>x. case x of (md1, res) \<Rightarrow>
         (md1, and_then res (\<lambda>s1 r. Returned s1
            (case r of Inr fetched \<Rightarrow> k fetched | Inl f \<Rightarrow> render_failure env ctx f))))
       (fetch_models_snapshot env headers md s)"

definition handle_get_models ::
  "('fs, 'b) api_env \<Rightarrow> header_map \<Rightarrow> models_state \<Rightarrow> 'fs world_state
     \<Rightarrow> (models_state \<times> ('fs world_state, http_response) outcome) option" where
  "handle_get_models env headers md s =
     (let ctx = failure_context_for headers UnaryJson
      in case fx_response_shape ctx of
           Codex \<Rightarrow>
             fetched_models_answer env ctx headers (\<lambda>(sn, h). json_response 200 [] (sn_codex_json sn)) md s
         | OpenAi \<Rightarrow>
             (case cached_or_refreshing_models_snapshot (ae_now env) headers md of
                (md1, Some (sn, h)) \<Rightarrow> Some (md1, Returned s (models_openai_success_response sn h))
              | (md1, None) \<Rightarrow>
                  fetched_models_answer env ctx headers
                    (\<lambda>(sn, h). models_openai_success_response sn h) md1 s))"

section \<open>Websockets\<close>

text \<open>
  What a websocket request meets beside the surroundings of the handler: the connector and the token
  endpoint, in the first connection (event 0) and in event \<open>i\<close> of the proxy (\<open>Suc i\<close>); the headers of
  axum's upgrade response, whether the upgrade succeeds, and the events of the proxy; other tasks.
\<close>

record 'fs websocket_scene =
  wz_connect :: "nat \<Rightarrow> nat \<Rightarrow> nat \<Rightarrow> url \<Rightarrow> header_map
     \<Rightarrow> duration \<times> (ws_error + (upstream_socket \<times> header_map))"
  wz_token_endpoint :: "nat \<Rightarrow> nat \<Rightarrow> nat \<Rightarrow> request \<Rightarrow> refresh_reply"
  wz_response_headers :: header_map
  wz_upgraded :: bool
  wz_events :: "proxy_event list"
  wz_world :: "nat \<Rightarrow> nat \<Rightarrow> 'fs world"
  wz_snapshot :: "nat \<Rightarrow> nat \<Rightarrow> models_snapshot option"
  wz_client_takes :: "client_message list \<Rightarrow> client_message \<Rightarrow> bool"
  wz_now :: "nat \<Rightarrow> time"
  wz_last_world :: "'fs world"

definition websocket_upstream ::
  "('fs, 'b) api_env \<Rightarrow> 'fs websocket_scene \<Rightarrow> nat \<Rightarrow> nat \<Rightarrow> header_map \<Rightarrow> connection upstream" where
  "websocket_upstream env z i j headers =
     upstream_for env (wz_token_endpoint z i j)
       (\<lambda>n account. connect_responses_websocket (ae_externals env) (ae_client_externals env)
          (ae_net_externals env) (wz_connect z i j n) (ae_client env) account headers)"

definition session_env :: "('fs, 'b) api_env \<Rightarrow> 'fs websocket_scene \<Rightarrow> 'fs proxy_env" where
  "session_env env z =
     \<lparr>pe_externals = ae_externals env, pe_config = ae_config env,
      pe_mode = uc_fingerprint_mode (ae_client env), pe_world = wz_world z,
      pe_upstream = (\<lambda>i. websocket_upstream env z (Suc i)), pe_snapshot = wz_snapshot z,
      pe_client_takes = wz_client_takes z, pe_now = wz_now z, pe_rounds = ae_rounds env,
      pe_inner_rounds = ae_inner_rounds env\<rparr>"

fun settlement_of_outcome :: "websocket_proxy_outcome \<Rightarrow> account_settlement" where
  "settlement_of_outcome WsSuccess = SettleSuccess"
| "settlement_of_outcome WsReleased = SettleRelease"
| "settlement_of_outcome (WsFailed failure retry_after details) = SettleFailure failure retry_after details"

datatype websocket_reply =
  Refused http_response
| NotUpgraded header_map
| Serving header_map proxy_state
| Served header_map routed_outcome

definition get_responses_websocket ::
  "('fs, 'b) api_env \<Rightarrow> 'fs websocket_scene \<Rightarrow> header_map \<Rightarrow> 'fs world_state
     \<Rightarrow> ('fs world_state, websocket_reply) outcome option" where
  "get_responses_websocket env z headers s =
     (let E = ae_externals env; ctx = failure_context_for headers UnaryJson;
          propagate_turn_state = (fx_response_shape ctx = Codex)
      in case execute_with_failover_from (ae_inner_rounds env) E
                ((ae_config env)\<lparr>fc_disposition := HoldUntilCaller\<rparr>) (ae_world env 0)
                (websocket_upstream env z 0 0 headers) {} s of
           None \<Rightarrow> None
         | Some (Panicked s1) \<Rightarrow> Some (Panicked s1)
         | Some (Returned s1 (tried, Inl f)) \<Rightarrow> Some (Returned s1 (Refused (render_failure env ctx f)))
         | Some (Returned s1 (tried, Inr routed)) \<Rightarrow>
             (let with_turn_state = (if propagate_turn_state
                    then apply_turn_state_header (wc_turn_state (re_value routed)) else (\<lambda>h. h));
                  response_headers = with_turn_state (wz_response_headers z)
              in if \<not> wz_upgraded z then
                   Some (and_then (settle_at E (wz_last_world z) (re_account_id routed) SettleRelease s1)
                     (\<lambda>s2 _. Returned s2 (NotUpgraded response_headers)))
                 else
                   (case proxy_websocket (session_env env z) (wz_events z) (with_turn_state headers) routed
                           propagate_turn_state s1 of
                      ((ps, s2), Finish out) \<Rightarrow>
                        Some (and_then (settle_at E (wz_last_world z) (re_account_id out)
                                (settlement_of_outcome (re_value out)) s2)
                          (\<lambda>s3 _. Returned s3 (Served response_headers out)))
                    | ((ps, s2), Continue) \<Rightarrow> Some (Returned s2 (Serving response_headers ps))
                    | ((ps, s2), Crashed) \<Rightarrow> Some (Panicked s2)
                    | ((ps, s2), OutOfFuel) \<Rightarrow> None)))"

end
