(* ===== verification/Api_Accounting.thy ===== *)
theory Api_Accounting
  imports Api_Requests
begin

text \<open>
  What the handlers of the public API do to the accounts: every handler returns, and over the whole
  life of a request, a streamed body and a websocket included, each account it takes is given back.
\<close>

section \<open>Books\<close>

text \<open>A finite pool of accounts that other tasks stay within, and fuel in proportion to it.\<close>

definition api_ok :: "string set \<Rightarrow> ('fs, 'b) api_env \<Rightarrow> bool" where
  "api_ok X env \<longleftrightarrow>
     finite X \<and> (\<forall>j. confined X (ae_world env j)) \<and> card X < ae_rounds env
     \<and> 2 * card X < ae_inner_rounds env"

text \<open>
  From \<open>s\<close> to \<open>s1\<close> every selection has been settled once, up to the selection of an account
  whose record has disappeared.
\<close>

definition closed_books :: "'fs world_state \<Rightarrow> 'fs world_state \<Rightarrow> bool" where
  "closed_books s s1 \<longleftrightarrow>
     (\<exists>evs. accounting s1 = accounting s @ evs \<and> settled_but_gone (ws_store s1) evs)"

lemma closed_books_refl [simp]: "closed_books s s"
  by (auto simp: closed_books_def)

lemma settled_since_closed:
  "settled_since (accounting s) (Returned s1 r) \<Longrightarrow> closed_books s s1"
  unfolding settled_since_def closed_books_def settled_but_gone_def all_settled_def by blast

lemma and_then_cases: "and_then res (\<lambda>s1 r. Returned s1 (f r)) = Returned s2 v \<longleftrightarrow> (\<exists>r. res = Returned s2 r \<and> v = f r)"
  by (cases res) auto

lemma unary_books:
  assumes "api_ok X env" "pool X (ws_store s)"
  shows "\<exists>res. unary_answer env ctx call shape s = Some res
    \<and> (\<forall>s1 r. res = Returned s1 r \<longrightarrow> closed_books s s1)"
proof -
  have a: "finite X" "\<And>j. confined X (ae_world env j)" "2 * card X < ae_inner_rounds env"
      "card X < ae_rounds env" using assms(1) by (auto simp: api_ok_def)
  obtain res where "execute_unary_json_with_failover_shaped (ae_rounds env) (ae_inner_rounds env)
      (ae_externals env) (ae_config env) (ae_world env)
      (\<lambda>j. upstream_for env (ae_token_endpoint env j) (\<lambda>i. call (ae_network env j i))) shape s = Some res"
    "settled_since (accounting s) res"
    unfolding execute_unary_json_with_failover_shaped_def
    using decoding_loop_returns [where W = "ae_world env", OF a(1,2) assms(2) a(3,4)] by blast
  then show ?thesis
    by (auto simp: unary_answer_def and_then_cases intro: settled_since_closed)
qed

lemma books_failed:
  assumes "confined X W" "pool X (ws_store s)"
    "execute_with_failover_from fuel E C W U tried s = Some (Returned s1 (tried', Inl f))"
  shows "closed_books s s1"
  using failover_failed [OF assms] by (auto simp: closed_books_def)

text \<open>The books of a reply: an answer leaves nothing open, a stream holds one account.\<close>

definition reply_books :: "'fs world_state \<Rightarrow> 'fs world_state \<Rightarrow> 'b reply \<Rightarrow> bool" where
  "reply_books s s1 reply \<longleftrightarrow>
     (case reply of
        Answer r \<Rightarrow> closed_books s s1
      | StreamAnswer status h k bytes shape \<Rightarrow>
          (\<exists>evs. accounting s1 = accounting s @ evs \<and> holding k evs))"

lemma stream_call_books:
  assumes "api_ok X env" "pool X (ws_store s)"
  shows "\<exists>res. execute_with_failover (ae_inner_rounds env) E ((ae_config env)\<lparr>fc_disposition := HoldUntilCaller\<rparr>)
        (ae_world env 0) U s = Some res
    \<and> (\<forall>s1 tried r. res = Returned s1 (tried, r) \<longrightarrow>
        (case r of Inl f \<Rightarrow> closed_books s s1
         | Inr x \<Rightarrow> \<exists>evs. accounting s1 = accounting s @ evs \<and> holding (re_account_id x) evs))"
proof -
  have a: "finite X" "confined X (ae_world env 0)" "2 * card X < ae_inner_rounds env"
    using assms(1) by (auto simp: api_ok_def)
  from failover_loop_returns [OF a(1,2) assms(2) a(3)] obtain res where
    run: "execute_with_failover (ae_inner_rounds env) E ((ae_config env)\<lparr>fc_disposition := HoldUntilCaller\<rparr>)
        (ae_world env 0) U s = Some res"
    unfolding execute_with_failover_def by blast
  have "case r of Inl f \<Rightarrow> closed_books s s1
         | Inr x \<Rightarrow> \<exists>evs. accounting s1 = accounting s @ evs \<and> holding (re_account_id x) evs"
    if that: "res = Returned s1 (tried, r)" for s1 tried r
  proof (cases r)
    case (Inl f)
    with books_failed [OF a(2) assms(2)] run that show ?thesis by (simp add: execute_with_failover_def)
  next
    case (Inr x)
    with inner_then_settled [OF a(2) assms(2)] run that show ?thesis
      by (fastforce simp: execute_with_failover_def holding_def)
  qed
  with run show ?thesis by blast
qed

lemma post_responses_books:
  assumes "api_ok X env" "pool X (ws_store s)"
  shows "\<exists>res. post_responses env snapshot headers body s = Some res
    \<and> (\<forall>s1 reply. res = Returned s1 reply \<longrightarrow> reply_books s s1 reply)"
proof (cases "prepare_responses_request env snapshot headers body")
  case (Inl e)
  then show ?thesis by (simp add: post_responses_def reply_books_def)
next
  case (Inr p)
  show ?thesis
  proof (cases "should_stream_responses_request (pj_body p)")
    case True
    let ?U = "upstream_for env (ae_token_endpoint env 0) (\<lambda>i account. fst (stream_json (ae_externals env)
        (ae_client_externals env) (ae_network env 0 i) (ae_client env) ''responses'' account (pj_headers p) (pj_body p)))"
    from stream_call_books [OF assms, of "ae_externals env" ?U] obtain res where
      run: "execute_with_failover (ae_inner_rounds env) (ae_externals env)
        ((ae_config env)\<lparr>fc_disposition := HoldUntilCaller\<rparr>) (ae_world env 0) ?U s = Some res"
      and books: "\<And>s1 tried r. res = Returned s1 (tried, r) \<Longrightarrow>
        (case r of Inl f \<Rightarrow> closed_books s s1
         | Inr x \<Rightarrow> \<exists>evs. accounting s1 = accounting s @ evs \<and> holding (re_account_id x) evs)" by blast
    have eq: "post_responses env snapshot headers body s = Some (and_then res (\<lambda>s1 r. Returned s1 (stream_reply env (pj_failure_context p) (pj_body p) (snd r))))"
      unfolding post_responses_def Inr sum.case Let_def if_P [OF True] run option.map ..
    have "reply_books s s1 reply" if "and_then res (\<lambda>s1 r. Returned s1 (stream_reply env (pj_failure_context p) (pj_body p) (snd r))) = Returned s1 reply" for s1 reply
    proof -
      from that obtain tried r where r: "res = Returned s1 (tried, r)" "reply = stream_reply env (pj_failure_context p) (pj_body p) r"
        by (auto simp: and_then_cases)
      show ?thesis using books [OF r(1)] r(2)
        by (cases r) (auto simp: stream_reply_def reply_books_def split: prod.splits)
    qed
    with eq show ?thesis by blast
  next
    case False
    from unary_books [OF assms] obtain res where
      "unary_answer env (pj_failure_context p)
        (\<lambda>net account. fst (post_responses_json (ae_externals env) (ae_client_externals env) net (ae_client env)
          account (pj_headers p) (pj_body p)))
        (\<lambda>status response_headers v. json_response status
          (shape_unary_responses_success_headers (fx_response_shape (pj_failure_context p)) response_headers) v) s
        = Some res" "\<And>s1 r. res = Returned s1 r \<Longrightarrow> closed_books s s1" by blast
    then show ?thesis
      unfolding post_responses_def Inr sum.case Let_def if_not_P [OF False]
      by (auto simp: and_then_cases reply_books_def)
  qed
qed


lemma holding_settled_all:
  assumes "ms_settlements st = [x]" "accounting s1 = accounting s @ evs" "holding k evs"
  shows "\<exists>evs. accounting (outcome_state (settle_all E W k (ms_settlements st) s1)) = accounting s @ evs
    \<and> all_settled evs"
proof -
  have "accounting (outcome_state (settle_all E W k [x] s1)) = accounting s1 @ [Settled k]"
    using settle_at_accounting [of E W k x s1] by (cases "settle_at E W k x s1") simp_all
  with assms show ?thesis by (auto simp: holding_def)
qed

lemma compact_books:
  assumes "api_ok X env" "pool X (ws_store s)"
  shows "\<exists>res. post_responses_compact env snapshot headers body s = Some res
    \<and> (\<forall>s1 r. res = Returned s1 r \<longrightarrow> closed_books s s1)"
  using unary_books [OF assms]
  by (cases "prepare_compact_request env snapshot headers body") (auto simp: post_responses_compact_def)

lemma memories_books:
  assumes "api_ok X env" "pool X (ws_store s)"
  shows "\<exists>res. post_memories_trace_summarize env headers body s = Some res
    \<and> (\<forall>s1 r. res = Returned s1 r \<longrightarrow> closed_books s s1)"
  using unary_books [OF assms]
  by (cases "apply_body_gateway_overrides (ae_codec env) headers body") (auto simp: post_memories_trace_summarize_def)

text \<open>
  C3: a request for a response gives back every account it takes, from the arrival of the body to the
  last poll of the stream. The handler returns. When it answers without a stream, because the body is
  refused, because no account could serve the request, or with a unary result, the books are closed:
  every selection is settled once, up to one whose record has disappeared. When it answers with
  a stream, it holds one account; however the caller then polls the stream, whatever the upstream sends,
  and whether the stream ends, fails, or is dropped, that account is settled exactly once and every
  other one already was. The two unary calls, compaction and the summary of a trace, return with
  closed books.
\<close>

theorem response_request_settles:
  assumes "api_ok X env" "pool X (ws_store s)"
  shows "(\<exists>res. post_responses env snapshot headers body s = Some res
    \<and> (\<forall>s1 reply. res = Returned s1 reply \<longrightarrow>
        (case reply of
           Answer r \<Rightarrow> closed_books s s1
         | StreamAnswer status h k bytes shape \<Rightarrow>
             (\<forall>polls W. \<exists>evs.
                accounting (outcome_state (deliver_reply (ae_externals env) W polls reply s1)) = accounting s @ evs
                \<and> all_settled evs))))
    \<and> (\<exists>res. post_responses_compact env snapshot headers body s = Some res
        \<and> (\<forall>s1 r. res = Returned s1 r \<longrightarrow> closed_books s s1))
    \<and> (\<exists>res. post_memories_trace_summarize env headers body' s = Some res
        \<and> (\<forall>s1 r. res = Returned s1 r \<longrightarrow> closed_books s s1))"
proof -
  from post_responses_books [OF assms, of snapshot headers body] obtain res where
    res: "post_responses env snapshot headers body s = Some res"
    "\<And>s1 reply. res = Returned s1 reply \<Longrightarrow> reply_books s s1 reply" by blast
  have "case reply of Answer r \<Rightarrow> closed_books s s1
         | StreamAnswer status h k bytes shape \<Rightarrow>
             (\<forall>polls W. \<exists>evs.
                accounting (outcome_state (deliver_reply (ae_externals env) W polls reply s1)) = accounting s @ evs
                \<and> all_settled evs)" if "res = Returned s1 reply" for s1 reply
  proof (cases reply)
    case (Answer r)
    with res(2) [OF that] show ?thesis by (simp add: reply_books_def)
  next
    case (StreamAnswer status h k bytes shape)
    with res(2) [OF that] obtain evs where e: "accounting s1 = accounting s @ evs" "holding k evs"
      by (auto simp: reply_books_def)
    from one_settlement [where shape = shape] e show ?thesis
      by (fastforce simp: StreamAnswer deliver_reply_def intro: holding_settled_all)
  qed
  with res(1) compact_books [OF assms] memories_books [OF assms] show ?thesis by blast
qed


section \<open>Websockets\<close>

text \<open>The other tasks, before and during the session.\<close>

definition scene_ok :: "string set \<Rightarrow> ('fs, 'b) api_env \<Rightarrow> 'fs websocket_scene \<Rightarrow> bool" where
  "scene_ok X env z \<longleftrightarrow> api_ok X env \<and> (\<forall>i j. confined X (wz_world z i j))"

lemma scene_surroundings: "scene_ok X env z \<Longrightarrow> surroundings_ok X (session_env env z)"
  by (simp add: scene_ok_def api_ok_def surroundings_ok_def session_env_def)

text \<open>The books of a session: while it lasts it holds one account, afterwards none.\<close>

definition session_books ::
  "('fs, 'b) api_env \<Rightarrow> 'fs websocket_scene \<Rightarrow> 'fs world_state \<Rightarrow> 'fs world_state \<Rightarrow> websocket_reply \<Rightarrow> bool" where
  "session_books env z s s1 reply \<longleftrightarrow>
     (\<exists>evs. accounting s1 = accounting s @ evs \<and>
        (case reply of
           Refused r \<Rightarrow> settled_but_gone (ws_store s1) evs
         | NotUpgraded h \<Rightarrow> all_settled evs
         | Serving h ps \<Rightarrow> holding (px_account_id ps) evs
         | Served h out \<Rightarrow> \<exists>s2. settle_at (ae_externals env) (wz_last_world z) (re_account_id out)
                 (settlement_of_outcome (re_value out)) s2 = Returned s1 () \<and> settled_but_gone (ws_store s2) evs))"

lemma proxied_books:
  assumes "scene_ok X env z" "pool X (ws_store s1)" "accounting s1 = accounting s @ held"
    "holding (re_account_id routed) held"
    "proxy_websocket (session_env env z) events headers routed allow s1 = ((ps, s2), v)"
  shows "v \<noteq> OutOfFuel \<and> (v = Continue \<longrightarrow> session_books env z s s2 (Serving h ps))
    \<and> (\<forall>out s3 u. v = Finish out \<longrightarrow> settle_at (ae_externals env) (wz_last_world z) (re_account_id out)
          (settlement_of_outcome (re_value out)) s2 = Returned s3 u \<longrightarrow>
        session_books env z s s3 (Served h out))"
proof -
  have "holding (px_account_id (initial_proxy headers routed allow)) held"
    using assms(4) by (simp add: initial_proxy_def)
  from loop_books [OF scene_surroundings [OF assms(1)] assms(2) this, of 0 events]
  have b: "run_book X held s1 ((ps, s2), v)" using assms(5) by (simp only: proxy_websocket_def)
  have "session_books env z s s3 (Served h out)"
    if "v = Finish out" "settle_at (ae_externals env) (wz_last_world z) (re_account_id out)
          (settlement_of_outcome (re_value out)) s2 = Returned s3 u" for out s3 u
    using b that settle_at_accounting [of "ae_externals env" "wz_last_world z" "re_account_id out"
        "settlement_of_outcome (re_value out)" s2] assms(3)
    by (auto simp: run_book_def session_books_def)
  with b assms(3) show ?thesis by (auto simp: run_book_def session_books_def)
qed

text \<open>The part of the handler after the first connection.\<close>

lemma connected_books:
  assumes "scene_ok X env z" "pool X (ws_store s1)" "accounting s1 = accounting s @ evs"
    "holding (re_account_id routed) evs"
    "proxy_websocket (session_env env z) events turned routed allow s1 = ((ps, s2), v)"
  shows "\<exists>res. (if \<not> wz_upgraded z
         then Some (and_then (settle_at (ae_externals env) (wz_last_world z) (re_account_id routed) SettleRelease s1)
                (\<lambda>s2 _. Returned s2 (NotUpgraded h)))
         else case v of
             Finish out \<Rightarrow> Some (and_then (settle_at (ae_externals env) (wz_last_world z) (re_account_id out)
                 (settlement_of_outcome (re_value out)) s2)
               (\<lambda>s3 _. Returned s3 (Served h out)))
           | Continue \<Rightarrow> Some (Returned s2 (Serving h ps))
           | Crashed \<Rightarrow> Some (Panicked s2)
           | OutOfFuel \<Rightarrow> None) = Some res
    \<and> (\<forall>s1 reply. res = Returned s1 reply \<longrightarrow> session_books env z s s1 reply)"
proof -
  have "session_books env z s s3 (NotUpgraded h)"
    if "settle_at E W (re_account_id routed) x s1 = Returned s3 u" for E W x s3 u h
    using that settle_at_accounting [of E W "re_account_id routed" x s1] assms(3,4)
    by (auto simp: session_books_def holding_def)
  with proxied_books [OF assms] show ?thesis by (cases v) (auto simp: and_then_cases)
qed

lemma websocket_session_books:
  assumes "scene_ok X env z" "pool X (ws_store s)"
  shows "\<exists>res. get_responses_websocket env z headers s = Some res
    \<and> (\<forall>s1 reply. res = Returned s1 reply \<longrightarrow> session_books env z s s1 reply)"
proof -
  let ?C = "(ae_config env)\<lparr>fc_disposition := HoldUntilCaller\<rparr>"
  let ?ctx = "failure_context_for headers UnaryJson"
  have a: "finite X" "confined X (ae_world env 0)" "2 * card X < ae_inner_rounds env"
    using assms(1) by (auto simp: scene_ok_def api_ok_def)
  from failover_loop_returns [OF a(1,2) assms(2) a(3)] obtain res where
    run: "execute_with_failover_from (ae_inner_rounds env) (ae_externals env) ?C (ae_world env 0)
      (websocket_upstream env z 0 0 headers) {} s = Some res" by blast
  show ?thesis
  proof (cases res)
    case (Panicked s1)
    then show ?thesis by (simp add: get_responses_websocket_def Let_def run)
  next
    case (Returned s1 v)
    obtain tried r where v: "v = (tried, r)" by fastforce
    note run = run [unfolded Returned v]
    show ?thesis
    proof (cases r)
      case (Inl f)
      from failover_failed [OF a(2) assms(2) run [unfolded Inl]]
      have "session_books env z s s1 (Refused (render_failure env ?ctx f))" by (auto simp: session_books_def)
      with run Inl show ?thesis by (auto simp: get_responses_websocket_def Let_def)
    next
      case (Inr routed)
      from inner_then_settled [OF a(2) assms(2) run [unfolded Inr]] obtain evs where
        e: "pool X (ws_store s1)" "accounting s1 = accounting s @ evs" "holding (re_account_id routed) evs"
        by (auto simp: holding_def)
      define turn where "turn = (if fx_response_shape ?ctx = Codex
        then apply_turn_state_header (wc_turn_state (re_value routed)) else (\<lambda>h. h))"
      obtain ps s2 v where p: "proxy_websocket (session_env env z) (wz_events z) (turn headers) routed
          (fx_response_shape ?ctx = Codex) s1 = ((ps, s2), v)" by (metis prod.collapse)
      show ?thesis
        using connected_books [OF assms(1) e p, of "turn (wz_response_headers z)"]
        unfolding get_responses_websocket_def Let_def run Inr option.case outcome.case prod.case sum.case
          turn_def [symmetric] p by (cases v) simp_all
    qed
  qed
qed

text \<open>
  C6: a websocket request gives back every account it takes, from the first connection to the end of
  the session. The handler and every turn of the proxy return. A request that is refused leaves nothing
  open; a connection whose upgrade fails is released; while the session lasts exactly one selection is
  open, that of the account in use; and once the proxy has ended and the outcome it reports has been
  applied, every account that was selected for the connection or for a reconnection has been settled once, up to one
  whose record disappeared.
\<close>

theorem websocket_request_settles:
  assumes "scene_ok X env z" "pool X (ws_store s)"
  shows "\<exists>res. get_responses_websocket env z headers s = Some res
    \<and> (\<forall>s1 reply. res = Returned s1 reply \<longrightarrow>
        (\<exists>evs. accounting s1 = accounting s @ evs \<and>
          (case reply of
             Refused r \<Rightarrow> settled_but_gone (ws_store s1) evs
           | NotUpgraded h \<Rightarrow> all_settled evs
           | Serving h ps \<Rightarrow> holding (px_account_id ps) evs
           | Served h out \<Rightarrow> \<exists>s2. settle_at (ae_externals env) (wz_last_world z) (re_account_id out)
                 (settlement_of_outcome (re_value out)) s2 = Returned s1 () \<and> settled_but_gone (ws_store s2) evs)))"
  using websocket_session_books [OF assms] unfolding session_books_def .

section \<open>The list of models\<close>

lemma models_body [simp]: "hr_body (models_openai_success_response sn h) = JsonBody (sn_openai_json sn)"
  by (simp add: models_openai_success_response_def json_response_def)

lemma models_cache_control [simp]:
  "get_all (hr_headers (models_openai_success_response sn h)) ''cache-control'' = get_all h ''cache-control''"
  by (simp add: models_openai_success_response_def json_response_def hdr shape_openai_success_headers_def
      shape_openai_http_headers_def set_content_type_def)

lemma cache_replace_inject [simp]:
  "cache_replace t sn h = cache_replace t' sn' h' \<longleftrightarrow> t = t' \<and> sn = sn' \<and> h = h'"
  by (auto simp: cache_replace_def)

lemma fetch_books:
  assumes "api_ok X env" "pool X (ws_store s)"
  shows "\<exists>md' res. fetch_models_snapshot env headers md s = Some (md', res)
    \<and> (\<forall>s1 r. res = Returned s1 r \<longrightarrow> closed_books s s1)
    \<and> md_refresh_in_flight md' = md_refresh_in_flight md \<and> md_spawned md' = md_spawned md
    \<and> (md_cache md' = md_cache md \<or> (\<exists>s1 sn h. res = Returned s1 (Inr (sn, h))
          \<and> md_cache md' = cache_replace (ae_now env) sn h))
    \<and> (\<forall>s1 f. res = Returned s1 (Inl f) \<longrightarrow> md' = md)"
proof -
  have a: "finite X" "\<And>j. confined X (ae_world env j)" "2 * card X < ae_inner_rounds env"
      "card X < ae_rounds env" using assms(1) by (auto simp: api_ok_def)
  let ?run = "decoding_loop (ae_rounds env) (ae_inner_rounds env) (ae_externals env) (ae_config env)
      (ae_world env) (\<lambda>j. upstream_for env (ae_token_endpoint env j)
         (\<lambda>i account. fst (get_models (ae_externals env) (ae_client_externals env) (ae_network env j i)
            (ae_client env) account headers)))
      (decode_models_answer (ae_externals env) (ae_decode_models env)) s"
  obtain res where run: "?run = Some res" and st: "settled_since (accounting s) res"
    using decoding_loop_returns [where W = "ae_world env", OF a(1,2) assms(2) a(3,4)] by blast
  define md' where "md' = (case res of
      Returned s1 (Inr (sn, h)) \<Rightarrow> md\<lparr>md_cache := cache_replace (ae_now env) sn h\<rparr> | _ \<Rightarrow> md)"
  have "fetch_models_snapshot env headers md s = Some (md', res)"
    unfolding fetch_models_snapshot_def run option.map md'_def ..
  moreover have "\<forall>s1 r. res = Returned s1 r \<longrightarrow> closed_books s s1"
    using st settled_since_closed by blast
  moreover have "md_refresh_in_flight md' = md_refresh_in_flight md \<and> md_spawned md' = md_spawned md
    \<and> (md_cache md' = md_cache md \<or> (\<exists>s1 sn h. res = Returned s1 (Inr (sn, h))
          \<and> md_cache md' = cache_replace (ae_now env) sn h))
    \<and> (\<forall>s1 f. res = Returned s1 (Inl f) \<longrightarrow> md' = md)"
    by (auto simp: md'_def split: outcome.splits sum.splits)
  ultimately show ?thesis by blast
qed

lemma fetched_answer_books:
  assumes "api_ok X env" "pool X (ws_store s)"
  shows "\<exists>md' res. fetched_models_answer env ctx headers k md s = Some (md', res)
    \<and> (\<forall>s1 r. res = Returned s1 r \<longrightarrow> closed_books s s1
          \<and> (md_cache md' = md_cache md
              \<or> (\<exists>sn h. md_cache md' = cache_replace (ae_now env) sn h \<and> r = k (sn, h))))"
proof -
  from fetch_books [OF assms, of headers md] obtain md' res where
    f: "fetch_models_snapshot env headers md s = Some (md', res)"
    "\<And>s1 r. res = Returned s1 r \<Longrightarrow> closed_books s s1"
    "md_cache md' = md_cache md \<or> (\<exists>s1 sn h. res = Returned s1 (Inr (sn, h))
          \<and> md_cache md' = cache_replace (ae_now env) sn h)" by blast
  then show ?thesis
    by (auto simp: fetched_models_answer_def and_then_cases)
qed

text \<open>A caller of the OpenAI shape that finds a list in the cache, and every other caller.\<close>

lemma models_from_cache:
  assumes "response_shape_for_headers headers = OpenAi" "cache_current_entry (md_cache md) = Some (sn, h)"
  shows "\<exists>md' r. handle_get_models env headers md s = Some (md', Returned s r)
    \<and> hr_body r = JsonBody (sn_openai_json sn) \<and> md_cache md' = md_cache md
    \<and> (if cache_fresh_entry (ae_now env) (md_cache md) = Some (sn, h)
       then md' = md \<and> get_all (hr_headers r) ''cache-control'' = get_all h ''cache-control''
       else get_all (hr_headers r) ''cache-control'' = [''no-store'']
          \<and> md_spawned md' = md_spawned md @ (if md_refresh_in_flight md then [] else [headers])
          \<and> md_refresh_in_flight md')"
proof (cases "cache_fresh_entry (ae_now env) (md_cache md) = None")
  case False
  then have "cache_fresh_entry (ae_now env) (md_cache md) = Some (sn, h)"
    using assms(2) by (auto simp: cache_fresh_entry_def split: option.splits)
  with assms show ?thesis
    by (simp add: handle_get_models_def Let_def cached_or_refreshing_models_snapshot_def failure_context_for_def)
next
  case True
  then have "handle_get_models env headers md s = Some (maybe_spawn_models_refresh headers md,
      Returned s (models_openai_success_response sn (snd (stale_models_cached_entry (sn, h)))))"
    using assms
    by (simp add: handle_get_models_def Let_def cached_or_refreshing_models_snapshot_def
        failure_context_for_def stale_models_cached_entry_def)
  with True show ?thesis
    by (simp add: stale_models_cached_entry_def maybe_spawn_models_refresh_def hdr)
qed

lemma models_fetched:
  assumes "api_ok X env" "pool X (ws_store s)"
    and "response_shape_for_headers headers = Codex \<or> cache_current_entry (md_cache md) = None"
  shows "\<exists>md' res. handle_get_models env headers md s = Some (md', res)
    \<and> (\<forall>s1 r. res = Returned s1 r \<longrightarrow> closed_books s s1
        \<and> (md_cache md' = md_cache md \<or> (\<exists>sn h. md_cache md' = cache_replace (ae_now env) sn h
            \<and> hr_body r = JsonBody (if response_shape_for_headers headers = Codex
                then sn_codex_json sn else sn_openai_json sn))))"
proof -
  let ?ctx = "failure_context_for headers UnaryJson"
  note books = fetched_answer_books [OF assms(1,2), of ?ctx headers _ md]
  show ?thesis
  proof (cases "response_shape_for_headers headers")
    case Codex
    with books [of "\<lambda>(sn, h). json_response 200 [] (sn_codex_json sn)"] show ?thesis
      unfolding handle_get_models_def Let_def by (auto simp: failure_context_for_def json_response_def)
  next
    case OpenAi
    with assms(3) have "cache_current_entry (md_cache md) = None" "cache_fresh_entry (ae_now env) (md_cache md) = None"
      by (auto simp: cache_fresh_entry_def split: option.splits)
    then have eq: "handle_get_models env headers md s = fetched_models_answer env ?ctx headers
        (\<lambda>(sn, h). models_openai_success_response sn h) md s"
      by (simp add: handle_get_models_def Let_def cached_or_refreshing_models_snapshot_def
          failure_context_for_def OpenAi)
    from books [of "\<lambda>(sn, h). models_openai_success_response sn h"] OpenAi show ?thesis
      unfolding eq by fastforce
  qed
qed


text \<open>A sample gateway whose upstream answers every call, with a pool of the account \<open>b\<close>.\<close>

definition sample_api_env :: "('fs, unit) api_env" where
  "sample_api_env =
     \<lparr>ae_externals = sample_externals, ae_client_externals = sample_client_externals,
      ae_net_externals = \<lparr>oauth_client_id = ''client'',
        decode_refresh = (\<lambda>_. Inr (Some ''at'', None)), jwt_claims = (\<lambda>_. Inr (None, None, None)),
        jwt_expiration = (\<lambda>_. Inr None), url_parse = (\<lambda>u. Inr (Url ''http'' u)),
        client_request = (\<lambda>_. Inr []), tls_config = Inr (), from_utf8 = Some\<rparr>,
      ae_codec = \<lparr>ssc_read = (\<lambda>_. Inl ''none''), ssc_print = (\<lambda>_. Inr [])\<rparr>,
      ae_decode_models = (\<lambda>v. Inr \<lparr>mr_models = [], mr_json = Inr v\<rparr>), ae_config = sample_config,
      ae_client = new_upstream_client ''http://upstream'' ''1'' Passthrough 5,
      ae_world = (\<lambda>_. quiet_world),
      ae_network = (\<lambda>_ _. \<lparr>nt_execute = (\<lambda>_ _ _. Inr \<lparr>uu_status = 200, uu_headers = [], uu_body = ''{}''\<rparr>),
        nt_stream = (\<lambda>_ _ _. (0, Inr (200, [], ())))\<rparr>),
      ae_token_endpoint = (\<lambda>_ _ _. Reply 200 [] (Some ''t'')), ae_now = 0, ae_rounds = 2,
      ae_inner_rounds = 3\<rparr>"

lemma sample_api_ok: "api_ok {''b''} sample_api_env"
  by (simp add: api_ok_def sample_api_env_def confined_def quiet_world_def)

definition sample_scene :: "'fs websocket_scene" where
  "sample_scene =
     \<lparr>wz_connect = (\<lambda>_ _ _ _ _. (0, Inr (\<lambda>_ _. None, []))), wz_token_endpoint = (\<lambda>_ _ _ _. Reply 200 [] (Some ''t'')),
      wz_response_headers = [], wz_upgraded = True, wz_events = [ClientGone], wz_world = (\<lambda>_ _. quiet_world),
      wz_snapshot = (\<lambda>_ _. None), wz_client_takes = (\<lambda>_ _. True), wz_now = (\<lambda>_. 0),
      wz_last_world = quiet_world\<rparr>"

lemma sample_scene_ok: "scene_ok {''b''} sample_api_env sample_scene"
  by (simp add: scene_ok_def sample_api_ok) (simp add: sample_scene_def confined_def quiet_world_def)

definition sample_models :: models_state where
  "sample_models =
     \<lparr>md_cache = cache_replace 0 \<lparr>sn_codex_json = JNull, sn_openai_json = JArray [], sn_parallel_tool_calls_by_slug = []\<rparr>
        [(''cache-control'', ''max-age=60'')],
      md_refresh_in_flight = False, md_spawned = []\<rparr>"


lemma sample_upstream: "upstream_for sample_api_env (ae_token_endpoint sample_api_env j) (\<lambda>i account. Inr v) = answering_with v"
  by (simp add: upstream_for_def answering_with_def sample_api_env_def fun_eq_iff refresh_access_token_def
      is_success_def)

lemma sample_stream:
  "fst (stream_json sample_externals sample_client_externals (ae_network sample_api_env 0 i)
     (ae_client sample_api_env) ''responses'' account headers body)
   = Inr (200, sanitize_response_headers sample_client_externals [], ())"
  by (simp add: stream_json_def Let_def stream_with_def execute_with_semantic_retry_def sample_api_env_def
      new_upstream_client_def retry_policy_of_def DEFAULT_REQUEST_MAX_RETRIES_def upt_rec)

lemma sample_prepared_request:
  "\<exists>p. prepare_responses_request (sample_api_env :: ('fs, unit) api_env) None [] (Inr (JObject [])) = Inr p
     \<and> should_stream_responses_request (pj_body p) \<and> fx_response_shape (pj_failure_context p) = OpenAi"
proof -
  have "response_shape_for_headers [] = OpenAi"
    by (simp add: response_shape_for_headers_def hdr_get_str_def hdr_get_def)
  moreover have "normalize_responses_request_body Passthrough False None (JObject []) = JObject []"
    by (simp add: normalize_responses_request_body_def normalize_string_input_to_message_def
        normalize_non_codex_responses_compatibility_def unsupported_fields_def obj_modify_def Let_def)
  moreover have "uc_fingerprint_mode (ae_client (sample_api_env :: ('fs, unit) api_env)) = Passthrough"
    by (simp add: sample_api_env_def new_upstream_client_def)
  ultimately show ?thesis
    by (simp add: prepare_responses_request_def failure_context_for_def extract_json_request_body_def
        overridden_request_def apply_body_gateway_overrides_def or_else_def Let_def
        should_stream_responses_request_def jget_def)
qed

lemma sample_stream_request:
  "\<exists>s1 h. post_responses sample_api_env None [] (Inr (JObject [])) (sample_state fs)
        = Some (Returned s1 (StreamAnswer 200 h ''b'' () OpenAi))
      \<and> ws_fs s1 = fs \<and> accounting s1 = [Selected ''b'']"
proof -
  let ?env = "sample_api_env :: ('a, unit) api_env"
  obtain p where p: "prepare_responses_request ?env None [] (Inr (JObject [])) = Inr p"
      "should_stream_responses_request (pj_body p)" "fx_response_shape (pj_failure_context p) = OpenAi"
    using sample_prepared_request by blast
  let ?h = "sanitize_response_headers sample_client_externals []"
  have e: "ae_externals ?env = sample_externals"
      "ae_client_externals ?env = sample_client_externals" "ae_inner_rounds ?env = 3"
      "(ae_config ?env)\<lparr>fc_disposition := HoldUntilCaller\<rparr> = sample_config"
      "ae_world ?env 0 = quiet_world"
    by (simp_all add: sample_api_env_def sample_config_def)
  obtain s1 where fo: "execute_with_failover_from 3 sample_externals sample_config quiet_world
      (answering_with (200 :: nat, ?h, ())) {} (sample_state fs)
      = Some (Returned s1 ({}, Inr \<lparr>re_account_id = ''b'', re_value = (200, ?h, ())\<rparr>))"
    and s1: "ws_fs s1 = fs \<and> accounting s1 = [Selected ''b'']"
    using sample_failover_with [of "{}" "parse_json sample_externals" "(200 :: nat, ?h, ())" fs] by auto
  have "post_responses ?env None [] (Inr (JObject [])) (sample_state fs)
      = Some (Returned s1 (StreamAnswer 200 (shape_responses_success_headers OpenAi (pj_body p) ?h) ''b'' () OpenAi))"
    unfolding post_responses_def p(1) sum.case Let_def if_P [OF p(2)] e sample_stream sample_upstream
      execute_with_failover_def fo
    by (simp add: stream_reply_def p(3))
  with s1 show ?thesis by blast
qed

theorem response_request_settles_witness:
  "\<exists>s1 h evs. post_responses sample_api_env None [] (Inr (JObject [])) sample_world_state
        = Some (Returned s1 (StreamAnswer 200 h ''b'' () OpenAi))
    \<and> accounting (outcome_state (deliver_reply sample_externals quiet_world [(0, False, [InEof])]
          (StreamAnswer 200 h ''b'' () OpenAi) s1)) = accounting sample_world_state @ evs
    \<and> all_settled evs"
proof -
  let ?env = "sample_api_env :: (unit, unit) api_env"
  obtain s1 h where run: "post_responses ?env None [] (Inr (JObject [])) sample_world_state
      = Some (Returned s1 (StreamAnswer 200 h ''b'' () OpenAi))"
    using sample_stream_request [of "()"] by blast
  have "ae_externals ?env = sample_externals" by (simp add: sample_api_env_def)
  with response_request_settles [OF sample_api_ok sample_pool(2) [of "()"], of None "[]" "Inr (JObject [])"] run
  show ?thesis by fastforce
qed


lemma sample_websocket_upstream:
  "websocket_upstream sample_api_env sample_scene 0 0 [] = answering_with sample_connection"
proof -
  have "connect_responses_websocket sample_externals sample_client_externals (ae_net_externals sample_api_env)
      (wz_connect sample_scene 0 0 n) (ae_client sample_api_env) account [] = Inr sample_connection" for n account
    by (simp add: connect_responses_websocket_def sample_api_env_def sample_scene_def websocket_url_for_path_def
        new_upstream_client_def sample_connection_def installation_id_for_account_def Let_def hdr_get_str_def hdr_get_def)
  then show ?thesis
    by (simp add: websocket_upstream_def sample_api_env_def sample_scene_def upstream_for_def answering_with_def
        fun_eq_iff refresh_access_token_def is_success_def)
qed

lemma sample_session:
  "\<exists>s1 s2. settle_at sample_externals quiet_world ''b'' SettleRelease s1 = Returned s2 ()
     \<and> get_responses_websocket sample_api_env sample_scene [] (sample_state fs)
        = Some (Returned s2 (Served [] \<lparr>re_account_id = ''b'', re_value = WsReleased\<rparr>))
     \<and> ws_fs s2 = fs \<and> accounting s2 = [Selected ''b'', Settled ''b'']"
proof -
  let ?env = "sample_api_env :: ('a, unit) api_env" and ?scene = "sample_scene :: 'a websocket_scene"
  have e: "ae_externals ?env = sample_externals" "ae_inner_rounds ?env = 3"
      "(ae_config ?env)\<lparr>fc_disposition := HoldUntilCaller\<rparr> = sample_config"
      "ae_world ?env 0 = quiet_world"
    by (simp_all add: sample_api_env_def sample_config_def)
  have z: "wz_upgraded ?scene" "wz_events ?scene = [ClientGone]"
      "wz_last_world ?scene = quiet_world" "wz_response_headers ?scene = []"
    by (simp_all add: sample_scene_def)
  have shape: "fx_response_shape (failure_context_for [] UnaryJson) = OpenAi"
    by (simp add: failure_context_for_def response_shape_for_headers_def hdr_get_str_def hdr_get_def)
  obtain s1 where fo: "execute_with_failover_from 3 sample_externals sample_config quiet_world
      (answering_with sample_connection) {} (sample_state fs)
      = Some (Returned s1 ({}, Inr \<lparr>re_account_id = ''b'', re_value = sample_connection\<rparr>))"
    and s1: "ws_fs s1 = fs" "accounting s1 = [Selected ''b'']"
    using sample_failover_with [of "{}" "parse_json sample_externals" sample_connection fs] by auto
  obtain s2 where st: "settle_at sample_externals quiet_world ''b'' SettleRelease s1 = Returned s2 ()"
    and s2: "ws_fs s2 = fs" "accounting s2 = [Selected ''b'', Settled ''b'']"
    using s1 by (simp add: settle_at_def Let_def interfere_def quiet_world_def put_store_def accounting_def)
  obtain ps where "proxy_websocket (session_env ?env ?scene) [ClientGone] []
      \<lparr>re_account_id = ''b'', re_value = sample_connection\<rparr> False s1
      = ((ps, s1), Finish \<lparr>re_account_id = ''b'', re_value = WsReleased\<rparr>)"
    by (simp add: proxy_websocket_def proxy_turn_def finish_def initial_proxy_def routed_websocket_outcome_def)
  then have "get_responses_websocket ?env ?scene [] (sample_state fs)
      = Some (Returned s2 (Served [] \<lparr>re_account_id = ''b'', re_value = WsReleased\<rparr>))"
    unfolding get_responses_websocket_def Let_def e shape sample_websocket_upstream fo z
    by (simp add: st z(1))
  with st s2 show ?thesis by blast
qed

theorem websocket_request_settles_witness:
  "\<exists>s1 evs. get_responses_websocket sample_api_env sample_scene [] sample_world_state
        = Some (Returned s1 (Served [] \<lparr>re_account_id = ''b'', re_value = WsReleased\<rparr>))
     \<and> accounting s1 = accounting sample_world_state @ evs \<and> (\<exists>s2. settle_at sample_externals quiet_world ''b'' SettleRelease s2 = Returned s1 () \<and> settled_but_gone (ws_store s2) evs)"
proof -
  let ?env = "sample_api_env :: (unit, unit) api_env" and ?scene = "sample_scene :: unit websocket_scene"
  obtain s2 where run: "get_responses_websocket ?env ?scene [] sample_world_state
      = Some (Returned s2 (Served [] \<lparr>re_account_id = ''b'', re_value = WsReleased\<rparr>))"
    using sample_session [of "()"] by blast
  have "ae_externals ?env = sample_externals" "wz_last_world ?scene = quiet_world"
    by (simp_all add: sample_api_env_def sample_scene_def)
  with websocket_request_settles [OF sample_scene_ok sample_pool(2) [of "()"], of "[]"] run show ?thesis
    by fastforce
qed

end
