(* ===== verification/Admin_Api.thy ===== *)
theory Admin_Api
  imports Gateway_Errors Account_Routing
begin

text \<open>
  \<open>src/app/admin.rs\<close> and the routes of \<open>src/app/mod.rs\<close>: the handlers of the admin API over the
  store, the disk and the routing policy, and how accounts are shown. Other tasks may act before every
  lock, as in \<open>App_State\<close>.
\<close>

section \<open>How accounts are shown\<close>

text \<open>The derived serializations; \<open>show_time\<close> is chrono's for a time.\<close>

definition optional_json :: "('a \<Rightarrow> json) \<Rightarrow> 'a option \<Rightarrow> json" where
  "optional_json f v = (case v of None \<Rightarrow> JNull | Some x \<Rightarrow> f x)"

fun routing_state_name :: "routing_state \<Rightarrow> string" where
  "routing_state_name RsCold = ''cold''"
| "routing_state_name RsReady = ''ready''"
| "routing_state_name RsWarming = ''warming''"
| "routing_state_name RsCooldown = ''cooldown''"
| "routing_state_name RsRiskControlled = ''risk_controlled''"
| "routing_state_name RsTemporarilyUnavailable = ''temporarily_unavailable''"
| "routing_state_name RsAuthInvalid = ''auth_invalid''"

fun blocked_reason_name :: "blocked_reason \<Rightarrow> string" where
  "blocked_reason_name BrRateLimited = ''rate_limited''"
| "blocked_reason_name BrQuotaExhausted = ''quota_exhausted''"
| "blocked_reason_name BrRiskControlled = ''risk_controlled''"
| "blocked_reason_name BrTemporarilyUnavailable = ''temporarily_unavailable''"
| "blocked_reason_name BrAuthInvalid = ''auth_invalid''"

fun blocked_source_name :: "blocked_source \<Rightarrow> string" where
  "blocked_source_name UpstreamRetryAfter = ''upstream_retry_after''"
| "blocked_source_name LocalBackoff = ''local_backoff''"
| "blocked_source_name FixedPolicy = ''fixed_policy''"

fun wake_disposition_name :: "wake_disposition \<Rightarrow> string" where
  "wake_disposition_name Woken = ''woken''"
| "wake_disposition_name SkippedAuthInvalid = ''skipped_auth_invalid''"

definition account_view_json :: "(time \<Rightarrow> string) \<Rightarrow> account_view \<Rightarrow> json" where
  "account_view_json show_time v =
     (let t = optional_json (\<lambda>x. JString (show_time x))
      in JObject
        [(''id'', JString (av_id v)), (''label'', optional_json JString (av_label v)),
         (''email'', optional_json JString (av_email v)),
         (''routing_state'', JString (routing_state_name (av_routing_state v))),
         (''blocked_reason'',
            optional_json (\<lambda>r. JString (blocked_reason_name r)) (av_blocked_reason v)),
         (''blocked_source'',
            optional_json (\<lambda>r. JString (blocked_source_name r)) (av_blocked_source v)),
         (''blocked_until'', t (av_blocked_until v)),
         (''account_id'', optional_json JString (av_account_id v)),
         (''plan_type'', optional_json JString (av_plan_type v)),
         (''refresh_in_flight'', JBool (av_refresh_in_flight v)),
         (''in_flight_requests'', JNumber (JInt (uint (av_in_flight_requests v)))),
         (''access_token_expires_at'', t (av_access_token_expires_at v)),
         (''last_refresh_at'', t (av_last_refresh_at v)),
         (''last_selected_at'', t (av_last_selected_at v)),
         (''last_success_at'', t (av_last_success_at v)),
         (''last_error_at'', t (av_last_error_at v)),
         (''last_error'', optional_json JString (av_last_error v))])"

definition wake_account_result_json :: "(time \<Rightarrow> string) \<Rightarrow> wake_account_result \<Rightarrow> json" where
  "wake_account_result_json show_time r =
     JObject [(''disposition'', JString (wake_disposition_name (war_disposition r))),
              (''account'', account_view_json show_time (war_account r))]"

definition wake_all_result_json :: "(time \<Rightarrow> string) \<Rightarrow> wake_all_result \<Rightarrow> json" where
  "wake_all_result_json show_time r =
     JObject [(''woken'', JNumber (JInt (int (wr_woken r)))),
              (''skipped_auth_invalid'', JNumber (JInt (int (wr_skipped_auth_invalid r)))),
              (''accounts'', JArray (map (wake_account_result_json show_time) (wr_accounts r)))]"

section \<open>The handlers\<close>

definition ADMIN_INTERNAL_ERROR_MESSAGE :: string where
  "ADMIN_INTERNAL_ERROR_MESSAGE = ''internal server error''"

definition admin_internal_error_response :: http_response where
  "admin_internal_error_response = json_error 500 ADMIN_INTERNAL_ERROR_MESSAGE"

definition unknown_account_response :: "string \<Rightarrow> http_response" where
  "unknown_account_response aid = json_error 404 (''unknown account `'' @ aid @ ''`'')"

record import_account_request =
  ir_refresh_token :: string
  ir_label :: "string option"
  ir_email :: "string option"

definition post_admin_accounts_import ::
  "externals \<Rightarrow> (time \<Rightarrow> string) \<Rightarrow> 'fs world \<Rightarrow> import_account_request \<Rightarrow> 'fs world_state
     \<Rightarrow> 'fs world_state \<times> http_response" where
  "post_admin_accounts_import E show_time W body s =
     (case normalize_refresh_token (ir_refresh_token body) of
        Inl _ \<Rightarrow> (s, json_error 400 INVALID_REFRESH_TOKEN_MESSAGE)
      | Inr refresh_token \<Rightarrow>
          (case app_import_account E W 0 refresh_token (ir_label body) (ir_email body) s of
             (s1, Inr result) \<Rightarrow>
               (s1, json_response (if iar_already_exists result then 200 else 201) []
                  (JObject [(''account'', account_view_json show_time (iar_account result)),
                            (''already_exists'', JBool (iar_already_exists result))]))
           | (s1, Inl error) \<Rightarrow> (s1, admin_internal_error_response)))"

definition get_admin_accounts ::
  "(time \<Rightarrow> string) \<Rightarrow> 'fs world \<Rightarrow> 'fs world_state \<Rightarrow> 'fs world_state \<times> http_response" where
  "get_admin_accounts show_time W s0 =
     (let s = interfere W 0 0 s0;
          (st, items) = list_accounts (w_time W 0 0) (ws_store s)
      in (put_store Internal st s,
          json_response 200 [] (JObject [(''accounts'', JArray (map (account_view_json show_time) items))])))"

text \<open>A response without a body.\<close>

definition status_response :: "status \<Rightarrow> http_response" where
  "status_response status = bytes_response status [] []"

definition delete_admin_account ::
  "'fs world \<Rightarrow> string \<Rightarrow> 'fs world_state \<Rightarrow> 'fs world_state \<times> http_response" where
  "delete_admin_account W aid s =
     (case app_remove_account W 0 aid s of
        (s1, Inr True) \<Rightarrow> (s1, status_response 204)
      | (s1, Inr False) \<Rightarrow> (s1, unknown_account_response aid)
      | (s1, Inl error) \<Rightarrow> (s1, admin_internal_error_response))"

definition post_admin_account_wake ::
  "(time \<Rightarrow> string) \<Rightarrow> 'fs world \<Rightarrow> string \<Rightarrow> 'fs world_state \<Rightarrow> 'fs world_state \<times> http_response" where
  "post_admin_account_wake show_time W aid s0 =
     (let s = interfere W 0 0 s0
      in case view (ws_store s) aid of
           Inl _ \<Rightarrow> (s, unknown_account_response aid)
         | Inr _ \<Rightarrow>
             (case wake_account aid (ws_store s) of
                (st, Inr result) \<Rightarrow>
                  (put_store Internal st s, json_response 200 [] (wake_account_result_json show_time result))
              | (st, Inl error) \<Rightarrow> (put_store Internal st s, admin_internal_error_response)))"

definition post_admin_accounts_wake ::
  "(time \<Rightarrow> string) \<Rightarrow> 'fs world \<Rightarrow> 'fs world_state \<Rightarrow> 'fs world_state \<times> http_response" where
  "post_admin_accounts_wake show_time W s0 =
     (let s = interfere W 0 0 s0; (st, result) = wake_all_accounts (ws_store s)
      in (put_store Internal st s, json_response 200 [] (wake_all_result_json show_time result)))"

definition routing_policy_response :: "routing_policy \<Rightarrow> http_response" where
  "routing_policy_response policy =
     json_response 200 [] (JObject [(''routing_policy'', JString (routing_policy_as_str policy))])"

definition get_admin_routing_policy :: "routing_policy \<Rightarrow> http_response" where
  "get_admin_routing_policy policy = routing_policy_response policy"

text \<open>The argument \<open>current\<close> is the policy behind its lock; the body has an optional policy.\<close>

definition put_admin_routing_policy ::
  "string option \<Rightarrow> routing_policy \<Rightarrow> routing_policy \<times> http_response" where
  "put_admin_routing_policy body current =
     (case body of
        None \<Rightarrow> (current, json_error 400 ''missing routing_policy'')
      | Some raw \<Rightarrow>
          (case routing_policy_parse raw of
             Inl error \<Rightarrow> (current, json_error 400 error)
           | Inr policy \<Rightarrow> (policy, routing_policy_response policy)))"

definition get_health :: http_response where
  "get_health = json_response 200 [] (JObject [(''ok'', JBool True)])"

section \<open>Routes\<close>

datatype route_method = RGet | RPost | RPut | RDelete

datatype public_call =
  CallHealth | CallModels | CallWebsocket | CallResponses | CallCompact | CallTraceSummarize

datatype admin_call =
  CallImport | CallWakeAll | CallListAccounts | CallWake | CallDelete
| CallGetPolicy | CallPutPolicy

text \<open>The tables handed to axum, with nested prefixes written out; matching a path is axum's.\<close>

definition public_routes :: "(string \<times> (route_method \<times> public_call) list) list" where
  "public_routes =
     [(''/health'', [(RGet, CallHealth)]),
      (''/v1/models'', [(RGet, CallModels)]),
      (''/v1/responses'', [(RGet, CallWebsocket), (RPost, CallResponses)]),
      (''/v1/responses/compact'', [(RPost, CallCompact)]),
      (''/v1/memories/trace_summarize'', [(RPost, CallTraceSummarize)])]"

definition admin_routes :: "(string \<times> (route_method \<times> admin_call) list) list" where
  "admin_routes =
     [(''/admin/accounts/import'', [(RPost, CallImport)]),
      (''/admin/accounts/wake'', [(RPost, CallWakeAll)]),
      (''/admin/accounts'', [(RGet, CallListAccounts)]),
      (''/admin/accounts/{id}/wake'', [(RPost, CallWake)]),
      (''/admin/accounts/{id}'', [(RDelete, CallDelete)]),
      (''/admin/routing/policy'', [(RGet, CallGetPolicy), (RPut, CallPutPolicy)])]"


section \<open>Tokens are not shown\<close>

text \<open>A record or store without its tokens; whether there is an access token is kept.\<close>

definition masked :: "account_record \<Rightarrow> account_record" where
  "masked r = r\<lparr>ar_refresh_token := [], ar_access_token := map_option (\<lambda>_. []) (ar_access_token r)\<rparr>"

definition masked_store :: "account_store \<Rightarrow> account_store" where
  "masked_store st = st\<lparr>st_records := map (\<lambda>(k, r). (k, masked r)) (st_records st)\<rparr>"

named_theorems mask \<open>what an operation does to a masked store\<close>

lemma masked_view [mask]: "account_view_from (masked r) = account_view_from r"
  by (simp add: account_view_from_def masked_def)

lemma masked_clear [mask]: "clear_block (masked r) = masked (clear_block r)"
  by (simp add: clear_block_def masked_def)

lemma masked_fields [simp]:
  "ar_blocked_until (masked r) = ar_blocked_until r" "ar_routing_state (masked r) = ar_routing_state r"
  "ar_refresh_in_flight (masked r) = ar_refresh_in_flight r"
  "ar_access_token (masked r) = map_option (\<lambda>_. []) (ar_access_token r)" "ready_or_cold (masked r) = ready_or_cold r"
  "(masked r)\<lparr>ar_routing_state := x\<rparr> = masked (r\<lparr>ar_routing_state := x\<rparr>)"
  by (simp_all add: masked_def ready_or_cold_def)

lemma masked_refresh [mask]: "refresh_expired_record now (masked r) = masked (refresh_expired_record now r)"
  by (auto simp: refresh_expired_record_def Let_def mask split: option.splits)

lemma masked_wake [mask]: "apply_wake (masked r) = (masked (fst (apply_wake r)), snd (apply_wake r))"
  by (auto simp: apply_wake_def masked_def clear_block_def Let_def)

lemma masked_get [mask]: "records_get (masked_store st) k = map_option masked (records_get st k)"
  by (simp add: records_get_def masked_store_def map_of_map)

lemma masked_insert [mask]:
  "records_insert k (masked r) (masked_store st) = masked_store (records_insert k r st)"
proof -
  have "AList.update k (masked r) (map (\<lambda>(k, r). (k, masked r)) xs)
      = map (\<lambda>(k, r). (k, masked r)) (AList.update k r xs)" for xs
    by (induction xs) auto
  then show ?thesis by (simp add: records_insert_def masked_store_def)
qed

lemma masked_keys [mask]: "map fst (st_records (masked_store st)) = map fst (st_records st)"
  by (simp add: masked_store_def case_prod_unfold)

lemma masked_list [mask]: "snd (list_accounts now (masked_store st)) = snd (list_accounts now st)"
proof -
  have "map account_view_from (store_values (refresh_expired_blocks now (masked_store st)))
      = map account_view_from (store_values (refresh_expired_blocks now st))"
    by (simp add: store_values_def refresh_expired_blocks_def masked_store_def case_prod_unfold mask)
  then show ?thesis by (simp add: list_accounts_def Let_def)
qed

lemma masked_wake_loop [mask]:
  "snd (wake_all_loop ks (masked_store st) acc) = snd (wake_all_loop ks st acc)"
proof (induction ks st acc rule: wake_all_loop.induct)
  case (2 aid ids st acc)
  then show ?case by (cases "records_get st aid") (auto simp: mask Let_def split: prod.splits)
qed simp

lemma masked_wake_all [mask]: "snd (wake_all_accounts (masked_store st)) = snd (wake_all_accounts st)"
  by (simp add: wake_all_accounts_def mask)

lemma masked_wake_one [mask]: "snd (wake_account aid (masked_store st)) = snd (wake_account aid st)"
  by (cases "records_get st aid") (simp_all add: wake_account_def mask Let_def split: prod.splits)

lemma masked_view_account [mask]: "view (masked_store st) aid = view st aid"
  by (cases "records_get st aid") (simp_all add: view_def mask)

text \<open>
  C36: the admin API shows no token. Two stores that differ in nothing but the values of refresh and
  access tokens get the same answers from the list of accounts, from the waking of one account, and
  from the waking of all: the status, the headers and the body.
\<close>

theorem admin_hides_tokens:
  assumes "masked_store (ws_store (interfere W 0 0 s)) = masked_store (ws_store (interfere W' 0 0 s'))"
    and "w_time W 0 0 = w_time W' 0 0"
  shows "snd (get_admin_accounts show_time W s) = snd (get_admin_accounts show_time W' s')
    \<and> snd (post_admin_account_wake show_time W aid s) = snd (post_admin_account_wake show_time W' aid s')
    \<and> snd (post_admin_accounts_wake show_time W s) = snd (post_admin_accounts_wake show_time W' s')"
proof -
  let ?st = "ws_store (interfere W 0 0 s)" and ?st' = "ws_store (interfere W' 0 0 s')"
  have l: "snd (list_accounts now ?st) = snd (list_accounts now ?st')" for now
    using masked_list assms(1) by metis
  have w: "snd (wake_account aid ?st) = snd (wake_account aid ?st')"
    using masked_wake_one assms(1) by metis
  have v: "view ?st aid = view ?st' aid" using masked_view_account assms(1) by metis
  have a: "snd (wake_all_accounts ?st) = snd (wake_all_accounts ?st')"
    using masked_wake_all assms(1) by metis
  have "snd (get_admin_accounts show_time W s) = snd (get_admin_accounts show_time W' s')"
    using l [of "w_time W 0 0"] assms(2)
    by (simp add: get_admin_accounts_def Let_def case_prod_unfold)
  moreover have "snd (post_admin_account_wake show_time W aid s) = snd (post_admin_account_wake show_time W' aid s')"
    using v w by (auto simp: post_admin_account_wake_def Let_def split: sum.splits prod.splits)
  moreover have "snd (post_admin_accounts_wake show_time W s) = snd (post_admin_accounts_wake show_time W' s')"
    using a by (simp add: post_admin_accounts_wake_def Let_def case_prod_unfold)
  ultimately show ?thesis by blast
qed


text \<open>Two stores with one account each, whose refresh tokens differ.\<close>

definition sample_admin_state :: "string \<Rightarrow> unit world_state" where
  "sample_admin_state token =
     \<lparr>ws_store = one_store\<lparr>st_records := [(''b'', free_sample\<lparr>ar_refresh_token := token\<rparr>)]\<rparr>, ws_fs = (),
      ws_log = []\<rparr>"

theorem admin_hides_tokens_witness:
  "ws_store (sample_admin_state ''x'') \<noteq> ws_store (sample_admin_state ''y'')
   \<and> snd (get_admin_accounts (\<lambda>_. []) quiet_world (sample_admin_state ''x''))
      = snd (get_admin_accounts (\<lambda>_. []) quiet_world (sample_admin_state ''y''))"
proof -
  have i: "interfere quiet_world 0 0 s = s" for s by (simp add: interfere_def quiet_world_def)
  have "masked_store (ws_store (interfere quiet_world 0 0 (sample_admin_state ''x'')))
      = masked_store (ws_store (interfere quiet_world 0 0 (sample_admin_state ''y'')))"
    unfolding i by (simp add: sample_admin_state_def masked_store_def masked_def)
  from admin_hides_tokens [OF this refl] show ?thesis
    by (auto simp: sample_admin_state_def dest: arg_cong [where f = "\<lambda>st. ar_refresh_token (snd (hd (st_records st)))"])
qed

text \<open>
  The routing policy can only be set to a policy the gateway has, and what is set is what is read.
  A request is answered by 200 exactly when its body names one of the policies; then that policy
  is in force and a later read answers the same. Any other request is answered by 400 and changes
  nothing.
\<close>

theorem routing_policy_update:
  "case put_admin_routing_policy body current of (policy, response) \<Rightarrow>
     (hr_status response = 200 \<longleftrightarrow> (\<exists>p. body = Some (routing_policy_as_str p)))
     \<and> (if hr_status response = 200
         then body = Some (routing_policy_as_str policy) \<and> get_admin_routing_policy policy = response
         else hr_status response = 400 \<and> policy = current)"
proof (cases body)
  case None
  then show ?thesis by (simp add: put_admin_routing_policy_def json_error_def json_response_def)
next
  case (Some raw)
  show ?thesis
  proof (cases "routing_policy_parse raw")
    case (Inl e)
    then have "raw \<noteq> routing_policy_as_str p" for p by auto
    with Inl Some show ?thesis
      by (simp add: put_admin_routing_policy_def json_error_def json_response_def)
  next
    case (Inr p)
    then have "raw = routing_policy_as_str p" by (simp add: routing_policy_parse_Inr)
    with Inr Some show ?thesis
      by (auto simp: put_admin_routing_policy_def get_admin_routing_policy_def routing_policy_response_def
          json_response_def)
  qed
qed




end
