(* ===== verification/Gateway_Main.thy ===== *)
theory Gateway_Main
  imports Gateway_Config Account_Persistence Upstream_Http
begin

text \<open>
  \<open>src/main.rs\<close> and \<open>AppState::new\<close>: the start of the gateway up to its two listeners, the scanner of
  the accounts directory, and the end of the process. Listeners and tasks are represented by what
  they report.
\<close>

section \<open>Start\<close>

text \<open>The parts of \<open>AppState\<close> that carry data; the configuration's directory is a path.\<close>

record app_state =
  ap_config :: "path runtime_config"
  ap_routing_policy :: routing_policy
  ap_accounts :: account_store
  ap_upstream :: upstream_client

definition new_app_state :: "path runtime_config \<Rightarrow> app_state" where
  "new_app_state config =
     \<lparr>ap_config = config, ap_routing_policy = routing_policy config,
      ap_accounts = new_store (cfg_accounts_dir config),
      ap_upstream = new_upstream_client (upstream_base_url config) (codex_version config)
        (fingerprint_mode config) (request_timeout_seconds config)\<rparr>"

text \<open>
  What the start meets: \<open>parse_addr\<close> is \<open>SocketAddr::from_str\<close>, as the address and the text it is
  displayed as; \<open>build_clients\<close> is the error of building the HTTP clients; \<open>bind_listener\<close> that of
  binding.
\<close>

record start_env =
  parse_addr :: "string \<Rightarrow> string + (ip_addr \<times> string)"
  build_clients :: "string + unit"
  bind_listener :: "ip_addr \<Rightarrow> string + unit"
  suffix_lock_ok :: bool

text \<open>
  The effects of a start: \<open>codex_login\<close> is asked to use an originator (a refusal is only logged), the
  suffix of its user agent is set unless its lock is poisoned, the directory is read, an address is bound.
\<close>

datatype start_effect = OriginatorRequested string | SuffixSet string | AccountsLoaded | Listening ip_addr

definition initialize_codex_tui_fingerprint :: "start_env \<Rightarrow> string \<Rightarrow> start_effect list" where
  "initialize_codex_tui_fingerprint S version =
     OriginatorRequested ''codex-tui''
       # (if suffix_lock_ok S then [SuffixSet (''codex-tui; '' @ version)] else [])"

definition bind_two ::
  "start_env \<Rightarrow> ip_addr \<Rightarrow> ip_addr \<Rightarrow> start_effect list \<times> (string + unit)" where
  "bind_two S public admin =
     (case bind_listener S public of
        Inl e \<Rightarrow> ([], Inl e)
      | Inr _ \<Rightarrow>
          (case bind_listener S admin of
             Inl e \<Rightarrow> ([Listening public], Inl e)
           | Inr _ \<Rightarrow> ([Listening public, Listening admin], Inr ())))"

definition start_gateway ::
  "externals \<Rightarrow> faults \<Rightarrow> (path \<Rightarrow> nat) \<Rightarrow> start_env \<Rightarrow> path runtime_config \<Rightarrow> fs
     \<Rightarrow> fs \<times> start_effect list \<times> (string + app_state)" where
  "start_gateway E F stamp S config fs =
     (case (parse_addr S (listen config), parse_addr S (admin_listen config)) of
        (Inl e, _) \<Rightarrow> (fs, [], Inl e)
      | (Inr _, Inl e) \<Rightarrow> (fs, [], Inl e)
      | (Inr (public, public_text), Inr (admin, admin_text)) \<Rightarrow>
          (case ensure_loopback_listener (\<lambda>_. public_text) public of
             Inl e \<Rightarrow> (fs, [], Inl e)
           | Inr _ \<Rightarrow>
               (case ensure_loopback_listener (\<lambda>_. admin_text) admin of
                  Inl e \<Rightarrow> (fs, [], Inl e)
                | Inr _ \<Rightarrow>
                    (let fingerprint = initialize_codex_tui_fingerprint S (codex_version config)
                     in case build_clients S of
                          Inl e \<Rightarrow> (fs, fingerprint, Inl e)
                        | Inr _ \<Rightarrow>
                            (let st = new_app_state config
                             in case startup_sync_accounts_from_disk E F stamp (cfg_accounts_dir config)
                                       (ap_accounts st) (ap_accounts st) fs of
                                  (fs1, Inl e) \<Rightarrow> (fs1, fingerprint, Inl e)
                                | (fs1, Inr accounts) \<Rightarrow>
                                    (case bind_two S public admin of
                                       (effects, result) \<Rightarrow>
                                         (fs1, fingerprint @ AccountsLoaded # effects,
                                          map_sum (\<lambda>e. e) (\<lambda>_. st\<lparr>ap_accounts := accounts\<rparr>) result)))))))"

section \<open>The scanner\<close>

text \<open>
  The first tick of the interval is consumed before the loop; after that each tick rescans, until the
  shutdown token is cancelled. A rescan that fails is logged and leaves the store.
\<close>

datatype scan_event = ScanTick | ScanCancelled

fun accounts_scanner ::
  "(account_store \<Rightarrow> fs \<Rightarrow> account_store io) \<Rightarrow> scan_event list \<Rightarrow> account_store \<Rightarrow> fs
     \<Rightarrow> account_store \<times> fs" where
  "accounts_scanner rescan [] st fs = (st, fs)"
| "accounts_scanner rescan (ScanCancelled # events) st fs = (st, fs)"
| "accounts_scanner rescan (ScanTick # events) st fs =
     (case rescan st fs of
        (fs1, Inl e) \<Rightarrow> accounts_scanner rescan events st fs1
      | (fs1, Inr st1) \<Rightarrow> accounts_scanner rescan events st1 fs1)"

section \<open>The end\<close>

text \<open>The result of awaiting a task.\<close>

datatype 'r joined = Joined 'r | JoinCancelled | JoinFailed string

definition flatten_service_task :: "string \<Rightarrow> (string + unit) joined \<Rightarrow> string + unit" where
  "flatten_service_task name result =
     (case result of
        Joined inner \<Rightarrow> inner
      | JoinCancelled \<Rightarrow> Inr ()
      | JoinFailed e \<Rightarrow> Inl (name @ '' task join failed''))"

definition flatten_scanner_task :: "unit joined \<Rightarrow> string + unit" where
  "flatten_scanner_task result =
     (case result of
        Joined _ \<Rightarrow> Inr ()
      | JoinCancelled \<Rightarrow> Inr ()
      | JoinFailed e \<Rightarrow> Inl ''accounts scanner task join failed'')"

text \<open>
  The tasks are awaited one after the other within the grace period; \<open>None\<close> is a task that has not
  ended when the period is over, and what remains is then aborted.
\<close>

definition wait_for_graceful_shutdown ::
  "(string + unit) joined option \<Rightarrow> (string + unit) joined option \<Rightarrow> unit joined option
     \<Rightarrow> string + unit" where
  "wait_for_graceful_shutdown public admin scanner =
     (case public of
        None \<Rightarrow> Inr ()
      | Some p \<Rightarrow>
          (case flatten_service_task ''public'' p of
             Inl e \<Rightarrow> Inl e
           | Inr _ \<Rightarrow>
               (case admin of
                  None \<Rightarrow> Inr ()
                | Some a \<Rightarrow>
                    (case flatten_service_task ''admin'' a of
                       Inl e \<Rightarrow> Inl e
                     | Inr _ \<Rightarrow>
                         (case scanner of None \<Rightarrow> Inr () | Some r \<Rightarrow> flatten_scanner_task r)))))"

text \<open>What ends first decides.\<close>

datatype first_event =
  ShutdownSignal
| PublicEnded "(string + unit) joined"
| AdminEnded "(string + unit) joined"
| ScannerEnded "unit joined"

definition gateway_result ::
  "first_event \<Rightarrow> (string + unit) joined option \<Rightarrow> (string + unit) joined option \<Rightarrow> unit joined option
     \<Rightarrow> string + unit" where
  "gateway_result event public admin scanner =
     (case event of
        ShutdownSignal \<Rightarrow> wait_for_graceful_shutdown public admin scanner
      | PublicEnded r \<Rightarrow> flatten_service_task ''public'' r
      | AdminEnded r \<Rightarrow> flatten_service_task ''admin'' r
      | ScannerEnded r \<Rightarrow> flatten_scanner_task r)"

text \<open>The process: what the listeners and tasks do once it runs is \<open>life\<close>.\<close>

datatype main_end = UsageShown "string list" | Ended "string + unit"

type_synonym gateway_life =
  "first_event \<times> (string + unit) joined option \<times> (string + unit) joined option \<times> unit joined option"

definition gateway_main ::
  "externals \<Rightarrow> faults \<Rightarrow> (path \<Rightarrow> nat) \<Rightarrow> start_env \<Rightarrow> (string \<Rightarrow> path) \<Rightarrow> (path \<Rightarrow> string \<Rightarrow> path)
     \<Rightarrow> (path \<Rightarrow> string) \<Rightarrow> string list \<Rightarrow> home_env \<Rightarrow> gateway_life \<Rightarrow> fs
     \<Rightarrow> fs \<times> start_effect list \<times> main_end" where
  "gateway_main E F stamp S path_of join display argv env life fs =
     (case from_args path_of join argv env of
        Exited \<Rightarrow> (fs, [], UsageShown (usage_lines path_of join display env))
      | Rejected e \<Rightarrow> (fs, [], Ended (Inl e))
      | Parsed config \<Rightarrow>
          (case start_gateway E F stamp S config fs of
             (fs1, effects, Inl e) \<Rightarrow> (fs1, effects, Ended (Inl e))
           | (fs1, effects, Inr st) \<Rightarrow>
               (case life of
                  (event, public, admin, scanner) \<Rightarrow>
                    (fs1, effects, Ended (gateway_result event public admin scanner)))))"

section \<open>Facts\<close>

lemma bind_two_effects:
  assumes "bind_two S public admin = (effects, result)"
  shows "set effects \<subseteq> {Listening public, Listening admin}"
  using assms by (auto simp: bind_two_def split: sum.splits)

lemma no_listening_in_fingerprint [simp]: "Listening a \<notin> set (initialize_codex_tui_fingerprint S v)"
  by (simp add: initialize_codex_tui_fingerprint_def)

lemma start_gateway_cases:
  assumes "start_gateway E F stamp S config fs = (fs', effects, result)"
  obtains (refused) "effects = []" "isl result"
  | (local) public pt admin at v where
      "parse_addr S (listen config) = Inr (public, pt)" "parse_addr S (admin_listen config) = Inr (admin, at)"
      "is_loopback public" "is_loopback admin"
      "effects = initialize_codex_tui_fingerprint S v
        \<or> (\<exists>rest. effects = initialize_codex_tui_fingerprint S v @ AccountsLoaded # rest
             \<and> set rest \<subseteq> {Listening public, Listening admin})"
proof (cases "parse_addr S (listen config)")
  case (Inl e)
  with assms refused show ?thesis by (auto simp: start_gateway_def split: sum.splits)
next
  case l: (Inr p)
  obtain public pt where p: "p = (public, pt)" by fastforce
  show ?thesis
  proof (cases "parse_addr S (admin_listen config)")
    case (Inl e)
    with l assms have "effects = []" "isl result" by (auto simp: start_gateway_def p)
    then show ?thesis by (rule refused)
  next
    case a: (Inr q)
    obtain admin at where q: "q = (admin, at)" by fastforce
    show ?thesis
    proof (cases "is_loopback public \<and> is_loopback admin")
      case False
      with l a assms refused show ?thesis
        by (auto simp: start_gateway_def p q ensure_loopback_listener_def split: if_splits)
    next
      case True
      with assms have "effects = initialize_codex_tui_fingerprint S (codex_version config)
        \<or> (\<exists>rest. effects = initialize_codex_tui_fingerprint S (codex_version config) @ AccountsLoaded # rest
             \<and> set rest \<subseteq> {Listening public, Listening admin})"
        unfolding start_gateway_def l a p q Let_def
        by (auto simp: ensure_loopback_listener_def split: sum.splits prod.splits dest: bind_two_effects)
      with True l a p q local show ?thesis by blast
    qed
  qed
qed

lemma listening_after_load:
  assumes "fingerprint @ AccountsLoaded # rest = xs @ Listening a # ys" "Listening a \<notin> set fingerprint"
  shows "AccountsLoaded \<in> set xs"
  using assms
proof (induction fingerprint arbitrary: xs)
  case Nil
  then show ?case by (cases xs) auto
next
  case (Cons e es)
  then show ?case by (cases xs) auto
qed

lemma start_is_local:
  assumes "start_gateway E F stamp S config fs = (fs', effects, result)"
  shows "Listening a \<in> set effects \<Longrightarrow> is_loopback a"
    and "effects = xs @ Listening a # ys \<Longrightarrow> AccountsLoaded \<in> set xs"
    and "l \<in> {listen config, admin_listen config} \<Longrightarrow> parse_addr S l = Inr (b, t) \<Longrightarrow> \<not> is_loopback b
        \<Longrightarrow> effects = [] \<and> isl result"
proof -
  from assms show "Listening a \<in> set effects \<Longrightarrow> is_loopback a"
    by (cases rule: start_gateway_cases) auto
  from assms show "l \<in> {listen config, admin_listen config} \<Longrightarrow> parse_addr S l = Inr (b, t) \<Longrightarrow> \<not> is_loopback b
        \<Longrightarrow> effects = [] \<and> isl result"
    by (cases rule: start_gateway_cases) auto
  show "AccountsLoaded \<in> set xs" if e: "effects = xs @ Listening a # ys"
    using assms
  proof (cases rule: start_gateway_cases)
    case (local public pt admin at v)
    have "Listening a \<in> set effects" using e by simp
    with local(5) e show ?thesis using listening_after_load no_listening_in_fingerprint by metis
  qed (use e in simp)
qed

text \<open>
  C38: the gateway is local. Whatever its command line and its environment say, every address it ever
  binds, for callers or for administration, is a loopback address, and it binds nothing before the
  accounts of the directory have been loaded; when one of the two addresses of an accepted command
  line is not local, it binds neither, does nothing else, and ends with an error.
\<close>

theorem listeners_are_local:
  assumes "gateway_main E F stamp S path_of join display argv env life fs = (fs', effects, result)"
  shows "(\<forall>a. Listening a \<in> set effects \<longrightarrow> is_loopback a)
    \<and> (\<forall>xs a ys. effects = xs @ Listening a # ys \<longrightarrow> AccountsLoaded \<in> set xs)
    \<and> (\<forall>config a t l. from_args path_of join argv env = Parsed config
        \<longrightarrow> l \<in> {listen config, admin_listen config} \<longrightarrow> parse_addr S l = Inr (a, t) \<longrightarrow> \<not> is_loopback a
        \<longrightarrow> effects = [] \<and> (\<exists>e. result = Ended (Inl e)))"
proof (cases "from_args path_of join argv env")
  case (Parsed config)
  obtain fs1 eff r where start: "start_gateway E F stamp S config fs = (fs1, eff, r)"
    by (metis prod.collapse)
  with assms Parsed have eff: "effects = eff"
    by (auto simp: gateway_main_def split: sum.splits prod.splits)
  note local = start_is_local [OF start]
  show ?thesis
  proof (intro conjI allI impI)
    fix a assume "Listening a \<in> set effects" then show "is_loopback a" using local(1) eff by simp
  next
    fix xs a ys assume "effects = xs @ Listening a # ys"
    then show "AccountsLoaded \<in> set xs" using local(2) eff by simp
  next
    fix c a t l
    assume c: "from_args path_of join argv env = Parsed c" "l \<in> {listen c, admin_listen c}"
      "parse_addr S l = Inr (a, t)" "\<not> is_loopback a"
    then have "eff = []" "isl r" using local(3) [of l a t] Parsed by auto
    then show "effects = []" "\<exists>e. result = Ended (Inl e)"
      using assms Parsed start eff by (auto simp: gateway_main_def isl_def)
  qed
qed (use assms in \<open>auto simp: gateway_main_def\<close>)

text \<open>A start that is asked to listen on another machine's address.\<close>

definition remote_start :: start_env where
  "remote_start = \<lparr>parse_addr = (\<lambda>s. Inr (if s = DEFAULT_LISTEN then V4 127 0 0 1 else V4 10 0 0 1, s)),
      build_clients = Inr (), bind_listener = (\<lambda>_. Inr ()), suffix_lock_ok = True\<rparr>"

definition sample_home :: home_env where
  "sample_home = \<lparr>env_home = Some ''/h'', env_userprofile = None, env_homedrive = None, env_homepath = None\<rparr>"

theorem listeners_are_local_witness:
  "\<exists>e. gateway_main sample_externals no_faults (\<lambda>_. 0) remote_start (\<lambda>s. [s]) (\<lambda>p s. p @ [s]) concat
      [''codaze'', ''--admin-listen'', ''10.0.0.1:1''] sample_home
      (ShutdownSignal, None, None, None) (sample_fs ''t'' ''u'') = (sample_fs ''t'' ''u'', [], Ended (Inl e))"
proof -
  have args: "parse_args (\<lambda>s. [s]) init_args [''--admin-listen'', ''10.0.0.1:1'']
      = Parsed (init_args\<lparr>a_admin_listen := ''10.0.0.1:1''\<rparr>)" by (simp add: parse_args_flags)
  have version: "str_trim DEFAULT_CODEX_VERSION \<noteq> []" by code_simp
  obtain config where c: "from_args (\<lambda>s. [s]) (\<lambda>p s. p @ [s]) [''codaze'', ''--admin-listen'', ''10.0.0.1:1''] sample_home
      = Parsed config" "admin_listen config = ''10.0.0.1:1''" "listen config = DEFAULT_LISTEN"
    unfolding from_args_def from_args_with_home_env_def drop_Suc_Cons One_nat_def drop0 args args_result.case
    using version
    by (simp add: init_args_def DEFAULT_LISTEN_def sample_home_def current_home_platform_is_windows_def
        default_accounts_dir_with_env_def non_empty_os_string_def)
  obtain fs' effects result where run: "gateway_main sample_externals no_faults (\<lambda>_. 0) remote_start
      (\<lambda>s. [s]) (\<lambda>p s. p @ [s]) concat [''codaze'', ''--admin-listen'', ''10.0.0.1:1''] sample_home
      (ShutdownSignal, None, None, None) (sample_fs ''t'' ''u'') = (fs', effects, result)"
    by (metis prod.collapse)
  have p: "parse_addr remote_start (admin_listen config) = Inr (V4 10 0 0 1, ''10.0.0.1:1'')"
    "\<not> is_loopback (V4 10 0 0 1)" "parse_addr remote_start (listen config) = Inr (V4 127 0 0 1, DEFAULT_LISTEN)"
    by (simp_all add: remote_start_def c(2,3) DEFAULT_LISTEN_def)
  from listeners_are_local [OF run] c p obtain e where "effects = []" "result = Ended (Inl e)" by blast
  moreover have "fs' = sample_fs ''t'' ''u''"
    using run c p by (simp add: gateway_main_def start_gateway_def ensure_loopback_listener_def)
  ultimately show ?thesis using run by blast
qed

end
