(* ===== verification/Request_Steps.thy ===== *)
theory Request_Steps
  imports Api_Accounting Admin_Api Gateway_Main
begin

text \<open>
  Every handler is a run of the account store's machine (\<open>Account_Machine\<close>) interleaved with the
  other tasks. The locale \<open>machine_user\<close> states what the handlers rely on: an assertion about
  the world that other tasks and every step of the machine respect. Its interpretation \<open>tracks\<close> is the
  history of the store, from which it follows that no account disappears while a request holds it.
\<close>


section \<open>Interleavings\<close>

definition accounted :: "store_event list \<Rightarrow> store_event list" where
  "accounted evs = filter (\<lambda>e. e \<noteq> Internal) evs"

lemma accounted_simps [simp]:
  "accounted [] = []"
  "accounted (e # evs) = (if e = Internal then accounted evs else e # accounted evs)"
  "accounted (xs @ ys) = accounted xs @ accounted ys"
  by (simp_all add: accounted_def)

lemma accounting_accounted: "accounting s = accounted (ws_log s)"
  by (simp add: accounting_def accounted_def)

lemma shuffles_snoc_left: "zs \<in> shuffles xs ys \<Longrightarrow> zs @ [z] \<in> shuffles (xs @ [z]) ys"
proof (induction zs arbitrary: xs ys)
  case (Cons a zs)
  from Cons.prems Cons.IH have "xs \<noteq> [] \<and> hd xs = a \<and> zs @ [z] \<in> shuffles (tl xs @ [z]) ys
      \<or> ys \<noteq> [] \<and> hd ys = a \<and> zs @ [z] \<in> shuffles (xs @ [z]) (tl ys)"
    unfolding Cons_in_shuffles_iff by blast
  then show ?case
    unfolding append_Cons Cons_in_shuffles_iff by (auto simp del: shuffles.simps)
qed simp

lemma shuffles_snoc_right: "zs \<in> shuffles xs ys \<Longrightarrow> zs @ [z] \<in> shuffles xs (ys @ [z])"
  using shuffles_snoc_left [of zs ys xs z] by (simp add: shuffles_commutes)

lemma shuffles_append_left: "zs \<in> shuffles xs ys \<Longrightarrow> zs @ xs' \<in> shuffles (xs @ xs') ys"
proof (induction xs' rule: rev_induct)
  case (snoc x xs')
  then show ?case using shuffles_snoc_left [of "zs @ xs'" "xs @ xs'" ys x] by simp
qed simp

lemma shuffles_append_right: "zs \<in> shuffles xs ys \<Longrightarrow> zs @ ys' \<in> shuffles xs (ys @ ys')"
  using shuffles_append_left [of zs ys xs ys'] by (simp add: shuffles_commutes)

lemma store_run_append:
  "store_run E st1 ys st2 \<Longrightarrow> store_run E st xs st1 \<Longrightarrow> store_run E st (xs @ ys) st2"
proof (induction rule: store_run.induct)
  case (step evs st1' ev st2)
  then show ?case using store_run.step [of E st "xs @ evs" st1' ev st2] by simp
qed simp

lemma store_run_one: "store_step E st ev st' \<Longrightarrow> store_run E st [ev] st'"
  using store_run.step [OF store_run.start] by fastforce

section \<open>Users of the machine\<close>

text \<open>What a handler that returns establishes; a panic ends its task.\<close>

definition upholds :: "('s \<Rightarrow> bool) \<Rightarrow> ('s, 'a) outcome \<Rightarrow> bool" where
  "upholds P res \<longleftrightarrow> (case res of Returned s _ \<Rightarrow> P s | Panicked _ \<Rightarrow> True)"

lemma upholds_simps [simp]: "upholds P (Returned s a) = P s" "upholds P (Panicked s)"
  by (simp_all add: upholds_def)

lemma upholds_and_then:
  "upholds P x \<Longrightarrow> (\<And>s a. P s \<Longrightarrow> upholds Q (f s a)) \<Longrightarrow> upholds Q (and_then x f)"
  by (cases x) simp_all

lemma upholds_result: "upholds P x \<Longrightarrow> upholds P (and_then x (\<lambda>s a. Returned s (f a)))"
  by (rule upholds_and_then) simp_all

lemma upholds_Returned: "upholds P x \<Longrightarrow> x = Returned s a \<Longrightarrow> P s"
  by simp

text \<open>
  The contract between the store and the code that runs on it: \<open>P\<close> is an assertion about the world
  that other tasks respect between two locks, every run of the machine under a lock respects it, and so
  does a disk operation. What follows is that every handler respects it.
\<close>

locale machine_user =
  fixes E :: externals and allowed :: "'fs world \<Rightarrow> bool" and P :: "'fs world_state \<Rightarrow> bool"
  assumes interfere_keeps: "allowed W \<Longrightarrow> P s \<Longrightarrow> P (interfere W i j s)"
    and put_run: "P s \<Longrightarrow> store_run E (ws_store s) evs st \<Longrightarrow> accounted evs = accounted [ev]
      \<Longrightarrow> P (put_store ev st s)"
    and run_op_keeps: "allowed W \<Longrightarrow> P s \<Longrightarrow> P (fst (run_account_disk_op W op s))"
begin

lemma put_keeps: "P s \<Longrightarrow> store_step E (ws_store s) ev st \<Longrightarrow> P (put_store ev st s)"
  by (rule put_run [OF _ store_run_one]) auto

lemma put_outcome_keeps:
  "P s \<Longrightarrow> store_step E (ws_store s) ev (outcome_state x) \<Longrightarrow> upholds P (put_outcome ev x s)"
  by (cases x) (auto intro: put_keeps)

lemma run_op_case: "allowed W \<Longrightarrow> P s \<Longrightarrow> run_account_disk_op W op s = (s', r) \<Longrightarrow> P s'"
  using run_op_keeps [of W s op] by simp

lemma release_keeps: "allowed W \<Longrightarrow> P s \<Longrightarrow> P (release_at W i j k s)"
  unfolding release_at_def Let_def by (intro put_keeps interfere_keeps store_step.release)

lemma invalidate_and_release_keeps: "allowed W \<Longrightarrow> P s \<Longrightarrow> P (invalidate_and_release_at W i j k s)"
  unfolding invalidate_and_release_at_def Let_def
  by (intro put_keeps interfere_keeps store_step.release store_step.invalidate)

lemma fail_keeps: "P s \<Longrightarrow> upholds P (fail_at E W i j k f ra d s)"
  unfolding fail_at_def by (intro put_outcome_keeps store_step.failure)

lemma settle_keeps:
  assumes "allowed W" "P s"
  shows "upholds P (settle_at E W k x s)"
proof -
  have "store_step E st (Settled k) (outcome_state (apply_account_settlement E now k x st))" for st now
    by (cases x) (simp_all add: store_step.intros)
  then show ?thesis unfolding settle_at_def Let_def by (intro put_outcome_keeps interfere_keeps assms)
qed

lemma settle_all_keeps: "allowed W \<Longrightarrow> P s \<Longrightarrow> upholds P (settle_all E W k xs s)"
  by (induction xs arbitrary: s) (auto intro: upholds_and_then settle_keeps)

lemma select_keeps:
  assumes "allowed W" "P s"
  shows "upholds P (fo_select E C W i fo s)"
proof -
  let ?s = "interfere W i 0 s"
  have p: "P ?s" by (rule interfere_keeps [OF assms])
  show ?thesis
  proof (cases "select_account E (w_select_clock W i) (fc_policy C) (fc_refresh_skew C) (fo_tried fo)
      (ws_store ?s)")
    case (Returned st v)
    show ?thesis
    proof (cases v)
      case (Inr sel)
      from put_keeps [OF p store_step.select_ok [OF Returned [unfolded Inr]]] show ?thesis
        by (simp add: fo_select_def Returned Inr Let_def)
    next
      case (Inl e)
      note none = store_run_one [OF store_step.select_none [OF Returned [unfolded Inl]]]
      let ?x = "resolve_selection_failure E (w_time W i 0) (w_time W i 7) e (fo_tried fo)
          (fo_pool_summary fo) (fo_retryable fo) st"
      have "store_run E st [] (outcome_state ?x) \<or> store_run E st [Internal] (outcome_state ?x)"
        by (cases e) (auto simp: resolve_selection_failure_def store_run.start
            intro: store_run_one store_step.summarize)
      then obtain evs where "store_run E (ws_store ?s) evs (outcome_state ?x)" "accounted evs = accounted [Internal]"
        using store_run_append [OF _ none] by fastforce
      from put_run [OF p this] show ?thesis
        by (cases ?x) (simp_all add: fo_select_def Returned Inl Let_def)
    qed
  qed (simp add: fo_select_def Let_def)
qed

lemma refresh_success_keeps:
  assumes "allowed W" "P s"
  shows "P (fst (app_finish_refresh_success W i k refreshed s))"
proof -
  let ?s = "interfere W i 1 s"
  obtain st res where f: "finish_refresh_success_without_persist (w_time W i 1) k refreshed (ws_store ?s) = (st, res)"
    by fastforce
  have "P (put_store Internal st ?s)"
    using put_keeps [OF interfere_keeps [OF assms] store_step.refreshed [where now = "w_time W i 1" and aid = k and refreshed = refreshed], of i 1] f by simp
  with assms(1) show ?thesis
    by (auto simp: app_finish_refresh_success_def f case_prod_unfold Let_def split: sum.split option.split
      simp del: One_nat_def intro: run_op_keeps run_op_case)
qed

lemma prepare_none:
  "prepare_auth_invalid_failure now k d st = (st', Inl e) \<Longrightarrow> st' = st"
  by (simp add: prepare_auth_invalid_failure_def Let_def split: option.splits)

lemma refresh_failure_keeps:
  assumes "allowed W" "P s"
  shows "upholds P (app_finish_refresh_failure E W i k f ra d s)"
proof (cases "f = AuthInvalid")
  case False
  have "upholds P (put_outcome (Settled k) (mark_request_failure E (w_time W i 1) k f ra d
      (ws_store (interfere W i 1 s))) (interfere W i 1 s))"
    by (intro put_outcome_keeps interfere_keeps store_step.failure assms)
  with False show ?thesis
    by (simp add: app_finish_refresh_failure_def Let_def upholds_result)
next
  case True
  let ?s = "interfere W i 1 s"
  have p: "P ?s" by (rule interfere_keeps [OF assms])
  obtain st r where prep: "prepare_auth_invalid_failure (w_time W i 1) k d (ws_store ?s) = (st, r)"
    by fastforce
  show ?thesis
  proof (cases r)
    case (Inl e)
    with p prep prepare_none [OF prep [unfolded Inl]] show ?thesis
      by (simp add: app_finish_refresh_failure_def Let_def True del: One_nat_def)
  next
    case (Inr plan)
    have p1: "P (put_store (Settled k) st ?s)"
      using put_keeps [OF p store_step.prepare_invalid [where now = "w_time W i 1" and aid = k and details = d]] prep by simp
    obtain s2 r2 where run: "(case aip_trash_op plan of
          Some op \<Rightarrow> run_account_disk_op W op (put_store (Settled k) st ?s)
        | None \<Rightarrow> (put_store (Settled k) st ?s, Inr ())) = (s2, r2)" by fastforce
    then have "P s2" using p1 by (auto split: option.splits intro: run_op_case [OF assms(1)])
    then have p3: "P (interfere W i 2 s2)" by (rule interfere_keeps [OF assms(1)])
    show ?thesis
      unfolding True refresh_invalid_eq [OF prep [unfolded Inr] run, of E ra]
      using put_keeps [OF p3 store_step.note_trash] put_keeps [OF p3 store_step.finalize_invalid]
      by (cases r2) (auto simp: Let_def case_prod_unfold)
  qed
qed


lemma refresh_keeps:
  assumes "allowed W" "P s"
  shows "upholds P (fo_refresh E W U i sel fo s)"
proof (cases "up_refresh U i (sel_refresh_token sel)")
  case (Inr refreshed)
  obtain s1 res where f: "app_finish_refresh_success W i (sel_account_id sel) refreshed s = (s1, res)" by fastforce
  then have "P s1" using refresh_success_keeps [OF assms, of i "sel_account_id sel" refreshed] by simp
  with assms Inr f show ?thesis by (cases res) (simp_all add: fo_refresh_def release_keeps)
next
  case (Inl err)
  have "upholds P (apply_refresh_failure E W i (sel_account_id sel) err s)"
    unfolding apply_refresh_failure_def by (intro upholds_result refresh_failure_keeps assms)
  with assms Inl show ?thesis by (simp add: fo_refresh_def upholds_result)
qed

lemma failed_keeps:
  assumes "allowed W" "P s"
  shows "upholds P (fo_failed E W i k error fo s)"
proof -
  have p: "P (interfere W i 6 s)" by (rule interfere_keeps [OF assms])
  have q: "P (put_store Internal (invalidate_access_token (w_time W i 6) k (ws_store (interfere W i 6 s)))
      (interfere W i 6 s))" by (rule put_keeps [OF p store_step.invalidate])
  show ?thesis
    unfolding fo_failed_def Let_def
    using p q assms by (auto intro!: upholds_result fail_keeps invalidate_and_release_keeps)
qed

lemma execute_keeps:
  assumes "allowed W" "P s"
  shows "upholds P (fo_execute E C W U i k fo s)"
proof -
  let ?s = "interfere W i 4 s"
  have p: "P ?s" by (rule interfere_keeps [OF assms])
  show ?thesis
  proof (cases "upstream_account_of (ws_store ?s) k")
    case (Inl e)
    with assms(1) p show ?thesis
      by (cases e) (simp_all add: fo_execute_def Let_def release_keeps invalidate_and_release_keeps)
  next
    case (Inr account)
    have "P (put_store (Settled k) (mark_request_success (w_time W i 5) k (ws_store (interfere W i 5 ?s)))
        (interfere W i 5 ?s))"
      by (intro put_keeps store_step.success interfere_keeps assms(1) p)
    with Inr p failed_keeps [OF assms(1) p] show ?thesis
      by (cases "up_execute U i account") (simp_all add: fo_execute_def Let_def)
  qed
qed

lemma round_keeps:
  assumes "allowed W" "P s"
  shows "upholds P (failover_round E C W U i fo s)"
  unfolding failover_round_def
proof (rule upholds_and_then [OF select_keeps [OF assms]])
  fix s1 r assume p1: "P s1"
  have ref: "upholds P (and_then (fo_refresh E W U i sel fo s1) (\<lambda>s2 v. case v of
         Some verdict \<Rightarrow> Returned s2 verdict
       | None \<Rightarrow> fo_execute E C W U i (sel_account_id sel) fo s2))" for sel
    by (rule upholds_and_then [OF refresh_keeps [OF assms(1) p1]])
      (simp add: execute_keeps [OF assms(1)] split: option.split)
  with p1 show "upholds P (case r of
         Inl f \<Rightarrow> Returned s1 (Done fo (Inl f))
       | Inr sel \<Rightarrow> and_then (fo_refresh E W U i sel fo s1) (\<lambda>s2 v. case v of
           Some verdict \<Rightarrow> Returned s2 verdict
         | None \<Rightarrow> fo_execute E C W U i (sel_account_id sel) fo s2))"
    by (simp split: sum.split)
qed

lemma loop_keeps:
  assumes "allowed W" "P s" "execute_with_failover_from fuel E C W U tried s = Some res"
  shows "upholds P res"
proof (rule run_loop_induct [OF assms(3) [unfolded execute_with_failover_from_def],
      where P = "\<lambda>x. P (snd x)"])
  fix j x x' assume p: "P (snd x)" and step: "failover_step E C W U j x = Inl x'"
  obtain fo s where x: "x = (fo, s)" by fastforce
  with p round_keeps [OF assms(1), of s C U j fo] step show "P (snd x')"
    by (auto simp: failover_step_def split: outcome.splits fo_verdict.splits)
next
  fix j x r assume p: "P (snd x)" and step: "failover_step E C W U j x = Inr r"
  obtain fo s where x: "x = (fo, s)" by fastforce
  with p round_keeps [OF assms(1), of s C U j fo] step show "upholds P r"
    by (auto simp: failover_step_def split: outcome.splits fo_verdict.splits)
qed (simp add: assms(2))

lemma unary_step_keeps:
  assumes "allowed (W i)" "P s"
  shows "case unary_step fuel E C W U decode i (us, s) of
      Inl (us', s') \<Rightarrow> P s' | Inr None \<Rightarrow> True | Inr (Some res) \<Rightarrow> upholds P res"
proof (cases "execute_with_failover_from fuel E (C\<lparr>fc_disposition := HoldUntilCaller\<rparr>) (W i) (U i) (us_tried us) s")
  case (Some res)
  note kept = loop_keeps [OF assms Some]
  show ?thesis
  proof (cases res)
    case (Returned s1 v)
    obtain tried r where v: "v = (tried, r)" by fastforce
    from kept have p: "P s1" by (simp add: Returned)
    show ?thesis
    proof (cases r)
      case (Inr x)
      note st = settle_keeps [OF assms(1) p, of "re_account_id x"]
      show ?thesis
      proof (cases "decode (re_value x)")
        case (Inl details)
        with Some Returned v Inr st [of "SettleFailure TemporaryFailure None details"] show ?thesis
          by (cases "settle_at E (W i) (re_account_id x) (SettleFailure TemporaryFailure None details) s1")
            (simp_all add: unary_step_def)
      qed (use Some Returned v Inr st in \<open>simp add: unary_step_def upholds_result\<close>)
    qed (use Some Returned v p in \<open>simp add: unary_step_def\<close>)
  qed (use Some in \<open>simp add: unary_step_def\<close>)
qed (simp add: unary_step_def)

lemma decoding_keeps:
  assumes "\<And>i. allowed (W i)" "P s" "decoding_loop outer fuel E C W U decode s = Some res"
  shows "upholds P res"
proof -
  from assms(3) obtain w where run: "run_loop outer (unary_step fuel E C W U decode) 0
      (\<lparr>us_tried = {}, us_decode_failed = {}, us_last_decode_failure = None\<rparr>, s) = Some w" "w = Some res"
    by (auto simp: decoding_loop_def bind_eq_Some_conv)
  have "case w of None \<Rightarrow> True | Some res \<Rightarrow> upholds P res"
  proof (rule run_loop_induct [OF run(1), where P = "\<lambda>x. P (snd x)"])
    fix j x x' assume p: "P (snd x)" and step: "unary_step fuel E C W U decode j x = Inl x'"
    with unary_step_keeps [where W = W and i = j, OF assms(1), of "snd x" fuel C U decode "fst x"]
    show "P (snd x')" by (auto split: prod.splits)
  next
    fix j x r assume p: "P (snd x)" and step: "unary_step fuel E C W U decode j x = Inr r"
    with unary_step_keeps [where W = W and i = j, OF assms(1), of "snd x" fuel C U decode "fst x"]
    show "case r of None \<Rightarrow> True | Some res \<Rightarrow> upholds P res" by (auto split: option.splits)
  qed (simp add: assms(2))
  with run(2) show ?thesis by simp
qed

end


section \<open>Handlers\<close>

text \<open>A turn of the websocket proxy that does not panic establishes \<open>P\<close>.\<close>

definition turn_upholds :: "('fs world_state \<Rightarrow> bool) \<Rightarrow> 'fs proxy_turn \<Rightarrow> bool" where
  "turn_upholds P t \<longleftrightarrow> (snd t \<noteq> Crashed \<longrightarrow> P (snd (fst t)))"

lemma calm_upholds: "calm ps s t \<Longrightarrow> P s \<Longrightarrow> turn_upholds P t"
  by (auto simp: calm_def turn_upholds_def)

lemma turn_upholds_simps [simp]:
  "turn_upholds P ((ps, s), v) \<longleftrightarrow> (v \<noteq> Crashed \<longrightarrow> P s)"
  "turn_upholds P (finish out ps s) \<longleftrightarrow> P s"
  by (auto simp: turn_upholds_def finish_def)

definition session_of :: "externals \<Rightarrow> ('fs world \<Rightarrow> bool) \<Rightarrow> 'fs proxy_env \<Rightarrow> bool" where
  "session_of E allowed env \<longleftrightarrow> pe_externals env = E \<and> (\<forall>i j. allowed (pe_world env i j))"

definition gateway_of :: "externals \<Rightarrow> ('fs world \<Rightarrow> bool) \<Rightarrow> ('fs, 'b) api_env \<Rightarrow> bool" where
  "gateway_of E allowed env \<longleftrightarrow> ae_externals env = E \<and> (\<forall>j. allowed (ae_world env j))"

definition scene_of :: "('fs world \<Rightarrow> bool) \<Rightarrow> 'fs websocket_scene \<Rightarrow> bool" where
  "scene_of allowed z \<longleftrightarrow> allowed (wz_last_world z) \<and> (\<forall>i j. allowed (wz_world z i j))"

context machine_user
begin

lemma unary_answer_keeps:
  assumes "gateway_of E allowed env" "P s" "unary_answer env ctx call shape s = Some res"
  shows "upholds P res"
proof -
  from assms(3) obtain res0 where run: "execute_unary_json_with_failover_shaped (ae_rounds env)
        (ae_inner_rounds env) (ae_externals env) (ae_config env) (ae_world env)
        (\<lambda>j. upstream_for env (ae_token_endpoint env j) (\<lambda>i. call (ae_network env j i))) shape s = Some res0"
    and res: "res = and_then res0 (\<lambda>s1 r. Returned s1
        (case r of Inr response \<Rightarrow> response | Inl f \<Rightarrow> render_failure env ctx f))"
    by (auto simp: unary_answer_def)
  have "upholds P res0"
    using decoding_keeps [OF _ assms(2)] run assms(1)
    unfolding execute_unary_json_with_failover_shaped_def gateway_of_def by fastforce
  then show ?thesis unfolding res by (rule upholds_result)
qed

lemma responses_keeps:
  assumes "gateway_of E allowed env" "P s" "post_responses env snapshot headers body s = Some res"
  shows "upholds P res"
proof (cases "prepare_responses_request env snapshot headers body")
  case (Inl e)
  with assms(2,3) show ?thesis by (auto simp: post_responses_def)
next
  case (Inr p)
  note eq = assms(3) [unfolded post_responses_def Inr sum.case Let_def]
  show ?thesis
  proof (cases "should_stream_responses_request (pj_body p)")
    case True
    from assms(1) have w: "allowed (ae_world env 0)" "ae_externals env = E" by (auto simp: gateway_of_def)
    from eq [unfolded if_P [OF True]] obtain res0 where
      run: "execute_with_failover (ae_inner_rounds env) (ae_externals env)
        ((ae_config env)\<lparr>fc_disposition := HoldUntilCaller\<rparr>) (ae_world env 0)
        (upstream_for env (ae_token_endpoint env 0) (\<lambda>i account. fst (stream_json (ae_externals env)
          (ae_client_externals env) (ae_network env 0 i) (ae_client env) ''responses'' account
          (pj_headers p) (pj_body p)))) s = Some res0"
      and res: "res = and_then res0 (\<lambda>s1 r. Returned s1 (stream_reply env (pj_failure_context p) (pj_body p) (snd r)))"
      by blast
    show ?thesis
      unfolding res using loop_keeps [OF w(1) assms(2) run [unfolded execute_with_failover_def w(2)]]
      by (rule upholds_result)
  next
    case False
    from eq [unfolded if_not_P [OF False]] obtain res0 where
      "unary_answer env (pj_failure_context p)
         (\<lambda>net account. fst (post_responses_json (ae_externals env) (ae_client_externals env) net
            (ae_client env) account (pj_headers p) (pj_body p)))
         (\<lambda>status response_headers v. json_response status
            (shape_unary_responses_success_headers (fx_response_shape (pj_failure_context p)) response_headers) v) s
        = Some res0" "res = and_then res0 (\<lambda>s1 r. Returned s1 (Answer r))" by blast
    with unary_answer_keeps [OF assms(1,2)] show ?thesis by (blast intro: upholds_result)
  qed
qed

lemma compact_keeps:
  assumes "gateway_of E allowed env" "P s" "post_responses_compact env snapshot headers body s = Some res"
  shows "upholds P res"
  using assms(2,3) unary_answer_keeps [OF assms(1,2)]
  by (cases "prepare_compact_request env snapshot headers body") (auto simp: post_responses_compact_def)

lemma memories_keeps:
  assumes "gateway_of E allowed env" "P s" "post_memories_trace_summarize env headers body s = Some res"
  shows "upholds P res"
  using assms(2,3) unary_answer_keeps [OF assms(1,2)]
  by (cases "apply_body_gateway_overrides (ae_codec env) headers body")
    (auto simp: post_memories_trace_summarize_def)

lemma fetch_keeps:
  assumes "gateway_of E allowed env" "P s" "fetch_models_snapshot env headers md s = Some (md', res)"
  shows "upholds P res"
  using assms(1,3) decoding_keeps [OF _ assms(2)]
  unfolding fetch_models_snapshot_def gateway_of_def by fastforce

lemma refresh_task_keeps:
  assumes "gateway_of E allowed env" "P s" "models_refresh_task env headers md s = Some (md', s1)"
    "md_refresh_in_flight md" "\<not> md_refresh_in_flight md'"
  shows "P s1"
proof -
  from assms(3) obtain md1 res where f: "fetch_models_snapshot env headers md s = Some (md1, res)"
    by (auto simp: models_refresh_task_def)
  then have "md_refresh_in_flight md1 = md_refresh_in_flight md"
    by (auto simp: fetch_models_snapshot_def split: outcome.splits sum.splits)
  with assms(3-5) f fetch_keeps [OF assms(1,2) f] show ?thesis
    by (cases res) (auto simp: models_refresh_task_def)
qed

lemma fetched_keeps:
  assumes "gateway_of E allowed env" "P s" "fetched_models_answer env ctx headers k md s = Some (md', res)"
  shows "upholds P res"
proof -
  from assms(3) obtain res0 where "fetch_models_snapshot env headers md s = Some (md', res0)"
    "res = and_then res0 (\<lambda>s1 r. Returned s1
        (case r of Inr fetched \<Rightarrow> k fetched | Inl f \<Rightarrow> render_failure env ctx f))"
    by (auto simp: fetched_models_answer_def)
  with fetch_keeps [OF assms(1,2)] show ?thesis by (blast intro: upholds_result)
qed

lemma models_keeps:
  assumes "gateway_of E allowed env" "P s" "handle_get_models env headers md s = Some (md', res)"
  shows "upholds P res"
  using assms(2,3) fetched_keeps [OF assms(1,2)]
  by (auto simp: handle_get_models_def Let_def split: response_shape.splits prod.splits option.splits)

lemma deliver_keeps: "allowed W \<Longrightarrow> P s \<Longrightarrow> upholds P (deliver_reply E W polls reply s)"
  by (cases reply) (simp_all add: deliver_reply_def settle_all_keeps)

end


context machine_user
begin

lemma retry_step_keeps:
  assumes "session_of E allowed env" "P s"
  shows "case retry_step env i headers ms j (tried, s) of
      Inl (tried', s') \<Rightarrow> P s' | Inr None \<Rightarrow> True | Inr (Some res) \<Rightarrow> upholds P res"
proof -
  from assms(1) have w: "allowed (pe_world env i (Suc j))" "pe_externals env = E"
    by (auto simp: session_of_def)
  show ?thesis
  proof (cases "execute_with_failover_from (pe_inner_rounds env) E ((pe_config env)\<lparr>fc_disposition := HoldUntilCaller\<rparr>)
      (pe_world env i (Suc j)) (pe_upstream env i j headers) tried s")
    case (Some res)
    note kept = loop_keeps [OF w(1) assms(2) Some]
    show ?thesis
    proof (cases res)
      case (Returned s1 v)
      obtain tried1 r where v: "v = (tried1, r)" by fastforce
      from kept have p: "P s1" by (simp add: Returned)
      show ?thesis
      proof (cases r)
        case (Inr x)
        note st = settle_keeps [OF w(1) p, of "re_account_id x"]
        obtain sent e where rep: "replay_buffered_request_messages E (pe_mode env)
            (response_shape_for_headers headers = Codex) (pe_snapshot env i j) (re_value x) ms = (sent, e)"
          by fastforce
        show ?thesis
        proof (cases e)
          case (Some m)
          with st [of "SettleFailure TemporaryFailure None (stream_failed m)"]
            \<open>execute_with_failover_from _ _ _ _ _ _ _ = _\<close> Returned v Inr rep show ?thesis
            by (cases "settle_at E (pe_world env i (Suc j)) (re_account_id x)
                (SettleFailure TemporaryFailure None (stream_failed m)) s1") (simp_all add: retry_step_def w(2))
        qed (use \<open>execute_with_failover_from _ _ _ _ _ _ _ = _\<close> Returned v Inr rep p in
            \<open>simp add: retry_step_def w(2)\<close>)
      qed (use Some Returned v p in \<open>simp add: retry_step_def w(2)\<close>)
    qed (use Some in \<open>simp add: retry_step_def w(2)\<close>)
  qed (simp add: retry_step_def w(2))
qed

lemma retry_loop_keeps:
  assumes "session_of E allowed env" "P s"
    "run_loop n (retry_step env i headers ms) 0 (tried, s) = Some (Some res)"
  shows "upholds P res"
proof -
  have "case Some res of None \<Rightarrow> True | Some res \<Rightarrow> upholds P res"
  proof (rule run_loop_induct [OF assms(3), where P = "\<lambda>x. P (snd x)"])
    fix j x x' assume p: "P (snd x)" and step: "retry_step env i headers ms j x = Inl x'"
    with retry_step_keeps [OF assms(1), of "snd x" i headers ms j "fst x"]
    show "P (snd x')" by (auto split: prod.splits)
  next
    fix j x r assume p: "P (snd x)" and step: "retry_step env i headers ms j x = Inr r"
    with retry_step_keeps [OF assms(1), of "snd x" i headers ms j "fst x"]
    show "case r of None \<Rightarrow> True | Some res \<Rightarrow> upholds P res" by (auto split: option.splits)
  qed (simp add: assms(2))
  then show ?thesis by simp
qed

lemma retry_pending_keeps:
  assumes "session_of E allowed env" "P s"
    "retry_pending_websocket_request env i ps s = Some (ps1, res)"
  shows "upholds P res"
proof (cases "px_pending ps")
  case (Some p)
  have "\<exists>res0. run_loop (pe_rounds env) (retry_step env i (px_headers ps) (pw_request_messages p)) 0
        (insert (px_account_id ps) (pw_tried_accounts p), s) = Some (Some res0)
      \<and> (\<forall>s1 r. res = Returned s1 r \<longrightarrow> (\<exists>tried. res0 = Returned s1 (tried, r)))"
    using assms(3)
    by (auto simp: retry_pending_websocket_request_def Some bind_eq_Some_conv
        split: option.splits outcome.splits prod.splits)
  with retry_loop_keeps [OF assms(1,2)] show ?thesis by (cases res) fastforce+
qed (use assms(2,3) in \<open>auto simp: retry_pending_websocket_request_def\<close>)

lemma switch_keeps:
  assumes "session_of E allowed env" "P s"
    "apply_websocket_retry_switch env i failure replacement sent ps s = (ps1, res)"
  shows "upholds P res"
proof -
  from assms(1) have w: "allowed (pe_world env i 0)" "pe_externals env = E"
    by (auto simp: session_of_def)
  show ?thesis
    using assms(2,3) settle_keeps [OF w(1) assms(2)]
    by (cases failure) (auto simp: apply_websocket_retry_switch_def Let_def w(2))
qed

lemma retry_or_finish_keeps:
  assumes "session_of E allowed env" "P s"
  shows "turn_upholds P (retry_or_finish env i failure ps s)"
proof (cases "retry_pending_websocket_request env i ps s")
  case (Some x)
  obtain ps1 res where x: "x = (ps1, res)" by fastforce
  note kept = retry_pending_keeps [OF assms Some [unfolded x]]
  show ?thesis
  proof (cases res)
    case (Returned s1 r)
    with kept have p: "P s1" by simp
    show ?thesis
    proof (cases r)
      case (Switched rep sent)
      obtain ps2 res2 where sw: "apply_websocket_retry_switch env i failure rep sent ps1 s1 = (ps2, res2)"
        by fastforce
      with switch_keeps [OF assms(1) p sw] Some x Returned Switched show ?thesis
        by (cases res2) (simp_all add: retry_or_finish_def)
    next
      case (NoReplacement m)
      with p Some x Returned show ?thesis
        by (auto simp: retry_or_finish_def split: prod.splits option.splits)
    qed
  qed (use Some x in \<open>simp add: retry_or_finish_def\<close>)
qed (simp add: retry_or_finish_def assms(2))

lemma broken_keeps:
  "session_of E allowed env \<Longrightarrow> P s \<Longrightarrow> turn_upholds P (upstream_broken env i e ps s)"
  by (simp add: upstream_broken_def Let_def retry_or_finish_keeps)

lemma client_keeps:
  assumes "session_of E allowed env" "P s"
  shows "turn_upholds P (on_client_message env i m ps s)"
  using assms(2) broken_keeps [OF assms]
  by (auto simp: on_client_message_def Let_def split: option.splits)

lemma upstream_keeps:
  assumes "session_of E allowed env" "P s"
  shows "turn_upholds P (on_upstream_message env i raw ps s)"
proof (cases "normalize_websocket_rate_limit_message (pe_externals env) (px_codex_originator ps) raw")
  case None
  with assms(2) show ?thesis by (simp add: on_upstream_message_def Let_def)
next
  case (Some limited)
  have c: "turn_upholds P t" if "calm ps s t" for t
    by (rule calm_upholds [where P = P, OF that assms(2)])
  show ?thesis
    unfolding on_upstream_message_def Some option.case Let_def
    by (auto intro!: retry_or_finish_keeps [OF assms] c [OF calm_uncommitted]
        c [OF calm_established] c [OF calm_delivered]
        calm_delivered calm_finish split: option.splits bool.splits websocket_proxy_outcome.splits)
qed

lemma turn_keeps:
  assumes "session_of E allowed env" "P s"
  shows "turn_upholds P (proxy_turn env i event ps s)"
  unfolding proxy_turn_def
  by (cases event) (auto simp: assms(2) intro!: client_keeps upstream_keeps broken_keeps assms)

lemma proxy_keeps:
  assumes "session_of E allowed env" "P s"
  shows "turn_upholds P (proxy_loop env i events ps s)"
  using assms(2)
proof (induction events arbitrary: i ps s)
  case (Cons event events)
  obtain ps1 s1 v where t: "proxy_turn env i event ps s = ((ps1, s1), v)" by (metis prod.collapse)
  with turn_keeps [OF assms(1) Cons.prems, of i event ps] have "v \<noteq> Crashed \<longrightarrow> P s1" by simp
  with Cons.IH [of s1 "Suc i" ps1] t show ?case by (cases v) simp_all
qed simp

lemma websocket_keeps:
  assumes "gateway_of E allowed env" "scene_of allowed z" "P s"
    "get_responses_websocket env z headers s = Some res"
  shows "upholds P res"
proof -
  from assms(1,2) have w: "allowed (ae_world env 0)" "ae_externals env = E" "allowed (wz_last_world z)"
    and sess: "session_of E allowed (session_env env z)"
    by (auto simp: gateway_of_def scene_of_def session_of_def session_env_def)
  let ?run = "execute_with_failover_from (ae_inner_rounds env) E
      ((ae_config env)\<lparr>fc_disposition := HoldUntilCaller\<rparr>) (ae_world env 0)
      (websocket_upstream env z 0 0 headers) {} s"
  from assms(4) obtain res0 where run: "?run = Some res0"
    by (cases ?run) (auto simp: get_responses_websocket_def Let_def w(2))
  note kept = loop_keeps [OF w(1) assms(3) run]
  show ?thesis
  proof (cases res0)
    case (Returned s1 v)
    obtain tried r where v: "v = (tried, r)" by fastforce
    from kept have p: "P s1" by (simp add: Returned)
    show ?thesis
    proof (cases r)
      case (Inr routed)
      define turn where "turn = (if fx_response_shape (failure_context_for headers UnaryJson) = Codex
        then apply_turn_state_header (wc_turn_state (re_value routed)) else (\<lambda>h. h))"
      obtain ps s2 v' where t: "proxy_websocket (session_env env z) (wz_events z) (turn headers) routed
          (fx_response_shape (failure_context_for headers UnaryJson) = Codex) s1 = ((ps, s2), v')"
        by (metis prod.collapse)
      have p2: "v' \<noteq> Crashed \<longrightarrow> P s2"
        using proxy_keeps [OF sess p] t by (metis proxy_websocket_def turn_upholds_simps(1))
      note eq = assms(4) [unfolded get_responses_websocket_def Let_def w(2) run Returned v Inr option.case
          outcome.case prod.case sum.case turn_def [symmetric] t]
      show ?thesis
      proof (cases "wz_upgraded z")
        case False
        with eq have "res = and_then (settle_at E (wz_last_world z) (re_account_id routed) SettleRelease s1)
            (\<lambda>s2 _. Returned s2 (NotUpgraded (turn (wz_response_headers z))))" by simp
        with settle_keeps [OF w(3) p] show ?thesis by (auto intro: upholds_result)
      next
        case True
        with eq p2 show ?thesis
          by (cases v') (auto intro!: upholds_result settle_keeps [OF w(3)])
      qed
    qed (use assms(4) run Returned v p w(2) in \<open>auto simp: get_responses_websocket_def Let_def\<close>)
  qed (use assms(4) run w(2) in \<open>auto simp: get_responses_websocket_def Let_def\<close>)
qed

end


context machine_user
begin

lemma import_keeps:
  assumes "allowed W" "P s"
  shows "P (fst (app_import_account E W i token label email s))"
proof -
  let ?s = "interfere W i 0 s"
  have p: "P ?s" by (rule interfere_keeps [OF assms])
  show ?thesis
  proof (cases "prepare_import_account E (ws_store ?s) token label email")
    case (Inl e)
    with p show ?thesis by (simp add: app_import_account_def Let_def)
  next
    case (Inr plan)
    obtain s1 r where run: "(case iap_disk_op plan of
        Some op \<Rightarrow> run_account_disk_op W op ?s | None \<Rightarrow> (?s, Inr ())) = (s1, r)" by fastforce
    then have p1: "P s1" using p by (auto split: option.splits intro: run_op_case [OF assms(1)])
    have "P (put_store Internal (fst (apply_import_account_plan plan (ws_store (interfere W i 1 s1))))
        (interfere W i 1 s1))"
      by (intro put_keeps interfere_keeps assms(1) p1 store_step.import_account)
    with p1 show ?thesis
      by (cases r) (simp_all add: app_import_account_def Let_def Inr run case_prod_unfold)
  qed
qed

lemma remove_keeps:
  assumes "allowed W" "P s"
  shows "P (fst (app_remove_account W i aid s))"
proof -
  let ?s = "interfere W i 0 s"
  have p: "P ?s" by (rule interfere_keeps [OF assms])
  show ?thesis
  proof (cases "prepare_remove_account (ws_store ?s) aid")
    case None
    with p show ?thesis by (simp add: app_remove_account_def Let_def)
  next
    case (Some plan)
    obtain s1 r where run: "run_account_disk_op W (rap_disk_op plan) ?s = (s1, r)" by fastforce
    have p1: "P s1" by (rule run_op_case [OF assms(1) p run])
    have "P (put_store Internal (apply_remove_account_plan plan (ws_store (interfere W i 1 s1)))
        (interfere W i 1 s1))"
      by (intro put_keeps interfere_keeps assms(1) p1 store_step.remove_account)
    with p1 show ?thesis
      by (cases r) (simp_all add: app_remove_account_def Let_def Some run)
  qed
qed

lemma admin_keeps:
  assumes "allowed W" "P s"
  shows "P (fst (post_admin_accounts_import E show_time W body s))"
    and "P (fst (get_admin_accounts show_time W s))"
    and "P (fst (delete_admin_account W aid s))"
    and "P (fst (post_admin_account_wake show_time W aid s))"
    and "P (fst (post_admin_accounts_wake show_time W s))"
proof -
  let ?s = "interfere W 0 0 s"
  have p: "P ?s" by (rule interfere_keeps [OF assms])
  show "P (fst (post_admin_accounts_import E show_time W body s))"
    using assms(2) import_keeps [OF assms]
    by (auto simp: post_admin_accounts_import_def split: sum.splits prod.splits) (metis fst_conv)+
  show "P (fst (get_admin_accounts show_time W s))"
    using put_keeps [OF p store_step.list] by (simp add: get_admin_accounts_def Let_def case_prod_unfold)
  show "P (fst (delete_admin_account W aid s))"
    using remove_keeps [OF assms, of 0 aid]
    by (auto simp: delete_admin_account_def split: sum.splits prod.splits bool.splits)
  show "P (fst (post_admin_account_wake show_time W aid s))"
    using p put_keeps [OF p store_step.wake [where aid = aid]]
    by (auto simp: post_admin_account_wake_def Let_def split: sum.splits prod.splits)
  show "P (fst (post_admin_accounts_wake show_time W s))"
    using put_keeps [OF p store_step.wake_all]
    by (simp add: post_admin_accounts_wake_def Let_def case_prod_unfold)
qed

end

section \<open>The history of the store\<close>

text \<open>
  The disk of a world is paired with the events of the other tasks: \<open>honest\<close> says that what another
  task does between two locks is a run of the machine, noted there, and that a disk operation notes
  nothing. \<open>tracks\<close>: the store is the result of a run whose accounted events are those of the request
  interleaved with those of the others.
\<close>

definition others :: "('f \<times> store_event list) world_state \<Rightarrow> store_event list" where
  "others s = snd (ws_fs s)"

definition honest :: "externals \<Rightarrow> ('f \<times> store_event list) world \<Rightarrow> bool" where
  "honest E W \<longleftrightarrow>
     (\<forall>i j st f log. \<exists>evs. store_run E st evs (fst (w_interfere W i j (st, f, log)))
        \<and> snd (snd (w_interfere W i j (st, f, log))) = log @ evs)
     \<and> (\<forall>op fs. snd (fst (w_run_op W op fs)) = snd fs)"

definition tracks :: "externals \<Rightarrow> account_store \<Rightarrow> ('f \<times> store_event list) world_state \<Rightarrow> bool" where
  "tracks E st0 s \<longleftrightarrow>
     (\<exists>evs. store_run E st0 evs (ws_store s)
        \<and> accounted evs \<in> shuffles (accounting s) (accounted (others s)))"

lemma honest_disk: "honest E W \<Longrightarrow> snd (fst (w_run_op W op fs)) = snd fs"
  unfolding honest_def by blast

lemma others_simps [simp]:
  "others (put_store ev st s) = others s"
  "honest E W \<Longrightarrow> others (fst (run_account_disk_op W op s)) = others s"
  by (simp_all add: others_def put_store_def run_account_disk_op_def case_prod_unfold Let_def honest_disk)

lemma honest_interfere:
  assumes "honest E W"
  shows "\<exists>evs. store_run E (ws_store s) evs (ws_store (interfere W i j s))
    \<and> others (interfere W i j s) = others s @ evs"
proof -
  obtain f log where fs: "ws_fs s = (f, log)" by fastforce
  from assms obtain evs where "store_run E (ws_store s) evs (fst (w_interfere W i j (ws_store s, f, log)))"
    "snd (snd (w_interfere W i j (ws_store s, f, log))) = log @ evs"
    unfolding honest_def by blast
  then show ?thesis by (auto simp: interfere_def fs others_def case_prod_unfold Let_def)
qed

lemma tracks_interfere:
  assumes "honest E W" "tracks E st0 s"
  shows "tracks E st0 (interfere W i j s)"
proof -
  from assms(2) obtain evs where e: "store_run E st0 evs (ws_store s)"
    "accounted evs \<in> shuffles (accounting s) (accounted (others s))" by (auto simp: tracks_def)
  from honest_interfere [OF assms(1), of s i j] obtain evs' where
    i: "store_run E (ws_store s) evs' (ws_store (interfere W i j s))" "others (interfere W i j s) = others s @ evs'"
    by blast
  have "accounted (evs @ evs') \<in> shuffles (accounting (interfere W i j s)) (accounted (others (interfere W i j s)))"
    using shuffles_append_right [OF e(2)] by (simp add: i(2))
  with store_run_append [OF i(1) e(1)] show ?thesis unfolding tracks_def by blast
qed

lemma tracks_put:
  assumes "tracks E st0 s" "store_run E (ws_store s) evs' st" "accounted evs' = accounted [ev]"
  shows "tracks E st0 (put_store ev st s)"
proof -
  from assms(1) obtain evs where e: "store_run E st0 evs (ws_store s)"
    "accounted evs \<in> shuffles (accounting s) (accounted (others s))" by (auto simp: tracks_def)
  have "accounted (evs @ evs') \<in> shuffles (accounting (put_store ev st s)) (accounted (others (put_store ev st s)))"
    using shuffles_append_left [OF e(2), of "accounted [ev]"] by (simp add: assms(3) split: if_splits)
  with store_run_append [OF assms(2) e(1)] show ?thesis unfolding tracks_def by auto
qed

interpretation tracks: machine_user E "honest E" "tracks E st0" for E st0
  by unfold_locales (auto intro: tracks_interfere tracks_put, simp add: tracks_def)


section \<open>Start\<close>

text \<open>The gateway starts from a store that tracks: the first synchronisation is a step of the machine.\<close>

lemma sync_is_step:
  assumes "sync_accounts_from_disk E F stamp dir st st' mode fs = (fs1, Inr accounts)"
  shows "store_step E st' Internal accounts"
proof -
  from assms obtain fs0 snap where k: "(case build_disk_sync_plan st snap mode of
        Inl e \<Rightarrow> (fs0, Inl e)
      | Inr plan \<Rightarrow> io_bind (execute_disk_sync_fs E F stamp plan fs0)
          (\<lambda>_ fs. (fs, Inr (apply_disk_sync_plan plan st')))) = (fs1, Inr accounts)"
    unfolding sync_accounts_from_disk_def io_bind_eq_Inr by blast
  then obtain plan where "accounts = apply_disk_sync_plan plan st'"
    by (cases "build_disk_sync_plan st snap mode") (auto simp: io_bind_eq_Inr)
  then show ?thesis by (simp add: store_step.disk_sync)
qed

lemma map_sum_Inr: "map_sum f g x = Inr y \<longleftrightarrow> (\<exists>z. x = Inr z \<and> y = g z)"
  by (cases x) auto

lemma start_tracks:
  assumes "start_gateway E F stamp S config fs = (fs', effects, Inr st)"
  shows "tracks E (new_store (cfg_accounts_dir config))
      \<lparr>ws_store = ap_accounts st, ws_fs = (f, []), ws_log = []\<rparr>"
proof -
  have new: "ap_accounts (new_app_state config) = new_store (cfg_accounts_dir config)"
    by (simp add: new_app_state_def)
  from assms obtain fs1 accounts where
    "startup_sync_accounts_from_disk E F stamp (cfg_accounts_dir config)
       (new_store (cfg_accounts_dir config)) (new_store (cfg_accounts_dir config)) fs = (fs1, Inr accounts)"
    "ap_accounts st = accounts"
    by (auto simp: start_gateway_def Let_def new map_sum_Inr split: sum.splits prod.splits if_splits)
  then have "store_step E (new_store (cfg_accounts_dir config)) Internal (ap_accounts st)"
    using sync_is_step by (simp add: startup_sync_accounts_from_disk_def)
  from store_run_one [OF this] show ?thesis
    by (force simp: tracks_def others_def accounting_accounted)
qed

text \<open>The scanner is one of the other tasks: its run is one of the machine, and it accounts for nothing.\<close>

lemma scanner_runs:
  assumes "\<And>st fs. \<exists>seen. rescan st fs = rescan_accounts_from_disk E F stamp dir seen st fs"
  shows "\<exists>evs. store_run E st evs (fst (accounts_scanner rescan events st fs)) \<and> accounted evs = []"
proof (induction events arbitrary: st fs)
  case Nil
  show ?case using store_run.start by fastforce
next
  case (Cons event events)
  show ?case
  proof (cases event)
    case ScanCancelled
    then show ?thesis using store_run.start by fastforce
  next
    case ScanTick
    obtain seen where seen: "rescan st fs = rescan_accounts_from_disk E F stamp dir seen st fs"
      using assms by blast
    obtain fs1 r where r: "rescan st fs = (fs1, r)" by fastforce
    show ?thesis
    proof (cases r)
      case (Inl e)
      with Cons.IH [of st fs1] r ScanTick show ?thesis by simp
    next
      case (Inr st1)
      with r seen have "store_step E st Internal st1"
        by (metis rescan_accounts_from_disk_def sync_is_step)
      moreover obtain evs where "store_run E st1 evs (fst (accounts_scanner rescan events st1 fs1))" "accounted evs = []"
        using Cons.IH by blast
      ultimately have "store_run E st ([Internal] @ evs) (fst (accounts_scanner rescan events st1 fs1))"
        "accounted ([Internal] @ evs) = []"
        using store_run_append store_run_one by (blast, simp)
      with Inr r ScanTick show ?thesis by force
    qed
  qed
qed

section \<open>Counting\<close>

lemma counts_accounted [simp]:
  "opened k (accounted evs) = opened k evs" "settled k (accounted evs) = settled k evs"
  by (induction evs) (auto simp: opened_def settled_def)

lemma shuffles_counts:
  assumes "zs \<in> shuffles xs ys"
  shows "opened k zs = opened k xs + opened k ys" "settled k zs = settled k xs + settled k ys"
proof -
  have "mset zs = mset xs + mset ys" using assms by (rule mset_shuffles)
  then have "count (mset zs) e = count (mset xs) e + count (mset ys) e" for e by simp
  then show "opened k zs = opened k xs + opened k ys" "settled k zs = settled k xs + settled k ys"
    by (simp_all add: opened_def settled_def count_mset)
qed

lemma balanced_snocI:
  assumes "balanced k evs" "settled k (evs @ [ev]) \<le> opened k (evs @ [ev])"
  shows "balanced k (evs @ [ev])"
  unfolding balanced_def
proof (intro allI impI)
  fix n assume "n \<le> length (evs @ [ev])"
  then consider "n \<le> length evs" | "n = Suc (length evs)" by fastforce
  then show "settled k (take n (evs @ [ev])) \<le> opened k (take n (evs @ [ev]))"
    by cases (use assms in \<open>simp_all add: balanced_def\<close>)
qed

lemma balanced_le: "balanced k evs \<Longrightarrow> settled k evs \<le> opened k evs"
  by (force simp: balanced_def)

lemma balanced_accounted:
  "balanced k (accounted evs) \<Longrightarrow> balanced k evs"
proof (induction evs rule: rev_induct)
  case (snoc ev evs)
  have "balanced k (accounted evs)" using snoc.prems balanced_prefix by fastforce
  then have "balanced k evs" by (rule snoc.IH)
  moreover have "settled k (evs @ [ev]) \<le> opened k (evs @ [ev])"
    using balanced_le [OF snoc.prems] by (simp only: counts_accounted)
  ultimately show ?case by (rule balanced_snocI)
qed simp

lemma shuffles_take:
  "zs \<in> shuffles xs ys \<Longrightarrow> \<exists>i j. take n zs \<in> shuffles (take i xs) (take j ys)"
proof (induction zs arbitrary: xs ys n)
  case (Cons a zs)
  show ?case
  proof (cases n)
    case 0
    then show ?thesis by (intro exI [of _ 0]) simp
  next
    case (Suc m)
    from Cons.prems consider xs' where "xs = a # xs'" "zs \<in> shuffles xs' ys"
      | ys' where "ys = a # ys'" "zs \<in> shuffles xs ys'"
      unfolding Cons_in_shuffles_iff by (metis list.collapse)
    then show ?thesis
    proof cases
      case 1
      from Cons.IH [OF 1(2), of m] obtain i j where "take m zs \<in> shuffles (take i xs') (take j ys)" by blast
      with 1 Suc show ?thesis
        by (intro exI [of _ "Suc i"] exI [of _ j]) (simp add: Cons_in_shuffles_iff del: shuffles.simps)
    next
      case 2
      from Cons.IH [OF 2(2), of m] obtain i j where "take m zs \<in> shuffles (take i xs) (take j ys')" by blast
      with 2 Suc show ?thesis
        by (intro exI [of _ i] exI [of _ "Suc j"]) (simp add: Cons_in_shuffles_iff del: shuffles.simps)
    qed
  qed
qed (intro exI [of _ 0], simp)

lemma balanced_take: "balanced k evs \<Longrightarrow> balanced k (take n evs)"
  by (rule balanced_prefix [of k "take n evs" "drop n evs"]) simp

lemma shuffles_balanced:
  assumes "zs \<in> shuffles xs ys" "balanced k xs" "balanced k ys"
  shows "balanced k zs"
  unfolding balanced_def
proof (intro allI impI)
  fix n
  from shuffles_take [OF assms(1), of n] obtain i j where t: "take n zs \<in> shuffles (take i xs) (take j ys)"
    by blast
  from balanced_le [OF balanced_take [OF assms(2)], of i] balanced_le [OF balanced_take [OF assms(3)], of j]
  show "settled k (take n zs) \<le> opened k (take n zs)" by (simp add: shuffles_counts [OF t])
qed

text \<open>
  The other tasks settle no more than they select, and the selections that name an account stay within
  the range of the counter.
\<close>

definition fair :: "('f \<times> store_event list) world_state \<Rightarrow> bool" where
  "fair s \<longleftrightarrow> (\<forall>k. balanced k (accounted (others s)) \<and> opened k (accounting s) + opened k (others s) < 2 ^ 32)"

lemma tracks_count:
  assumes "tracks E (new_store dir) s" "fair s" "balanced k (accounting s)"
  shows "in_flight_of (ws_store s) k
    = (opened k (accounting s) - settled k (accounting s)) + (opened k (others s) - settled k (others s))"
proof -
  from assms(1) obtain evs where r: "store_run E (new_store dir) evs (ws_store s)"
    "accounted evs \<in> shuffles (accounting s) (accounted (others s))" by (auto simp: tracks_def)
  note c = shuffles_counts [OF r(2), of k, unfolded counts_accounted]
  have o: "balanced k (accounted (others s))" "opened k (accounting s) + opened k (others s) < 2 ^ 32"
    using assms(2) by (simp_all add: fair_def)
  have "balanced k evs" by (rule balanced_accounted [OF shuffles_balanced [OF r(2) assms(3) o(1)]])
  moreover have "opened k evs < 2 ^ 32" using o(2) c by simp
  moreover have "in_flight_of (new_store dir) = (\<lambda>_. 0)" by (simp add: in_flight_of_def [abs_def])
  ultimately have "in_flight_of (ws_store s) k = opened k evs - settled k evs"
    using run_good [OF r(1) good_new_store] fold_count_event by simp
  with c balanced_le [OF assms(3)] balanced_le [OF o(1)] show ?thesis by simp
qed

lemma open_has_record:
  assumes "tracks E (new_store dir) s" "fair s" "balanced k (accounting s)"
    "settled k (accounting s) < opened k (accounting s)"
  obtains r where "records_get (ws_store s) k = Some r" "ar_in_flight_requests r \<noteq> 0"
proof -
  have "in_flight_of (ws_store s) k \<noteq> 0" using tracks_count [OF assms(1-3)] assms(4) by simp
  then obtain r where r: "records_get (ws_store s) k = Some r" "unat (ar_in_flight_requests r) \<noteq> 0"
    by (auto simp: in_flight_of_def split: option.splits)
  then have "ar_in_flight_requests r \<noteq> 0" by (simp add: unat_eq_0)
  with r(1) that show thesis by blast
qed


section \<open>The gateway refines the machine\<close>

text \<open>
  C2: the gateway is an implementation of the account machine. Its start loads a store that the machine
  reaches in one run from the empty one. From then on, however the other tasks step in between two locks, with runs
  of the machine, and whatever the upstream and the disk answer, every handler that returns (responses,
  compaction, trace summaries, the list of models and its refresh in the background, a websocket
  session of any length, the end of a stream, the five operations of the admin API) leaves a store that
  the machine reaches by a run in which the request's selections and settlements are interleaved,
  in their order, with those of the others: no step is lost between two locks, none is
  invented. So every invariant of the machine holds of the store at that time.
\<close>

theorem gateway_runs_the_machine:
  assumes "gateway_of E (honest E) env" "scene_of (honest E) z" "honest E W" "tracks E st0 s"
  shows "(\<forall>F stamp S config fs fs' effects st f. start_gateway E F stamp S config fs = (fs', effects, Inr st)
        \<longrightarrow> tracks E (new_store (cfg_accounts_dir config)) \<lparr>ws_store = ap_accounts st, ws_fs = (f, []), ws_log = []\<rparr>)
    \<and> (\<forall>res. post_responses env snapshot headers body s = Some res \<longrightarrow> upholds (tracks E st0) res)
    \<and> (\<forall>res. post_responses_compact env snapshot headers body s = Some res \<longrightarrow> upholds (tracks E st0) res)
    \<and> (\<forall>res. post_memories_trace_summarize env headers trace s = Some res \<longrightarrow> upholds (tracks E st0) res)
    \<and> (\<forall>md' res. handle_get_models env headers md s = Some (md', res) \<longrightarrow> upholds (tracks E st0) res)
    \<and> (\<forall>md' s1. models_refresh_task env headers md s = Some (md', s1) \<and> md_refresh_in_flight md
        \<and> \<not> md_refresh_in_flight md' \<longrightarrow> tracks E st0 s1)
    \<and> (\<forall>res. get_responses_websocket env z headers s = Some res \<longrightarrow> upholds (tracks E st0) res)
    \<and> upholds (tracks E st0) (deliver_reply E W polls reply s)
    \<and> tracks E st0 (fst (post_admin_accounts_import E show_time W request s))
    \<and> tracks E st0 (fst (get_admin_accounts show_time W s))
    \<and> tracks E st0 (fst (delete_admin_account W aid s))
    \<and> tracks E st0 (fst (post_admin_account_wake show_time W aid s))
    \<and> tracks E st0 (fst (post_admin_accounts_wake show_time W s))"
proof (intro conjI)
  show "\<forall>F stamp S config fs fs' effects st f. start_gateway E F stamp S config fs = (fs', effects, Inr st)
      \<longrightarrow> tracks E (new_store (cfg_accounts_dir config)) \<lparr>ws_store = ap_accounts st, ws_fs = (f, []), ws_log = []\<rparr>"
    using start_tracks by fast
  show "\<forall>md' s1. models_refresh_task env headers md s = Some (md', s1) \<and> md_refresh_in_flight md
      \<and> \<not> md_refresh_in_flight md' \<longrightarrow> tracks E st0 s1"
    using tracks.refresh_task_keeps [OF assms(1,4)] by fast
  show "\<forall>md' res. handle_get_models env headers md s = Some (md', res) \<longrightarrow> upholds (tracks E st0) res"
    using tracks.models_keeps [OF assms(1,4)] by fast
qed (simp_all add: tracks.responses_keeps [OF assms(1,4)] tracks.compact_keeps [OF assms(1,4)]
    tracks.memories_keeps [OF assms(1,4)] tracks.websocket_keeps [OF assms(1,2,4)]
    tracks.deliver_keeps [OF assms(3,4)] tracks.admin_keeps [OF assms(3,4)])

text \<open>The sample world with a log of the others, who do nothing.\<close>

abbreviation watched_env :: "(unit \<times> store_event list, unit) api_env" where
  "watched_env \<equiv> sample_api_env"

abbreviation watched_state :: "(unit \<times> store_event list) world_state" where
  "watched_state \<equiv> sample_state ((), [])"

lemma sample_honest:
  "gateway_of sample_externals (honest sample_externals) watched_env"
  "scene_of (honest sample_externals) sample_scene" "honest sample_externals quiet_world"
proof -
  show q: "honest sample_externals quiet_world"
    unfolding honest_def quiet_world_def by (auto intro: exI [of _ "[]"] store_run.start)
  then show "gateway_of sample_externals (honest sample_externals) watched_env"
    "scene_of (honest sample_externals) sample_scene"
    by (simp_all add: gateway_of_def scene_of_def sample_api_env_def sample_scene_def)
qed

lemma sample_tracks: "tracks sample_externals (new_store [''d'']) watched_state"
proof -
  have "store_run sample_externals (new_store [''d'']) [Internal] one_store"
    using store_run_one [OF store_step.disk_sync [of sample_externals "new_store [''d'']" one_plan]]
    by (simp add: sample_sync)
  then show ?thesis
    by (force simp: tracks_def sample_state_def others_def accounting_accounted)
qed

theorem gateway_runs_the_machine_witness:
  "\<exists>s1 h. post_responses watched_env None [] (Inr (JObject [])) watched_state
        = Some (Returned s1 (StreamAnswer 200 h ''b'' () OpenAi))
     \<and> accounting s1 = [Selected ''b''] \<and> tracks sample_externals (new_store [''d'']) s1"
proof -
  obtain s1 h where run: "post_responses watched_env None [] (Inr (JObject [])) watched_state
        = Some (Returned s1 (StreamAnswer 200 h ''b'' () OpenAi))" "accounting s1 = [Selected ''b'']"
    using sample_stream_request [of "((), [] :: store_event list)"] by (elim exE conjE) (rule that)
  have "upholds (tracks sample_externals (new_store [''d''])) (Returned s1 (StreamAnswer 200 h ''b'' () OpenAi))"
    by (rule gateway_runs_the_machine [OF sample_honest sample_tracks, THEN conjunct2, THEN conjunct1,
        rule_format, OF run(1)])
  with run show ?thesis by auto
qed

section \<open>Held accounts\<close>

lemma all_settled_balanced:
  "all_settled xs \<Longrightarrow> balanced k ys \<Longrightarrow> balanced k (xs @ ys)"
  by (rule balanced_append) (auto simp: all_settled_def)

lemma settled_not_gone:
  assumes "tracks E (new_store dir) s1" "fair s1" "all_settled (accounting s)"
    "accounting s1 = accounting s @ evs" "settled_but_gone (ws_store s1) evs"
  shows "all_settled evs"
proof (rule ccontr)
  assume "\<not> all_settled evs"
  with assms(5) obtain k where b: "\<And>j. balanced j evs" and k: "records_get (ws_store s1) k = None"
    "opened k evs = settled k evs + 1"
    unfolding settled_but_gone_def all_settled_def by auto
  have "balanced k (accounting s1)" unfolding assms(4) by (rule all_settled_balanced [OF assms(3) b])
  moreover have "settled k (accounting s1) < opened k (accounting s1)"
    using assms(3) k(2) by (simp add: assms(4) opened_append settled_append all_settled_def)
  ultimately show False using open_has_record [OF assms(1,2)] k(1) by (metis option.distinct(1))
qed

lemma closed_not_gone:
  assumes "tracks E (new_store dir) s1" "fair s1" "all_settled (accounting s)" "closed_books s s1"
  shows "\<exists>evs. accounting s1 = accounting s @ evs \<and> all_settled evs"
  using assms(4) settled_not_gone [OF assms(1-3)] unfolding closed_books_def by blast

definition keeps_record :: "externals \<Rightarrow> path \<Rightarrow> ('f \<times> store_event list) world_state \<Rightarrow> string \<Rightarrow> bool" where
  "keeps_record E dir s k \<longleftrightarrow>
     (\<forall>s2 :: ('f \<times> store_event list) world_state. tracks E (new_store dir) s2 \<and> accounting s2 = accounting s \<and> fair s2 \<longrightarrow>
        (\<exists>r. records_get (ws_store s2) k = Some r \<and> ar_in_flight_requests r \<noteq> 0))"

lemma holding_kept:
  assumes "all_settled (accounting s)" "accounting s1 = accounting s @ evs" "holding k evs"
  shows "keeps_record E dir s1 k"
proof -
  have a: "balanced k (evs @ [Settled k])" "opened k evs = settled k evs + 1"
    using assms(3) by (auto simp: holding_def all_settled_def opened_def settled_def)
  have "balanced k (accounting s1)"
    unfolding assms(2) by (rule all_settled_balanced [OF assms(1) balanced_prefix [OF a(1)]])
  moreover have "settled k (accounting s1) < opened k (accounting s1)"
    using a(2) assms(1) by (simp add: assms(2) opened_append settled_append all_settled_def)
  ultimately show ?thesis
    unfolding keeps_record_def using open_has_record by metis
qed


lemma others_settled:
  assumes "honest E W" "settle_at E W k x s = Returned s1 u"
  shows "\<exists>evs. others s1 = others s @ evs" "accounting s1 = accounting s @ [Settled k]"
proof -
  from assms(2) have "s1 = outcome_state (settle_at E W k x s)" by simp
  then have "others s1 = others (interfere W 0 8 s)"
    by (cases "apply_account_settlement E (w_time W 0 8) k x (ws_store (interfere W 0 8 s))")
      (simp_all add: settle_at_def Let_def)
  with honest_interfere [OF assms(1)] show "\<exists>evs. others s1 = others s @ evs" by metis
  show "accounting s1 = accounting s @ [Settled k]" using settle_at_accounting [of E W k x s] assms(2) by simp
qed

lemma fair_before:
  assumes "fair s1" "others s1 = others s @ xs" "accounting s1 = accounting s @ ys"
  shows "fair s"
  unfolding fair_def
proof (intro allI conjI)
  fix k
  have "balanced k (accounted (others s) @ accounted xs)"
    "opened k (accounting s1) + opened k (others s1) < 2 ^ 32"
    using assms(1,2) unfolding fair_def by auto
  then show "balanced k (accounted (others s))" "opened k (accounting s) + opened k (others s) < 2 ^ 32"
    using assms(2,3) by (auto simp: opened_append dest: balanced_prefix)
qed

text \<open>When the account the session reports is settled, no other one is left open.\<close>

lemma reported_settled:
  assumes "tracks E (new_store dir) s2" "honest E W" "settle_at E W k x s2 = Returned s3 u" "fair s3"
    "all_settled (accounting s)" "accounting s2 = accounting s @ evs"
    "settled_but_gone (ws_store s2) (evs @ [Settled k])"
  shows "\<exists>evs. accounting s3 = accounting s @ evs \<and> all_settled evs"
proof -
  from others_settled(1) [OF assms(2,3)] obtain xs where "others s3 = others s2 @ xs" by blast
  from fair_before [OF assms(4) this others_settled(2) [OF assms(2,3)]] have fair: "fair s2" .
  have acc: "accounting s3 = accounting s @ evs @ [Settled k]"
    using others_settled(2) [OF assms(2,3)] assms(6) by simp
  have "all_settled (evs @ [Settled k])"
  proof (rule ccontr)
    assume "\<not> all_settled (evs @ [Settled k])"
    with assms(7) obtain j where b: "\<And>i. balanced i (evs @ [Settled k])"
      and j: "records_get (ws_store s2) j = None" "opened j (evs @ [Settled k]) = settled j (evs @ [Settled k]) + 1"
      unfolding settled_but_gone_def all_settled_def by auto
    have "balanced j (accounting s2)"
      unfolding assms(6) by (rule all_settled_balanced [OF assms(5) balanced_prefix [OF b]])
    moreover have "settled j evs < opened j evs"
      using j(2) by (auto simp: opened_def settled_def split: if_splits)
    then have "settled j (accounting s2) < opened j (accounting s2)"
      using assms(5) by (simp add: assms(6) opened_append settled_append all_settled_def)
    ultimately show False using open_has_record [OF assms(1) fair] j(1) by (metis option.distinct(1))
  qed
  with acc show ?thesis by blast
qed

lemma served_settled:
  assumes "scene_ok X env z" "pool X (ws_store s)" "gateway_of E (honest E) env" "scene_of (honest E) z"
    "tracks E (new_store dir) s" "all_settled (accounting s)"
    "get_responses_websocket env z headers s = Some (Returned s3 (Served h out))" "fair s3"
  shows "\<exists>evs. accounting s3 = accounting s @ evs \<and> all_settled evs"
proof -
  let ?C = "(ae_config env)\<lparr>fc_disposition := HoldUntilCaller\<rparr>" and ?W = "ae_world env 0"
  from assms(3,4) have w: "honest E ?W" "ae_externals env = E" "honest E (wz_last_world z)"
    and sess: "session_of E (honest E) (session_env env z)"
    by (auto simp: gateway_of_def scene_of_def session_of_def session_env_def)
  have c: "confined X ?W" using assms(1) by (simp add: scene_ok_def api_ok_def)
  from assms(7) obtain s1 tried routed ps s2 turned u where
    run: "execute_with_failover_from (ae_inner_rounds env) E ?C ?W (websocket_upstream env z 0 0 headers) {} s
      = Some (Returned s1 (tried, Inr routed))"
    and proxy: "proxy_websocket (session_env env z) (wz_events z) turned routed
      (fx_response_shape (failure_context_for headers UnaryJson) = Codex) s1 = ((ps, s2), Finish out)"
    and settle: "settle_at E (wz_last_world z) (re_account_id out) (settlement_of_outcome (re_value out)) s2
      = Returned s3 u"
    by (auto simp: get_responses_websocket_def Let_def w(2) and_then_Returned
        split: option.splits outcome.splits prod.splits sum.splits if_splits proxy_verdict.splits)
  have t1: "tracks E (new_store dir) s1" using tracks.loop_keeps [OF w(1) assms(5) run] by simp
  from tracks.proxy_keeps [OF sess t1] proxy have t2: "tracks E (new_store dir) s2"
    by (metis proxy_websocket_def turn_upholds_simps(1) proxy_verdict.distinct(7))
  from inner_then_settled [OF c assms(2) run] obtain held where
    held: "pool X (ws_store s1)" "accounting s1 = accounting s @ held" "holding (re_account_id routed) held"
    by (auto simp: holding_def)
  have "holding (px_account_id (initial_proxy turned routed b)) held" for b
    using held(3) by (simp add: initial_proxy_def)
  from loop_books [OF scene_surroundings [OF assms(1)] held(1) this]
  have "run_book X held s1 ((ps, s2), Finish out)" using proxy unfolding proxy_websocket_def by metis
  then obtain evs where "accounting s2 = accounting s1 @ evs"
    "settled_but_gone (ws_store s2) ((held @ evs) @ [Settled (re_account_id out)])"
    by (auto simp: run_book_def)
  with reported_settled [OF t2 w(3) settle assms(8,6)] held(2) show ?thesis by simp
qed

text \<open>
  C4: an account stays while a request holds it. Let the store have grown from the empty one, other tasks settle no
  more than they selected, and fewer than \<open>2\<^sup>3\<^sup>2\<close> selections name an account. Then,
  whatever imports, removals and rescans the others make, no record disappears under a request: a
  request that is answered, or a session that has ended, has settled every account it selected, without
  exception, and while a stream or a session holds an account, its record exists and counts the request.
\<close>

theorem held_account_stays:
  assumes "scene_ok X env z" "pool X (ws_store s)" "gateway_of E (honest E) env" "scene_of (honest E) z"
    "tracks E (new_store dir) s" "all_settled (accounting s)"
  shows "(\<forall>s1 reply. post_responses env snapshot headers body s = Some (Returned s1 reply) \<and> fair s1 \<longrightarrow>
        (case reply of
           Answer r \<Rightarrow> \<exists>evs. accounting s1 = accounting s @ evs \<and> all_settled evs
         | StreamAnswer status h k bytes shape \<Rightarrow> keeps_record E dir s1 k))
    \<and> (\<forall>s1 r. post_responses_compact env snapshot headers body s = Some (Returned s1 r) \<and> fair s1 \<longrightarrow>
        (\<exists>evs. accounting s1 = accounting s @ evs \<and> all_settled evs))
    \<and> (\<forall>s1 r. post_memories_trace_summarize env headers trace s = Some (Returned s1 r) \<and> fair s1 \<longrightarrow>
        (\<exists>evs. accounting s1 = accounting s @ evs \<and> all_settled evs))
    \<and> (\<forall>s1 reply. get_responses_websocket env z headers s = Some (Returned s1 reply) \<and> fair s1 \<longrightarrow>
        (case reply of
           Serving h ps \<Rightarrow> keeps_record E dir s1 (px_account_id ps)
         | _ \<Rightarrow> \<exists>evs. accounting s1 = accounting s @ evs \<and> all_settled evs))"
proof (intro conjI allI impI)
  have ok: "api_ok X env" using assms(1) by (simp add: scene_ok_def)
  note closed = closed_not_gone [OF _ _ assms(6)]
  show "case reply of
           Answer r \<Rightarrow> \<exists>evs. accounting s1 = accounting s @ evs \<and> all_settled evs
         | StreamAnswer status h k bytes shape \<Rightarrow> keeps_record E dir s1 k"
    if "post_responses env snapshot headers body s = Some (Returned s1 reply) \<and> fair s1" for s1 reply
    using that post_responses_books [OF ok assms(2), of snapshot headers body] closed [of E dir s1]
      tracks.responses_keeps [OF assms(3,5), of snapshot headers body] holding_kept [OF assms(6)]
    by (fastforce simp: reply_books_def split: reply.splits)
  show "\<exists>evs. accounting s1 = accounting s @ evs \<and> all_settled evs"
    if "post_responses_compact env snapshot headers body s = Some (Returned s1 r) \<and> fair s1" for s1 r
    using that compact_books [OF ok assms(2), of snapshot headers body] closed [of E dir s1]
      tracks.compact_keeps [OF assms(3,5), of snapshot headers body] by fastforce
  show "\<exists>evs. accounting s1 = accounting s @ evs \<and> all_settled evs"
    if "post_memories_trace_summarize env headers trace s = Some (Returned s1 r) \<and> fair s1" for s1 r
    using that memories_books [OF ok assms(2), of headers trace] closed [of E dir s1]
      tracks.memories_keeps [OF assms(3,5), of headers trace] by fastforce
  show "case reply of
           Serving h ps \<Rightarrow> keeps_record E dir s1 (px_account_id ps)
         | _ \<Rightarrow> \<exists>evs. accounting s1 = accounting s @ evs \<and> all_settled evs"
    if r: "get_responses_websocket env z headers s = Some (Returned s1 reply) \<and> fair s1" for s1 reply
  proof -
    have t: "tracks E (new_store dir) s1"
      using tracks.websocket_keeps [OF assms(3,4,5), of headers] r by fastforce
    from websocket_session_books [OF assms(1,2), of headers] r
    have b: "session_books env z s s1 reply" by auto
    show ?thesis
    proof (cases reply)
      case (Refused x)
      with b settled_not_gone [OF t _ assms(6)] r show ?thesis by (auto simp: session_books_def)
    next
      case (Serving h ps)
      with b holding_kept [OF assms(6)] show ?thesis by (auto simp: session_books_def)
    next
      case (Served h out)
      with served_settled [OF assms(1-6), of headers s1 h out] r show ?thesis by simp
    qed (use b in \<open>auto simp: session_books_def\<close>)
  qed
qed


theorem held_account_stays_witness:
  "\<exists>s1 h. post_responses watched_env None [] (Inr (JObject [])) watched_state
        = Some (Returned s1 (StreamAnswer 200 h ''b'' () OpenAi))
     \<and> keeps_record sample_externals [''d''] s1 ''b''"
proof -
  obtain s1 h where run: "post_responses watched_env None [] (Inr (JObject [])) watched_state
        = Some (Returned s1 (StreamAnswer 200 h ''b'' () OpenAi))" "ws_fs s1 = ((), [])"
      "accounting s1 = [Selected ''b'']"
    using sample_stream_request [of "((), [] :: store_event list)"] by (elim exE conjE) (rule that)
  have "fair s1" by (simp add: fair_def others_def run(2,3) balanced_small opened_def)
  have "all_settled (accounting watched_state)"
    by (simp add: all_settled_def sample_state_def accounting_def opened_def settled_def balanced_small)
  from held_account_stays [OF sample_scene_ok sample_pool(2) sample_honest(1,2) sample_tracks this,
      THEN conjunct1, rule_format, OF conjI [OF run(1) \<open>fair s1\<close>]]
  have "keeps_record sample_externals [''d''] s1 ''b''" by simp
  with run(1) show ?thesis by blast
qed

end
