(* ===== verification/Spec2Isabelle.thy ===== *)
theory Spec2Isabelle
  imports Failover_Unary Managed_Stream Gateway_Errors Models_Cache Request_Normalization Ws_Settlement
    Sse_Roundtrip Request_Steps
begin

text \<open>
  A model of codaze, a gateway in front of an LLM service that shares a pool of upstream accounts
  among its callers. Files are named relative to \<open>src/src/\<close>.

  \<^bold>\<open>The program.\<close> The gateway keeps one record per account (\<open>accounts/\<close>): its tokens, the requests in
  flight on it, a refresh in flight, and why and until when it is blocked. Each account has a file in
  the accounts directory. A request selects an account (\<open>router.rs\<close>, \<open>accounts/selection.rs\<close>),
  refreshes its token when needed, is sent, and settles the selection; a failed request is classified
  (\<open>error_semantics.rs\<close>, \<open>classifier.rs\<close>), blocks the account, and is tried on the next one
  (\<open>failover.rs\<close>). A streamed answer is passed on while its events are read, and settles the account
  when it ends (\<open>responses/stream.rs\<close>); a websocket is proxied and moved to another account when the one in
  use fails (\<open>responses/websocket/\<close>). \<open>app/api.rs\<close> holds the handlers of the public API, \<open>app/admin.rs\<close>
  those of the admin API on a second listener, \<open>main.rs\<close> the start and the end.

  \<^bold>\<open>Theories.\<close>
  \<^item> \<open>Codaze_Base\<close>, \<open>Json_Values\<close>: strings as byte lists, saturating words, time as integer nanoseconds,
    \<open>serde_json\<close> values, header maps, and the record \<open>externals\<close> of the functions that are not under
    \<open>src/\<close> (parsers, printers, chrono's bounds, SHA-256), an argument of every definition that uses one.
  \<^item> \<open>Gateway_Config\<close> (\<open>config.rs\<close>), \<open>Route_Select\<close> (\<open>router.rs\<close>), \<open>Error_Semantics\<close>
    (\<open>error_semantics.rs\<close>, \<open>classifier.rs\<close>), \<open>Failure_Payload\<close> (\<open>responses/failure.rs\<close>).
  \<^item> \<open>Accounts\<close> (\<open>accounts/mod.rs\<close>): the data and the block transitions; \<open>Account_Blocks\<close>: they refine
    an order of block strengths; \<open>Account_Files\<close>: file names. \<open>Account_Lifecycle\<close>, \<open>Account_Selection\<close>
    (\<open>accounts/lifecycle.rs\<close>, \<open>selection.rs\<close>): the operations on the store, one function per method;
    the hash map of records is an association list whose order is arbitrary. \<open>Account_Routing\<close>:
    soundness, completeness and order independence of the selection.
  \<^item> \<open>File_System\<close>: the calls of \<open>std::fs\<close> the program makes, each of which may fail at any point;
    \<open>Account_Disk\<close> (\<open>accounts/disk.rs\<close>, the branches for unix): scan, synchronisation, import,
    removal, atomic writes; \<open>Account_Persistence\<close>: what they keep.
  \<^item> \<open>Account_Machine\<close>: the store as a state machine with one step per operation, its invariants, and
    the accounting of requests in flight; \<open>Account_Failures\<close>: what failures do to an account, and
    what a request abandoned during a refresh does.
  \<^item> \<open>App_State\<close> (\<open>app/mod.rs\<close>): the operations that combine the store with the disk. The lock of the
    store is released between their parts; what other tasks do there is an arbitrary function of the
    state, as it is in every loop below. A ghost log records selections and settlements.
  \<^item> \<open>Retry_Loop\<close>: loops with a budget; \<open>Failover\<close> (\<open>failover.rs\<close>): one round of the failover loop in
    its phases and the loop; \<open>Failover_Bounds\<close>: it returns and settles what it selects;
    \<open>Failover_Unary\<close>: the outer loop of the unary JSON requests.
  \<^item> \<open>Event_Errors\<close> (\<open>responses/websocket/errors.rs\<close>): error events, close frames, error messages.
  \<^item> \<open>Sse_Stream\<close>, \<open>Managed_Stream\<close> (\<open>responses/stream.rs\<close>): the observer of server-sent events and
    the stream the caller polls; \<open>Sse_Chunks\<close>: the cut into chunks does not matter;
    \<open>Sse_Roundtrip\<close>: an event the gateway renders is read by another gateway as it was meant.
  \<^item> \<open>Http_Headers\<close>: header maps; \<open>Upstream_Headers\<close> (\<open>upstream/headers.rs\<close>, \<open>fingerprint.rs\<close>): the headers
    sent upstream and passed back; \<open>Upstream_Http\<close> (\<open>upstream/\<close> otherwise): requests, retries, the refresh
    call, the websocket handshake. The network is a function from requests to results.
  \<^item> \<open>Models_Cache\<close> (\<open>models.rs\<close>), \<open>Request_Normalization\<close> (\<open>request_normalization.rs\<close>),
    \<open>Gateway_Errors\<close> (\<open>gateway_errors.rs\<close>, \<open>http_shape.rs\<close>).
  \<^item> \<open>Ws_Protocol\<close>, \<open>Ws_Proxy\<close> (\<open>responses/websocket/\<close>): single messages, and the proxy loop as a function of
    the events that \<open>select!\<close> delivers; \<open>Ws_Settlement\<close>: its accounts are settled.
  \<^item> \<open>Api_Requests\<close> (\<open>app/api.rs\<close>): the handlers of the public API, each from the body it was sent to the
    response, composed of the parts above; \<open>Api_Accounting\<close>: they return, and over the life of a request, a
    streamed body or a websocket session included, every account is given back.
  \<^item> \<open>Admin_Api\<close> (\<open>app/admin.rs\<close>, the tables of routes in \<open>app/mod.rs\<close>): the handlers of the admin API and
    the JSON of the accounts they show; \<open>Gateway_Main\<close> (\<open>main.rs\<close>): the start up to the listeners, the
    scanner of the accounts directory, the end of the process.
  \<^item> \<open>Request_Steps\<close>: the gateway as a whole over the machine of the accounts. Every handler, from the start of
    the process on, is a run of \<open>Account_Machine\<close> interleaved with the runs of the other tasks, whose events
    are logged beside the disk; so its invariants hold of every store the gateway has between two locks, and
    an account does not disappear while a request holds it.

  \<^bold>\<open>Interfaces.\<close> \<open>record_op\<close> and \<open>counted_op\<close> (\<open>Account_Machine\<close>) are what the store relies on when an
  operation changes one record, with one interpretation per operation; \<open>budgeted_loop\<close> is what makes a
  retry loop return, interpreted for the two failover loops and the websocket reconnection;
  \<open>event_frames\<close> is what the draining of a buffer needs of the detector of event ends, interpreted for the code's detector;
  \<open>machine_user\<close> (\<open>Request_Steps\<close>) is what the handlers rely on, an assertion that the other tasks, the steps of
  the machine and the disk respect, and what they guarantee, interpreted for the history of the store; the routing
  policies and the block order have theirs in \<open>Account_Routing\<close> and \<open>Account_Blocks\<close>.

  \<^bold>\<open>Fuel.\<close> The failover loop has no bound in the code; with the accounts in a finite set \<open>X\<close>,
  \<open>2 * card X + 1\<close> rounds are enough (each round adds an account to one of two sets), and
  \<open>card X + 1\<close> rounds of the unary loop. The search for a free name in the trash needs at most two more
  attempts than there are files. The loop over a buffer of events has its length as fuel, since each
  event is at least one byte.

  \<^bold>\<open>Panics.\<close> Arithmetic of chrono that leaves the representable range panics; operations that can reach
  it return an \<open>outcome\<close>, whose panic carries the state left behind.

  \<^bold>\<open>Not modelled.\<close> Sockets, TLS, timeouts and sleeps (what they deliver are arguments); axum's matching of
  paths, its extractors and its serving; the handling of signals (a shutdown is an event) and logging; the
  branches compiled for Windows only; tests.
\<close>

end
